(* ===== verification/Prelude.thy ===== *)
theory Prelude
  imports Complex_Main "HOL-Library.Word"
begin

text \<open>
  What every component of the development shares: Go's 64-bit integers and truncating
  division, clock values, text as a sequence of Unicode code points with its UTF-8 length,
  and the generic facts on lists and on sums used as results.
\<close>

named_theorems go_arith \<open>64-bit arithmetic that does not wrap\<close>
named_theorems result_iff \<open>when a computation that may fail succeeds\<close>

section \<open>Integers, clock values and text\<close>

text \<open>
  A Go \<open>int\<close>, \<open>int64\<close> or \<open>time.Duration\<close> is an \<^typ>\<open>int\<close>; where a computation of the
  source can leave the 64-bit range, the result is wrapped with \<open>i64\<close>.
\<close>

definition i64 :: "int \<Rightarrow> int" where
  "i64 x = (x + 2 ^ 63) mod 2 ^ 64 - 2 ^ 63"

text \<open>Integer division of Go rounds towards zero.\<close>

definition tdiv :: "int \<Rightarrow> int \<Rightarrow> int" where
  "tdiv a b = sgn a * sgn b * (\<bar>a\<bar> div \<bar>b\<bar>)"

text \<open>Conversion of a floating point number to an integer drops the fraction.\<close>

definition rtrunc :: "rat \<Rightarrow> int" where
  "rtrunc q = (if q < 0 then - \<lfloor>- q\<rfloor> else \<lfloor>q\<rfloor>)"

text \<open>A \<open>time.Duration\<close> counts nanoseconds; a \<open>time.Time\<close> is the nanosecond it denotes.\<close>

type_synonym duration = int
type_synonym instant = int

abbreviation second :: duration where "second \<equiv> 1000000000"
abbreviation millisecond :: duration where "millisecond \<equiv> 1000000"
abbreviation minute :: duration where "minute \<equiv> 60 * second"
abbreviation hour :: duration where "hour \<equiv> 60 * minute"

text \<open>
  Message contents reach the program through \<open>encoding/json\<close>, so they are well-formed
  UTF-8: a list of code points. \<open>len\<close> of such a string counts the bytes of its encoding.
\<close>

type_synonym rune = nat
type_synonym runes = "rune list"

definition utf8_len :: "rune \<Rightarrow> nat" where
  "utf8_len r = (if r < 128 then 1 else if r < 2048 then 2 else if r < 65536 then 3 else 4)"

definition byte_len :: "runes \<Rightarrow> nat" where
  "byte_len t = sum_list (map utf8_len t)"

text \<open>
  A \<open>float32\<close> is its bit pattern: sign, eight bits of exponent and 23 of fraction. The value
  is that of a finite number, which is all \<open>encoding/json\<close> produces.
\<close>

type_synonym float32 = "32 word"

definition f32_value :: "float32 \<Rightarrow> rat" where
  "f32_value b =
     (let e = unat (take_bit 8 (drop_bit 23 b)); m = of_nat (unat (take_bit 23 b));
          x = (if e = 0 then m / 2 ^ 149
               else if 150 \<le> e then (2 ^ 23 + m) * 2 ^ (e - 150) else (2 ^ 23 + m) / 2 ^ (150 - e))
      in if bit b 31 then - x else x)"

text \<open>\<open>strings.Contains\<close> and \<open>strings.HasPrefix\<close>, on code points or on bytes alike.\<close>

fun has_prefix :: "'a list \<Rightarrow> 'a list \<Rightarrow> bool" where
  "has_prefix xs [] = True"
| "has_prefix [] (p # ps) = False"
| "has_prefix (x # xs) (p # ps) = (x = p \<and> has_prefix xs ps)"

fun contains :: "'a list \<Rightarrow> 'a list \<Rightarrow> bool" where
  "contains [] ps = (ps = [])"
| "contains (x # xs) ps = (has_prefix (x # xs) ps \<or> contains xs ps)"

section \<open>Facts on wrapped integers\<close>

lemma i64_sint: "i64 x = sint (word_of_int x :: 64 word)"
  by (simp add: i64_def sint_sbintrunc' signed_take_bit_eq_take_bit_shift take_bit_eq_mod)

lemma i64_id [go_arith]: "- (2 ^ 63) \<le> x \<Longrightarrow> x < 2 ^ 63 \<Longrightarrow> i64 x = x"
  by (simp add: i64_def)

lemma i64_lower: "- (2 ^ 63) \<le> i64 x"
  by (simp add: i64_def)

lemma i64_upper: "i64 x < 2 ^ 63"
proof -
  have "(x + 2 ^ 63) mod 2 ^ 64 < (2 ^ 64 :: int)" by simp
  then show ?thesis by (simp add: i64_def)
qed

lemma tdiv_nonneg [go_arith]: "0 \<le> a \<Longrightarrow> 0 < b \<Longrightarrow> tdiv a b = a div b"
  by (cases "a = 0") (auto simp: tdiv_def)

lemma div_less_iff:
  assumes "0 < (k :: int)"
  shows "x div k < q \<longleftrightarrow> x < q * k"
proof
  assume "x div k < q"
  then have "(x div k + 1) * k \<le> q * k" using assms by (intro mult_right_mono) simp_all
  then have "k * (x div k) + k \<le> q * k" by (simp add: algebra_simps)
  then show "x < q * k" using mult_div_mod_eq [of k x] pos_mod_bound [OF assms, of x] by linarith
next
  assume "x < q * k"
  moreover have "x div k * k \<le> x"
    using mult_div_mod_eq [of k x] pos_mod_sign [OF assms, of x] unfolding mult.commute [of "x div k"] by linarith
  ultimately have "x div k * k < q * k" by simp
  then show "x div k < q" using assms by simp
qed

lemma rtrunc_zero [simp]: "rtrunc 0 = 0"
  by (simp add: rtrunc_def)

lemma rtrunc_nonneg [go_arith]: "0 \<le> q \<Longrightarrow> rtrunc q = \<lfloor>q\<rfloor>"
  by (simp add: rtrunc_def)

lemma utf8_len_pos: "1 \<le> utf8_len r"
  by (simp add: utf8_len_def)

lemma byte_len_append [simp]: "byte_len (s @ t) = byte_len s + byte_len t"
  by (simp add: byte_len_def)

lemma length_le_byte_len: "length t \<le> byte_len t"
proof (induction t)
  case (Cons r t)
  then show ?case using utf8_len_pos [of r] by (simp add: byte_len_def)
qed simp

section \<open>Facts on strings and results\<close>

lemma has_prefix_iff: "has_prefix xs ps \<longleftrightarrow> (\<exists>zs. xs = ps @ zs)"
  by (induction xs ps rule: has_prefix.induct) auto

lemma contains_iff: "contains xs ps \<longleftrightarrow> (\<exists>as bs. xs = as @ ps @ bs)"
proof (induction xs)
  case Nil
  then show ?case by auto
next
  case (Cons x xs)
  show ?case
  proof
    assume "contains (x # xs) ps"
    then consider "has_prefix (x # xs) ps" | "contains xs ps" by auto
    then show "\<exists>as bs. x # xs = as @ ps @ bs"
    proof cases
      case 1
      then show ?thesis by (metis append_Nil has_prefix_iff)
    next
      case 2
      then show ?thesis using Cons.IH by (metis append_Cons)
    qed
  next
    assume "\<exists>as bs. x # xs = as @ ps @ bs"
    then obtain as bs where eq: "x # xs = as @ ps @ bs" by blast
    show "contains (x # xs) ps"
    proof (cases as)
      case Nil
      then have "has_prefix (x # xs) ps" using eq by (simp add: has_prefix_iff)
      then show ?thesis by simp
    next
      case (Cons a as')
      then show ?thesis using eq Cons.IH by auto
    qed
  qed
qed

lemma sum_list_filter_le:
  "sum_list (map f (filter P xs)) \<le> sum_list (map (f :: 'a \<Rightarrow> nat) xs)"
  by (induction xs) auto

lemma case_sum_Inr_iff [result_iff]:
  "(case x of Inl e \<Rightarrow> Inl e | Inr y \<Rightarrow> f y) = Inr z \<longleftrightarrow> (\<exists>y. x = Inr y \<and> f y = Inr z)"
  by (cases x) auto

lemma if_error_Inr_iff [result_iff]:
  "(if b then Inl e else x) = Inr z \<longleftrightarrow> \<not> b \<and> x = Inr z"
  by simp

section \<open>Decimal rendering\<close>

definition digit :: "nat \<Rightarrow> char" where
  "digit n = ''0123456789'' ! n"

fun show_nat :: "nat \<Rightarrow> string" where
  "show_nat n = (if n < 10 then [digit n] else show_nat (n div 10) @ [digit (n mod 10)])"

declare show_nat.simps [simp del]

definition show_int :: "int \<Rightarrow> string" where
  "show_int i = (if i < 0 then ''-'' @ show_nat (nat (- i)) else show_nat (nat i))"

definition pad_left :: "nat \<Rightarrow> char \<Rightarrow> string \<Rightarrow> string" where
  "pad_left w c s = replicate (w - length s) c @ s"

text \<open>Reading a rendering back, which makes rendering injective.\<close>

text \<open>The verb \<open>%.df\<close> of \<open>fmt\<close>: a number with d decimals, rounded half to even.\<close>

definition round_even :: "rat \<Rightarrow> int" where
  "round_even x =
     (let f = \<lfloor>x\<rfloor>; r = x - of_int f in
      if r < 1 / 2 then f else if r > 1 / 2 then f + 1 else if even f then f else f + 1)"

definition fmt_fixed :: "nat \<Rightarrow> rat \<Rightarrow> string" where
  "fmt_fixed d q =
     (let n = nat (round_even (\<bar>q\<bar> * 10 ^ d)) in
      (if q < 0 then ''-'' else []) @ show_nat (n div 10 ^ d) @
      (if d = 0 then [] else ''.'' @ pad_left d (CHR ''0'') (show_nat (n mod 10 ^ d))))"

definition undigit :: "char \<Rightarrow> nat" where
  "undigit c = length (takeWhile (\<lambda>d. d \<noteq> c) ''0123456789'')"

definition read_nat :: "string \<Rightarrow> nat" where
  "read_nat s = foldl (\<lambda>a c. 10 * a + undigit c) 0 s"

lemma undigit_digit: "n < 10 \<Longrightarrow> undigit (digit n) = n"
  by (auto simp: eval_nat_numeral less_Suc_eq undigit_def digit_def)

definition is_digit :: "char \<Rightarrow> bool" where
  "is_digit c \<longleftrightarrow> c \<in> set ''0123456789''"

lemma is_digit_digit: "n < 10 \<Longrightarrow> is_digit (digit n)"
  unfolding is_digit_def digit_def by (rule nth_mem) simp

lemma read_show_nat [simp]: "read_nat (show_nat n) = n"
proof (induction n rule: show_nat.induct)
  case (1 n)
  then show ?case
    by (cases "n < 10") (simp_all add: show_nat.simps [of n] read_nat_def undigit_digit)
qed

lemma show_nat_inject [simp]: "show_nat m = show_nat n \<longleftrightarrow> m = n"
  by (metis read_show_nat)

lemma show_nat_digits: "c \<in> set (show_nat n) \<Longrightarrow> is_digit c"
proof (induction n rule: show_nat.induct)
  case (1 n)
  then show ?case
    by (cases "n < 10") (auto simp: show_nat.simps [of n] is_digit_digit)
qed

lemma show_nat_nonempty [simp]: "show_nat n \<noteq> []"
  by (simp add: show_nat.simps [of n])

lemma length_show_nat: "n < 10 ^ k \<Longrightarrow> 0 < k \<Longrightarrow> length (show_nat n) \<le> k"
proof (induction k arbitrary: n)
  case 0
  then show ?case by simp
next
  case (Suc k)
  show ?case
  proof (cases "n < 10")
    case True
    then show ?thesis by (simp add: show_nat.simps [of n])
  next
    case False
    then have "0 < k" using Suc.prems by (cases k) simp_all
    moreover have "n div 10 < 10 ^ k" using Suc.prems by (simp add: less_mult_imp_div_less mult.commute)
    ultimately show ?thesis using Suc.IH [of "n div 10"] False by (simp add: show_nat.simps [of n])
  qed
qed

lemma read_pad_left: "read_nat (pad_left w (CHR ''0'') s) = read_nat s"
proof -
  have "foldl (\<lambda>a c. 10 * a + undigit c) 0 (replicate n (CHR ''0'') @ s) = foldl (\<lambda>a c. 10 * a + undigit c) 0 s" for n
    by (induction n) (simp_all add: undigit_def)
  then show ?thesis by (simp add: pad_left_def read_nat_def)
qed

lemma length_pad_left: "length s \<le> w \<Longrightarrow> length (pad_left w c s) = w"
  by (simp add: pad_left_def)

end
