(* ===== verification/Redis.thy ===== *)
theory Redis
  imports Prelude
begin

text \<open>
  The Redis server is not part of the repository: it is a parameter of the model, a record
  of the commands the sources issue. The locale \<open>redis_server\<close> lists the documented
  behaviour of those commands that the sources rely on; \<open>mem_redis\<close> is a concrete server
  that satisfies it, which the witnesses run against.
\<close>

named_theorems redis_simps \<open>the laws of the Redis server, as rewrite rules\<close>

section \<open>The commands the sources use\<close>

text \<open>A stored value: the rendering of a number, or other text.\<close>

datatype rval = RNum rat | RStr string

text \<open>
  One field per command. \<open>rTIME\<close> is the server's clock in microseconds, \<open>rLIFE\<close> the
  remaining time to live of a key in microseconds (\<^term>\<open>None\<close> for a key without expiry),
  \<open>rTICK\<close> the passage of time. \<open>rINCRBY\<close> and \<open>rHINCRBY\<close> answer \<^term>\<open>None\<close> where the
  server answers an error.
\<close>

record 'r redis_api =
  rTIME :: "'r \<Rightarrow> int"
  rHGET :: "'r \<Rightarrow> string \<Rightarrow> string \<Rightarrow> rval option"
  rGET :: "'r \<Rightarrow> string \<Rightarrow> rval option"
  rEXISTS :: "'r \<Rightarrow> string \<Rightarrow> bool"
  rLIFE :: "'r \<Rightarrow> string \<Rightarrow> int option"
  rHSET :: "string \<Rightarrow> (string \<times> rval) list \<Rightarrow> 'r \<Rightarrow> 'r"
  rSET :: "string \<Rightarrow> rval \<Rightarrow> 'r \<Rightarrow> 'r"
  rSETNX :: "string \<Rightarrow> rval \<Rightarrow> int \<Rightarrow> 'r \<Rightarrow> bool \<times> 'r"
  rINCRBY :: "string \<Rightarrow> int \<Rightarrow> 'r \<Rightarrow> int option \<times> 'r"
  rHINCRBY :: "string \<Rightarrow> string \<Rightarrow> int \<Rightarrow> 'r \<Rightarrow> int option \<times> 'r"
  rPEXPIRE :: "string \<Rightarrow> int \<Rightarrow> 'r \<Rightarrow> 'r"
  rDEL :: "string \<Rightarrow> 'r \<Rightarrow> 'r"
  rTICK :: "int \<Rightarrow> 'r \<Rightarrow> 'r"

text \<open>Lua's \<open>tonumber\<close> of a field that may be absent.\<close>

definition tonumber :: "rval option \<Rightarrow> rat option" where
  "tonumber v = (case v of Some (RNum q) \<Rightarrow> Some q | _ \<Rightarrow> None)"

lemma tonumber_simps [simp]: "tonumber (Some (RNum q)) = Some q" "tonumber None = None"
  by (simp_all add: tonumber_def)

text \<open>
  A call over the network: delivered and answered, lost before it ran, or run with its
  reply lost (a timeout of the caller's context). The caller sees an error in the last two.
\<close>

datatype rpc = Delivered | Lost | ReplyLost

definition rcall :: "rpc \<Rightarrow> ('r \<Rightarrow> 'a option \<times> 'r) \<Rightarrow> 'r \<Rightarrow> 'a option \<times> 'r" where
  "rcall d script r =
     (case d of Delivered \<Rightarrow> script r | Lost \<Rightarrow> (None, r) | ReplyLost \<Rightarrow> (None, snd (script r)))"

lemma rcall_simps [simp]:
  "rcall Delivered script r = script r"
  "rcall Lost script r = (None, r)"
  "rcall ReplyLost script r = (None, snd (script r))"
  by (simp_all add: rcall_def)

definition in_i64 :: "int \<Rightarrow> bool" where
  "in_i64 n \<longleftrightarrow> - (2 ^ 63) \<le> n \<and> n < 2 ^ 63"

section \<open>What the sources rely on\<close>

locale redis_server =
  fixes R :: "'r redis_api"
  assumes exists_iff: "rEXISTS R r k \<longleftrightarrow> rGET R r k \<noteq> None \<or> (\<exists>f. rHGET R r k f \<noteq> None)"
    and time_hset: "rTIME R (rHSET R k fvs r) = rTIME R r"
    and hget_hset: "rGET R r k = None \<Longrightarrow> distinct (map fst fvs) \<Longrightarrow>
      rHGET R (rHSET R k fvs r) k' f =
        (if k' = k \<and> map_of fvs f \<noteq> None then map_of fvs f else rHGET R r k' f)"
    and get_hset: "rGET R r k = None \<Longrightarrow> rGET R (rHSET R k fvs r) k' = rGET R r k'"
    and time_pexpire: "rTIME R (rPEXPIRE R k ms r) = rTIME R r"
    and hget_pexpire: "0 < ms \<Longrightarrow> rHGET R (rPEXPIRE R k ms r) k' f = rHGET R r k' f"
    and get_pexpire: "0 < ms \<Longrightarrow> rGET R (rPEXPIRE R k ms r) k' = rGET R r k'"
    and life_pexpire: "0 < ms \<Longrightarrow> rEXISTS R r k \<Longrightarrow>
      rLIFE R (rPEXPIRE R k ms r) k' = (if k' = k then Some (ms * 1000) else rLIFE R r k')"
    and get_set: "rGET R (rSET R k v r) k' = (if k' = k then Some v else rGET R r k')"
    and time_del: "rTIME R (rDEL R k r) = rTIME R r"
    and hget_del: "rHGET R (rDEL R k r) k' f = (if k' = k then None else rHGET R r k' f)"
    and get_del: "rGET R (rDEL R k r) k' = (if k' = k then None else rGET R r k')"
    and life_del: "k' \<noteq> k \<Longrightarrow> rLIFE R (rDEL R k r) k' = rLIFE R r k'"
    and incrby_missing: "\<not> rEXISTS R r k \<Longrightarrow> in_i64 d \<Longrightarrow> fst (rINCRBY R k d r) = Some d"
    and incrby_number: "rGET R r k = Some (RNum (of_int n)) \<Longrightarrow> in_i64 (n + d) \<Longrightarrow>
      fst (rINCRBY R k d r) = Some (n + d)"
    and incrby_overflow: "rGET R r k = Some (RNum (of_int n)) \<Longrightarrow> \<not> in_i64 (n + d) \<Longrightarrow>
      fst (rINCRBY R k d r) = None"
    and incrby_stored: "fst (rINCRBY R k d r) = Some n \<Longrightarrow>
      rGET R (snd (rINCRBY R k d r)) k' = (if k' = k then Some (RNum (of_int n)) else rGET R r k')"
    and incrby_hget: "rHGET R (snd (rINCRBY R k d r)) = rHGET R r"
    and incrby_life: "rEXISTS R r k \<Longrightarrow> rLIFE R (snd (rINCRBY R k d r)) k = rLIFE R r k"
    and incrby_failed: "fst (rINCRBY R k d r) = None \<Longrightarrow> snd (rINCRBY R k d r) = r"
    and time_incrby: "rTIME R (snd (rINCRBY R k d r)) = rTIME R r"
    and hincrby_number: "rGET R r k = None \<Longrightarrow>
      rHGET R r k f = Some (RNum (of_int n)) \<Longrightarrow> in_i64 (n + d) \<Longrightarrow>
      fst (rHINCRBY R k f d r) = Some (n + d)"
    and hincrby_stored: "fst (rHINCRBY R k f d r) = Some n \<Longrightarrow>
      rHGET R (snd (rHINCRBY R k f d r)) k' f' =
        (if k' = k \<and> f' = f then Some (RNum (of_int n)) else rHGET R r k' f')"
    and hincrby_get: "rGET R (snd (rHINCRBY R k f d r)) = rGET R r"
    and time_hincrby: "rTIME R (snd (rHINCRBY R k f d r)) = rTIME R r"
    and setnx_taken: "rEXISTS R r k \<Longrightarrow> rSETNX R k v ms r = (False, r)"
    and setnx_free: "\<not> rEXISTS R r k \<Longrightarrow> fst (rSETNX R k v ms r)"
    and setnx_get: "\<not> rEXISTS R r k \<Longrightarrow> 0 < ms \<Longrightarrow>
      rGET R (snd (rSETNX R k v ms r)) k' = (if k' = k then Some v else rGET R r k')"
    and setnx_hget: "rHGET R (snd (rSETNX R k v ms r)) = rHGET R r"
    and setnx_life: "\<not> rEXISTS R r k \<Longrightarrow> 0 < ms \<Longrightarrow>
      rLIFE R (snd (rSETNX R k v ms r)) k = Some (ms * 1000)"
    and time_setnx: "rTIME R (snd (rSETNX R k v ms r)) = rTIME R r"
    and time_tick: "rTIME R (rTICK R d r) = rTIME R r + d"
    and hget_tick: "0 \<le> d \<Longrightarrow>
      rHGET R (rTICK R d r) k f =
        (if rLIFE R r k = None \<or> d < the (rLIFE R r k) then rHGET R r k f else None)"
    and get_tick: "0 \<le> d \<Longrightarrow>
      rGET R (rTICK R d r) k =
        (if rLIFE R r k = None \<or> d < the (rLIFE R r k) then rGET R r k else None)"
    and life_tick: "0 \<le> d \<Longrightarrow> rLIFE R r k = None \<or> d < the (rLIFE R r k) \<Longrightarrow>
      rLIFE R (rTICK R d r) k = map_option (\<lambda>l. l - d) (rLIFE R r k)"
begin

lemmas clock_laws [redis_simps] =
  time_hset time_pexpire time_del time_incrby time_hincrby time_setnx time_tick

lemmas keyspace_laws [redis_simps] =
  hget_hset get_hset hget_pexpire get_pexpire hget_del get_del incrby_hget hincrby_get setnx_hget

lemma exists_hset:
  assumes "rGET R r k = None" "distinct (map fst fvs)" "map_of fvs f = Some v"
  shows "rEXISTS R (rHSET R k fvs r) k"
  using assms by (metis exists_iff hget_hset option.distinct(1))

lemma exists_del: "rEXISTS R (rDEL R k r) k' \<longleftrightarrow> k' \<noteq> k \<and> rEXISTS R r k'"
  by (simp add: exists_iff hget_del get_del)

lemma hget_absent: "\<not> rEXISTS R r k \<Longrightarrow> rHGET R r k f = None"
  by (simp add: exists_iff)

lemma get_absent: "\<not> rEXISTS R r k \<Longrightarrow> rGET R r k = None"
  by (simp add: exists_iff)

lemma exists_pexpire: "0 < ms \<Longrightarrow> rEXISTS R (rPEXPIRE R k ms r) k' = rEXISTS R r k'"
  by (simp add: exists_iff hget_pexpire get_pexpire)

lemma exists_tick:
  "0 \<le> d \<Longrightarrow> rEXISTS R (rTICK R d r) k \<longleftrightarrow>
     (rLIFE R r k = None \<or> d < the (rLIFE R r k)) \<and> rEXISTS R r k"
  by (simp add: exists_iff hget_tick get_tick)

end

section \<open>A server in memory\<close>

record mem =
  mem_now :: int
  mem_hash :: "string \<Rightarrow> (string \<times> rval) list"
  mem_str :: "string \<Rightarrow> rval option"
  mem_exp :: "string \<Rightarrow> int option"

definition empty_mem :: mem where
  "empty_mem = \<lparr>mem_now = 0, mem_hash = (\<lambda>_. []), mem_str = (\<lambda>_. None), mem_exp = (\<lambda>_. None)\<rparr>"

definition alive :: "mem \<Rightarrow> string \<Rightarrow> bool" where
  "alive m k = (case mem_exp m k of None \<Rightarrow> True | Some t \<Rightarrow> mem_now m < t)"

definition clear_key :: "string \<Rightarrow> mem \<Rightarrow> mem" where
  "clear_key k m = m\<lparr>mem_hash := (mem_hash m)(k := []), mem_str := (mem_str m)(k := None),
     mem_exp := (mem_exp m)(k := None)\<rparr>"

definition purge :: "string \<Rightarrow> mem \<Rightarrow> mem" where
  "purge k m = (if alive m k then m else clear_key k m)"

definition mem_get :: "mem \<Rightarrow> string \<Rightarrow> rval option" where
  "mem_get m k = (if alive m k then mem_str m k else None)"

definition mem_hget :: "mem \<Rightarrow> string \<Rightarrow> string \<Rightarrow> rval option" where
  "mem_hget m k f = (if alive m k then map_of (mem_hash m k) f else None)"

definition mem_exists :: "mem \<Rightarrow> string \<Rightarrow> bool" where
  "mem_exists m k = (alive m k \<and> (mem_str m k \<noteq> None \<or> mem_hash m k \<noteq> []))"

definition mem_life :: "mem \<Rightarrow> string \<Rightarrow> int option" where
  "mem_life m k = map_option (\<lambda>t. t - mem_now m) (mem_exp m k)"

definition mem_hset :: "string \<Rightarrow> (string \<times> rval) list \<Rightarrow> mem \<Rightarrow> mem" where
  "mem_hset k fvs m = (let m' = purge k m in
     m'\<lparr>mem_hash := (mem_hash m')(k := fvs @ mem_hash m' k)\<rparr>)"

definition mem_put :: "string \<Rightarrow> rval \<Rightarrow> mem \<Rightarrow> mem" where
  "mem_put k v m = (let m' = purge k m in m'\<lparr>mem_str := (mem_str m')(k := Some v)\<rparr>)"

definition mem_set :: "string \<Rightarrow> rval \<Rightarrow> mem \<Rightarrow> mem" where
  "mem_set k v m = mem_put k v (clear_key k m)"

definition mem_pexpire :: "string \<Rightarrow> int \<Rightarrow> mem \<Rightarrow> mem" where
  "mem_pexpire k ms m =
     (if ms \<le> 0 then clear_key k m
      else if mem_exists m k then m\<lparr>mem_exp := (mem_exp m)(k := Some (mem_now m + ms * 1000))\<rparr>
      else m)"

definition mem_setnx :: "string \<Rightarrow> rval \<Rightarrow> int \<Rightarrow> mem \<Rightarrow> bool \<times> mem" where
  "mem_setnx k v ms m =
     (if mem_exists m k then (False, m) else (True, mem_pexpire k ms (mem_put k v m)))"

definition integral :: "rval \<Rightarrow> int option" where
  "integral v = (case v of RNum q \<Rightarrow> (if of_int \<lfloor>q\<rfloor> = q then Some \<lfloor>q\<rfloor> else None) | RStr _ \<Rightarrow> None)"

definition add_checked :: "rval option \<Rightarrow> int \<Rightarrow> int option" where
  "add_checked v d =
     (case (case v of None \<Rightarrow> Some 0 | Some w \<Rightarrow> integral w) of
        None \<Rightarrow> None
      | Some n \<Rightarrow> if in_i64 (n + d) then Some (n + d) else None)"

definition mem_incrby :: "string \<Rightarrow> int \<Rightarrow> mem \<Rightarrow> int option \<times> mem" where
  "mem_incrby k d m =
     (if mem_get m k = None \<and> mem_exists m k then (None, m)
      else case add_checked (mem_get m k) d of
        None \<Rightarrow> (None, m)
      | Some n \<Rightarrow> (Some n, mem_put k (RNum (of_int n)) m))"

definition mem_hincrby :: "string \<Rightarrow> string \<Rightarrow> int \<Rightarrow> mem \<Rightarrow> int option \<times> mem" where
  "mem_hincrby k f d m =
     (if mem_get m k \<noteq> None then (None, m)
      else case add_checked (mem_hget m k f) d of
        None \<Rightarrow> (None, m)
      | Some n \<Rightarrow> (Some n, mem_hset k [(f, RNum (of_int n))] m))"

definition mem_tick :: "int \<Rightarrow> mem \<Rightarrow> mem" where
  "mem_tick d m = m\<lparr>mem_now := mem_now m + d\<rparr>"

definition mem_redis :: "mem redis_api" where
  "mem_redis = \<lparr>rTIME = mem_now, rHGET = mem_hget, rGET = mem_get, rEXISTS = mem_exists,
     rLIFE = mem_life, rHSET = mem_hset, rSET = mem_set, rSETNX = mem_setnx, rINCRBY = mem_incrby,
     rHINCRBY = mem_hincrby, rPEXPIRE = mem_pexpire, rDEL = clear_key, rTICK = mem_tick\<rparr>"

lemmas mem_defs =
  mem_redis_def alive_def clear_key_def purge_def mem_get_def mem_hget_def mem_exists_def
  mem_life_def mem_hset_def mem_put_def mem_set_def mem_pexpire_def mem_setnx_def
  integral_def add_checked_def mem_incrby_def mem_hincrby_def mem_tick_def Let_def

lemma map_of_neq_None: "(\<exists>f v. map_of xs f = Some v) \<longleftrightarrow> xs \<noteq> []"
  by (cases xs) auto

interpretation mem: redis_server mem_redis
proof (unfold_locales, goal_cases)
  case (1 r k)
  then show ?case by (auto simp: mem_defs map_of_neq_None split: option.splits)
qed (auto simp: mem_defs fun_eq_iff map_add_def option.map_comp o_def diff_diff_eq
    split: option.splits if_splits)

lemma empty_time: "rTIME mem_redis empty_mem = 0"
  by (simp add: mem_redis_def empty_mem_def)

end
