(* ===== verification/RateLimit.thy ===== *)
theory RateLimit
  imports Redis
begin

text \<open>
  The token bucket of \<open>internal/ratelimit/bucket.go\<close>: the two Lua scripts that are its whole
  state machine, and the Go wrappers \<open>Consume\<close>, \<open>Reserve\<close> and \<open>Reconcile\<close>. A bucket is a
  Redis hash with the fields \<open>tokens\<close> and \<open>ts\<close>. Lua's numbers are rationals here, and a
  number written with \<open>tostring\<close> is read back unchanged.
\<close>

section \<open>Keys, scripts and results\<close>

datatype LimitType = RPM | TPM

fun LimitType_name :: "LimitType \<Rightarrow> string" where
  "LimitType_name RPM = ''rpm''"
| "LimitType_name TPM = ''tpm''"

definition bucketKey :: "string \<Rightarrow> LimitType \<Rightarrow> string" where
  "bucketKey teamID kind = ''switchyard:rl'' @ '':'' @ teamID @ '':'' @ LimitType_name kind"

record RlResult =
  rl_Allowed :: bool
  rl_Remaining :: rat
  rl_RetryAfter :: duration

definition zero_RlResult :: RlResult where
  "zero_RlResult = \<lparr>rl_Allowed = False, rl_Remaining = 0, rl_RetryAfter = 0\<rparr>"

text \<open>The part both scripts start with: read the bucket and refill it lazily.\<close>

definition bucket_now :: "'r redis_api \<Rightarrow> 'r \<Rightarrow> rat" where
  "bucket_now R r = of_int (rTIME R r) / 1000000"

definition bucket_read :: "'r redis_api \<Rightarrow> string \<Rightarrow> rat \<Rightarrow> 'r \<Rightarrow> (rat \<times> rat) option" where
  "bucket_read R key capacity r =
     (case tonumber (rHGET R r key ''tokens'') of
        None \<Rightarrow> Some (capacity, bucket_now R r)
      | Some tokens \<Rightarrow> map_option (Pair tokens) (tonumber (rHGET R r key ''ts'')))"

definition bucket_refill :: "rat \<Rightarrow> rat \<Rightarrow> rat \<Rightarrow> rat \<Rightarrow> rat \<Rightarrow> rat" where
  "bucket_refill capacity refill_per_sec now tokens ts =
     (let elapsed = now - ts
      in if elapsed > 0 then min capacity (tokens + elapsed * refill_per_sec) else tokens)"

definition bucket_write :: "'r redis_api \<Rightarrow> string \<Rightarrow> rat \<Rightarrow> rat \<Rightarrow> int \<Rightarrow> 'r \<Rightarrow> 'r" where
  "bucket_write R key tokens now ttl_ms r =
     rPEXPIRE R key ttl_ms (rHSET R key [(''tokens'', RNum tokens), (''ts'', RNum now)] r)"

definition consumeScript ::
  "'r redis_api \<Rightarrow> string \<Rightarrow> rat \<Rightarrow> rat \<Rightarrow> rat \<Rightarrow> int \<Rightarrow> 'r \<Rightarrow> (int \<times> rat \<times> rat) option \<times> 'r" where
  "consumeScript R key capacity refill_per_sec requested ttl_ms r =
     (let now = bucket_now R r in
      case bucket_read R key capacity r of
        None \<Rightarrow> (None, r)
      | Some (stored, ts) \<Rightarrow>
          (let tokens = bucket_refill capacity refill_per_sec now stored ts in
           if tokens \<ge> requested
           then (Some (1, tokens - requested, 0), bucket_write R key (tokens - requested) now ttl_ms r)
           else (Some (0, tokens, (requested - tokens) / refill_per_sec),
                 bucket_write R key tokens now ttl_ms r)))"

definition settleScript ::
  "'r redis_api \<Rightarrow> string \<Rightarrow> rat \<Rightarrow> rat \<Rightarrow> rat \<Rightarrow> int \<Rightarrow> 'r \<Rightarrow> rat option \<times> 'r" where
  "settleScript R key capacity refill_per_sec delta ttl_ms r =
     (let now = bucket_now R r in
      case bucket_read R key capacity r of
        None \<Rightarrow> (None, r)
      | Some (stored, ts) \<Rightarrow>
          (let tokens = min capacity (bucket_refill capacity refill_per_sec now stored ts + delta)
           in (Some tokens, bucket_write R key tokens now ttl_ms r)))"

section \<open>The limiter\<close>

datatype RlError = BadCapacity int | BadAmount int | BadTTL duration | ScriptFailed | BadUsage int

definition milliseconds :: "duration \<Rightarrow> int" where
  "milliseconds d = tdiv d millisecond"

definition Consume ::
  "'r redis_api \<Rightarrow> rpc \<Rightarrow> string \<Rightarrow> LimitType \<Rightarrow> int \<Rightarrow> int \<Rightarrow> duration \<Rightarrow> 'r \<Rightarrow>
   (RlError + RlResult) \<times> 'r" where
  "Consume R d teamID kind capacityPerMinute amount ttl r =
     (if capacityPerMinute \<le> 0 then (Inl (BadCapacity capacityPerMinute), r)
      else if amount \<le> 0 then (Inl (BadAmount amount), r)
      else if ttl \<le> 0 then (Inl (BadTTL ttl), r)
      else
        (let refillPerSecond = of_int capacityPerMinute / 60 in
         case rcall d (consumeScript R (bucketKey teamID kind) (of_int capacityPerMinute)
                refillPerSecond (of_int amount) (milliseconds ttl)) r of
           (None, r') \<Rightarrow> (Inl ScriptFailed, r')
         | (Some (allowed, remaining, retryAfter), r') \<Rightarrow>
             (Inr \<lparr>rl_Allowed = (allowed = 1), rl_Remaining = remaining,
                   rl_RetryAfter = rtrunc (retryAfter * of_int second)\<rparr>, r')))"

text \<open>A handle on tokens already taken; \<^term>\<open>None\<close> is Go's nil reservation.\<close>

record Reservation =
  rsv_teamID :: string
  rsv_kind :: LimitType
  rsv_capacity :: int
  rsv_reserved :: int
  rsv_ttl :: duration

definition Reserve ::
  "'r redis_api \<Rightarrow> rpc \<Rightarrow> string \<Rightarrow> LimitType \<Rightarrow> int \<Rightarrow> int \<Rightarrow> duration \<Rightarrow> 'r \<Rightarrow>
   Reservation option \<times> (RlError + RlResult) \<times> 'r" where
  "Reserve R d teamID kind capacityPerMinute amount ttl r =
     (case Consume R d teamID kind capacityPerMinute amount ttl r of
        (Inl e, r') \<Rightarrow> (None, Inl e, r')
      | (Inr res, r') \<Rightarrow>
          (if \<not> rl_Allowed res then (None, Inr res, r')
           else (Some \<lparr>rsv_teamID = teamID, rsv_kind = kind, rsv_capacity = capacityPerMinute,
                       rsv_reserved = amount, rsv_ttl = ttl\<rparr>, Inr res, r')))"

definition Reconcile ::
  "'r redis_api \<Rightarrow> rpc \<Rightarrow> Reservation option \<Rightarrow> int \<Rightarrow> 'r \<Rightarrow> RlError option \<times> 'r" where
  "Reconcile R d rsv actual r =
     (case rsv of
        None \<Rightarrow> (None, r)
      | Some v \<Rightarrow>
          (if actual < 0 then (Some (BadUsage actual), r)
           else (let delta = i64 (rsv_reserved v - actual) in
             if delta = 0 then (None, r)
             else (let refillPerSecond = of_int (rsv_capacity v) / 60 in
               case rcall d (settleScript R (bucketKey (rsv_teamID v) (rsv_kind v))
                      (of_int (rsv_capacity v)) refillPerSecond (of_int delta)
                      (milliseconds (rsv_ttl v))) r of
                 (None, r') \<Rightarrow> (Some ScriptFailed, r')
               | (Some _, r') \<Rightarrow> (None, r')))))"

definition Reserved :: "Reservation option \<Rightarrow> int" where
  "Reserved rsv = (case rsv of None \<Rightarrow> 0 | Some v \<Rightarrow> rsv_reserved v)"

text \<open>The idle lifetime \<open>internal/proxy/ratelimit.go\<close> gives every bucket.\<close>

definition bucketTTL :: duration where
  "bucketTTL = 2 * minute"

section \<open>The ideal bucket\<close>

text \<open>
  What the bucket promises: a level between zero and the capacity that rises by a sixtieth
  of the capacity every second, and from which a request takes its amount or nothing.
\<close>

definition ideal_tick :: "rat \<Rightarrow> rat \<Rightarrow> rat \<Rightarrow> rat" where
  "ideal_tick c secs x = min c (x + secs * (c / 60))"

definition ideal_take :: "rat \<Rightarrow> rat \<Rightarrow> bool \<times> rat" where
  "ideal_take n x = (if n \<le> x then (True, x - n) else (False, x))"

text \<open>The level a stored bucket stands for, refilled up to the server's present instant.\<close>

definition level :: "'r redis_api \<Rightarrow> string \<Rightarrow> int \<Rightarrow> 'r \<Rightarrow> rat" where
  "level R key cap r =
     (case bucket_read R key (of_int cap) r of
        None \<Rightarrow> of_int cap
      | Some (t, ts) \<Rightarrow> bucket_refill (of_int cap) (of_int cap / 60) (bucket_now R r) t ts)"

text \<open>
  A well-formed bucket is absent, or holds a balance not above the capacity, a time stamp
  not in the future, and an expiry exactly \<open>ms\<close> milliseconds after that time stamp.
\<close>

definition bucket_wf :: "'r redis_api \<Rightarrow> string \<Rightarrow> int \<Rightarrow> int \<Rightarrow> 'r \<Rightarrow> bool" where
  "bucket_wf R key cap ms r \<longleftrightarrow>
     rGET R r key = None \<and>
     (tonumber (rHGET R r key ''tokens'') = None \<or>
      (\<exists>t ts l. rHGET R r key ''tokens'' = Some (RNum t) \<and> rHGET R r key ''ts'' = Some (RNum ts) \<and>
         t \<le> of_int cap \<and> ts \<le> bucket_now R r \<and> rLIFE R r key = Some l \<and>
         of_int l / 1000000 + (bucket_now R r - ts) = of_int ms / 1000))"

text \<open>A debt is a negative balance; only a settlement can cause one.\<close>

definition debt_free :: "'r redis_api \<Rightarrow> string \<Rightarrow> 'r \<Rightarrow> bool" where
  "debt_free R key r \<longleftrightarrow> (\<forall>t. rHGET R r key ''tokens'' = Some (RNum t) \<longrightarrow> 0 \<le> t)"

lemma bucket_refill_at [simp]: "bucket_refill c q now t now = t"
  by (simp add: bucket_refill_def)

lemma bucket_refill_le:
  "t \<le> c \<Longrightarrow> bucket_refill c q now t ts \<le> c"
  by (simp add: bucket_refill_def Let_def)

lemma bucket_refill_full:
  "t \<le> c \<Longrightarrow> ts \<le> now \<Longrightarrow> c \<le> t + (now - ts) * q \<Longrightarrow> bucket_refill c q now t ts = c"
  by (cases "ts = now") (simp_all add: bucket_refill_def Let_def)

lemma bucket_refill_later:
  fixes c :: rat
  assumes "0 \<le> c" "t \<le> c" "ts \<le> now" "0 \<le> e"
  shows "bucket_refill c (c / 60) (now + e) t ts = ideal_tick c e (bucket_refill c (c / 60) now t ts)"
proof (cases "ts = now")
  case True
  then show ?thesis using assms by (cases "e = 0") (auto simp: bucket_refill_def ideal_tick_def Let_def)
next
  case False
  then have "ts < now" using assms by simp
  have split: "t + (now + e - ts) * (c / 60) = (t + (now - ts) * (c / 60)) + e * (c / 60)"
    by (simp add: ring_distribs add_divide_distrib diff_divide_distrib)
  have "0 \<le> e * (c / 60)" using assms by simp
  then have "min c (t + (now + e - ts) * (c / 60)) = min c (min c (t + (now - ts) * (c / 60)) + e * (c / 60))"
    unfolding split by (simp add: min_def)
  then show ?thesis using assms \<open>ts < now\<close> by (simp add: bucket_refill_def ideal_tick_def)
qed

context redis_server
begin

lemma bucket_now_write [simp]: "bucket_now R (bucket_write R key t now ms r) = bucket_now R r"
  by (simp add: bucket_now_def bucket_write_def clock_laws)

lemma hget_write:
  assumes "rGET R r key = None" "0 < ms"
  shows "rHGET R (bucket_write R key t now ms r) key ''tokens'' = Some (RNum t)"
    and "rHGET R (bucket_write R key t now ms r) key ''ts'' = Some (RNum now)"
    and "rGET R (bucket_write R key t now ms r) key = None"
  using assms by (simp_all add: bucket_write_def keyspace_laws)

lemma life_write:
  assumes "rGET R r key = None" "0 < ms"
  shows "rLIFE R (bucket_write R key t now ms r) key = Some (ms * 1000)"
proof -
  have "rEXISTS R (rHSET R key [(''tokens'', RNum t), (''ts'', RNum now)] r) key"
    using assms by (rule_tac exists_hset [where f = "''ts''"]) simp_all
  then show ?thesis using assms by (simp add: bucket_write_def life_pexpire)
qed

lemma level_write:
  assumes "rGET R r key = None" "0 < ms"
  shows "level R key cap (bucket_write R key t (bucket_now R r) ms r) = t"
  using assms by (simp add: level_def bucket_read_def hget_write)

lemma wf_write:
  assumes "rGET R r key = None" "0 < ms" "t \<le> of_int cap"
  shows "bucket_wf R key cap ms (bucket_write R key t (bucket_now R r) ms r)"
  using assms by (simp add: bucket_wf_def hget_write life_write)

lemma debt_free_write:
  "rGET R r key = None \<Longrightarrow> 0 < ms \<Longrightarrow> debt_free R key (bucket_write R key t now ms r) \<longleftrightarrow> 0 \<le> t"
  by (simp add: debt_free_def hget_write)

lemma wf_read:
  assumes "bucket_wf R key cap ms r"
  obtains t ts where "bucket_read R key (of_int cap) r = Some (t, ts)" "t \<le> of_int cap"
    "level R key cap r = bucket_refill (of_int cap) (of_int cap / 60) (bucket_now R r) t ts"
proof (cases "tonumber (rHGET R r key ''tokens'')")
  case None
  then show ?thesis using that by (simp add: bucket_read_def level_def)
next
  case (Some a)
  then show ?thesis using assms that by (fastforce simp: bucket_wf_def bucket_read_def level_def)
qed

lemma level_le: "bucket_wf R key cap ms r \<Longrightarrow> level R key cap r \<le> of_int cap"
  by (elim wf_read) (simp add: bucket_refill_le)

lemma level_nonneg:
  assumes "0 \<le> cap" "bucket_wf R key cap ms r" "debt_free R key r"
  shows "0 \<le> level R key cap r"
proof (cases "tonumber (rHGET R r key ''tokens'')")
  case None
  then show ?thesis using assms by (simp add: level_def bucket_read_def)
next
  case (Some a)
  then obtain t ts where "rHGET R r key ''tokens'' = Some (RNum t)" "rHGET R r key ''ts'' = Some (RNum ts)"
    "ts \<le> bucket_now R r" using assms by (auto simp: bucket_wf_def)
  moreover from this have "0 \<le> t" using assms by (simp add: debt_free_def)
  ultimately show ?thesis using assms
    by (simp add: level_def bucket_read_def bucket_refill_def Let_def)
qed

lemma consumeScript_take:
  assumes "bucket_wf R key cap ms r" "0 < ms"
  shows "consumeScript R key (of_int cap) (of_int cap / 60) n ms r =
    (let x = level R key cap r; (ok, x') = ideal_take n x in
     (Some (if ok then 1 else 0, x', if ok then 0 else (n - x) / (of_int cap / 60)),
      bucket_write R key x' (bucket_now R r) ms r))"
  using assms(1) by (elim wf_read) (simp add: consumeScript_def ideal_take_def Let_def)

lemma settleScript_add:
  assumes "bucket_wf R key cap ms r" "0 < ms"
  shows "settleScript R key (of_int cap) (of_int cap / 60) n ms r =
    (Some (min (of_int cap) (level R key cap r + n)),
     bucket_write R key (min (of_int cap) (level R key cap r + n)) (bucket_now R r) ms r)"
  using assms(1) by (elim wf_read) (simp add: settleScript_def Let_def)

lemma wf_no_string: "bucket_wf R key cap ms r \<Longrightarrow> rGET R r key = None"
  by (simp add: bucket_wf_def)

lemma bucket_now_tick: "bucket_now R (rTICK R d r) = bucket_now R r + of_int d / 1000000"
  by (simp add: bucket_now_def time_tick add_divide_distrib)

text \<open>
  Time alone moves the level exactly as the ideal bucket says, the expiry of the key
  included: a bucket that lives a minute or longer has refilled before it expires.
\<close>

lemma expired_is_full:
  assumes "0 \<le> cap" "0 \<le> t" "60000 \<le> ms" "of_int l / 1000000 + age = of_int ms / (1000::rat)" "l \<le> d"
  shows "(of_int cap :: rat) \<le> t + (age + of_int d / 1000000) * (of_int cap / 60)"
proof -
  have "(of_int l :: rat) \<le> of_int d" "(60000 :: rat) \<le> of_int ms" using assms by simp_all
  then have "60 \<le> age + of_int d / 1000000" using assms by (simp add: field_simps)
  then have "60 * (of_int cap / 60) \<le> (age + of_int d / 1000000) * ((of_int cap :: rat) / 60)"
    using assms by (intro mult_right_mono) simp_all
  then show ?thesis using assms(2) by linarith
qed

lemma level_tick:
  assumes "0 \<le> cap" "0 \<le> d" "60000 \<le> ms" "bucket_wf R key cap ms r" "debt_free R key r"
  shows "level R key cap (rTICK R d r) = ideal_tick (of_int cap) (of_int d / 1000000) (level R key cap r)"
proof (cases "tonumber (rHGET R r key ''tokens'')")
  case None
  then have "tonumber (rHGET R (rTICK R d r) key ''tokens'') = None" using assms by (simp add: hget_tick)
  then show ?thesis using None assms by (simp add: level_def bucket_read_def ideal_tick_def)
next
  case (Some a)
  then obtain t ts l where b: "rHGET R r key ''tokens'' = Some (RNum t)" "rHGET R r key ''ts'' = Some (RNum ts)"
      "t \<le> of_int cap" "ts \<le> bucket_now R r" "rLIFE R r key = Some l"
      "of_int l / 1000000 + (bucket_now R r - ts) = of_int ms / 1000"
    using assms by (auto simp: bucket_wf_def)
  have t: "0 \<le> t" using b assms by (simp add: debt_free_def)
  have refill: "bucket_refill (of_int cap) (of_int cap / 60) (bucket_now R r + of_int d / 1000000) t ts =
      ideal_tick (of_int cap) (of_int d / 1000000) (level R key cap r)"
    using b assms by (simp add: bucket_refill_later level_def bucket_read_def)
  show ?thesis
  proof (cases "d < l")
    case True
    then show ?thesis using b assms refill
      by (simp add: level_def [of R key cap "rTICK R d r"] bucket_read_def hget_tick bucket_now_tick)
  next
    case False
    then have "of_int cap \<le> t + (bucket_now R r + of_int d / 1000000 - ts) * (of_int cap / 60)"
      using expired_is_full [OF _ t _ b(6)] assms by (simp add: add_diff_eq diff_add_eq)
    then have "ideal_tick (of_int cap) (of_int d / 1000000) (level R key cap r) = of_int cap"
      using b assms by (simp only: refill [symmetric]) (simp add: bucket_refill_full add_increasing2)
    then show ?thesis using b assms False
      by (simp add: level_def [of R key cap "rTICK R d r"] bucket_read_def hget_tick)
  qed
qed

lemma wf_tick:
  assumes "0 \<le> d" "bucket_wf R key cap ms r"
  shows "bucket_wf R key cap ms (rTICK R d r)"
proof (cases "tonumber (rHGET R r key ''tokens'') = None \<or> (\<exists>l. rLIFE R r key = Some l \<and> l \<le> d)")
  case True
  then show ?thesis using assms by (auto simp: bucket_wf_def hget_tick get_tick)
next
  case False
  then obtain t ts l where b: "rHGET R r key ''tokens'' = Some (RNum t)" "rHGET R r key ''ts'' = Some (RNum ts)"
      "t \<le> of_int cap" "ts \<le> bucket_now R r" "rLIFE R r key = Some l" "rGET R r key = None"
      "of_int l / 1000000 + (bucket_now R r - ts) = of_int ms / 1000" "d < l"
    using assms by (fastforce simp: bucket_wf_def)
  have "0 \<le> (of_int d :: rat) / 1000000" using assms by simp
  then show ?thesis using b assms
    by (simp add: bucket_wf_def hget_tick get_tick life_tick bucket_now_tick diff_divide_distrib)
qed

lemma debt_free_tick: "0 \<le> d \<Longrightarrow> debt_free R key r \<Longrightarrow> debt_free R key (rTICK R d r)"
  by (simp add: debt_free_def hget_tick)

end

section \<open>The limiter on a well-formed bucket\<close>

definition bucket_ok :: "'r redis_api \<Rightarrow> string \<Rightarrow> LimitType \<Rightarrow> int \<Rightarrow> duration \<Rightarrow> 'r \<Rightarrow> bool" where
  "bucket_ok R teamID kind cap ttl r \<longleftrightarrow>
     bucket_wf R (bucketKey teamID kind) cap (milliseconds ttl) r \<and> debt_free R (bucketKey teamID kind) r"

text \<open>One admission as the middleware sees it: allowed only by an answer that says so.\<close>

definition admits ::
  "'r redis_api \<Rightarrow> string \<Rightarrow> LimitType \<Rightarrow> int \<Rightarrow> duration \<Rightarrow> rpc \<Rightarrow> int \<Rightarrow> 'r \<Rightarrow> bool \<times> 'r" where
  "admits R teamID kind cap ttl net n r =
     (case Consume R net teamID kind cap n ttl r of
        (Inl _, r') \<Rightarrow> (False, r')
      | (Inr res, r') \<Rightarrow> (rl_Allowed res, r'))"

text \<open>
  A run of requests: for each the microseconds since the last one, the fate of its Redis
  call and its amount. The result is the total amount admitted.
\<close>

fun spend_run ::
  "(int \<Rightarrow> 's \<Rightarrow> 's) \<Rightarrow> (rpc \<Rightarrow> int \<Rightarrow> 's \<Rightarrow> bool \<times> 's) \<Rightarrow> (int \<times> rpc \<times> int) list \<Rightarrow> 's \<Rightarrow> int \<times> 's" where
  "spend_run tick spend [] s = (0, s)"
| "spend_run tick spend ((d, net, n) # es) s =
     (let (ok, s1) = spend net n (tick d s); (k, s2) = spend_run tick spend es s1
      in ((if ok then n else 0) + k, s2))"

text \<open>What a client of the limiter relies on, and the bound on any run that follows.\<close>

locale token_bucket =
  fixes c :: rat and inv :: "'s \<Rightarrow> bool" and lvl :: "'s \<Rightarrow> rat"
    and tick :: "int \<Rightarrow> 's \<Rightarrow> 's" and spend :: "rpc \<Rightarrow> int \<Rightarrow> 's \<Rightarrow> bool \<times> 's"
  assumes cap_nonneg: "0 \<le> c"
    and lvl_range: "inv s \<Longrightarrow> 0 \<le> lvl s \<and> lvl s \<le> c"
    and inv_tick: "inv s \<Longrightarrow> 0 \<le> d \<Longrightarrow> inv (tick d s)"
    and lvl_tick: "inv s \<Longrightarrow> 0 \<le> d \<Longrightarrow> lvl (tick d s) = ideal_tick c (of_int d / 1000000) (lvl s)"
    and inv_spend: "inv s \<Longrightarrow> inv (snd (spend net n s))"
    and lvl_spend: "inv s \<Longrightarrow>
      lvl (snd (spend net n s)) + (if fst (spend net n s) then of_int n else 0) \<le> lvl s"
begin

lemma run_bound:
  assumes "inv s" "\<forall>e \<in> set es. 0 \<le> fst e"
  shows "of_int (fst (spend_run tick spend es s)) \<le>
           lvl s + of_int (sum_list (map fst es)) / 1000000 * (c / 60)"
  using assms
proof (induction es arbitrary: s)
  case Nil
  then show ?case using lvl_range [of s] by simp
next
  case (Cons e es)
  obtain d net n where e: "e = (d, net, n)" by (cases e)
  define s1 where "s1 = snd (spend net n (tick d s))"
  have d: "0 \<le> d" and inv: "inv (tick d s)" "inv s1"
    using Cons.prems by (auto simp: e s1_def inv_tick inv_spend)
  have "of_int (fst (spend_run tick spend es s1)) \<le> lvl s1 + of_int (sum_list (map fst es)) / 1000000 * (c / 60)"
    using Cons.IH [of s1] Cons.prems inv by simp
  moreover have "lvl s1 + (if fst (spend net n (tick d s)) then of_int n else 0) \<le>
      lvl s + of_int d / 1000000 * (c / 60)"
    using lvl_spend [OF inv(1), of net n] lvl_tick [OF Cons.prems(1) d]
    by (simp add: s1_def ideal_tick_def min_def split: if_splits)
  moreover have "of_int (sum_list (map fst (e # es))) / 1000000 * (c / 60) =
      of_int d / 1000000 * (c / 60) + of_int (sum_list (map fst es)) / 1000000 * (c / 60)"
    by (simp add: e add_divide_distrib distrib_right)
  moreover have "(of_int (fst (spend_run tick spend (e # es) s)) :: rat) =
      (if fst (spend net n (tick d s)) then of_int n else 0) + of_int (fst (spend_run tick spend es s1))"
    by (simp add: e s1_def split_beta Let_def)
  ultimately show ?case by linarith
qed

end

locale limiter = redis_server R for R :: "'r redis_api" +
  fixes teamID :: string and kind :: LimitType and cap :: int and ttl :: duration
  assumes cap_pos: "0 < cap" and ttl_minute: "minute \<le> ttl"
begin

lemma ttl_ms: "60000 \<le> milliseconds ttl" "0 < milliseconds ttl"
proof -
  have "minute div millisecond \<le> ttl div millisecond" using ttl_minute by (intro zdiv_mono1) simp_all
  then show "60000 \<le> milliseconds ttl" using ttl_minute by (simp add: milliseconds_def tdiv_nonneg)
  then show "0 < milliseconds ttl" by simp
qed

lemma Consume_delivered:
  assumes "bucket_ok R teamID kind cap ttl r" "0 < n"
  shows "Consume R Delivered teamID kind cap n ttl r =
    (let x = level R (bucketKey teamID kind) cap r; (ok, x') = ideal_take (of_int n) x in
     (Inr \<lparr>rl_Allowed = ok, rl_Remaining = x',
           rl_RetryAfter = (if ok then 0 else rtrunc ((of_int n - x) / (of_int cap / 60) * of_int second))\<rparr>,
      bucket_write R (bucketKey teamID kind) x' (bucket_now R r) (milliseconds ttl) r))"
  using assms ttl_ms cap_pos ttl_minute
  by (simp add: Consume_def bucket_ok_def consumeScript_take [where ms = "milliseconds ttl"]
      ideal_take_def Let_def)

lemma ok_bounds:
  assumes "bucket_ok R teamID kind cap ttl r"
  shows "0 \<le> level R (bucketKey teamID kind) cap r" "level R (bucketKey teamID kind) cap r \<le> of_int cap"
  using assms level_nonneg level_le cap_pos by (auto simp: bucket_ok_def intro: less_imp_le)

lemma ok_write:
  assumes "bucket_ok R teamID kind cap ttl r" "0 \<le> t" "t \<le> of_int cap"
  shows "bucket_ok R teamID kind cap ttl
    (bucket_write R (bucketKey teamID kind) t (bucket_now R r) (milliseconds ttl) r)"
  using assms ttl_ms by (auto simp: bucket_ok_def debt_free_write intro!: wf_write dest: wf_no_string)

lemma lvl_write:
  assumes "bucket_ok R teamID kind cap ttl r"
  shows "level R (bucketKey teamID kind) cap
    (bucket_write R (bucketKey teamID kind) t (bucket_now R r) (milliseconds ttl) r) = t"
  using assms ttl_ms by (auto simp: bucket_ok_def intro: level_write wf_no_string)

lemma ok_tick: "bucket_ok R teamID kind cap ttl r \<Longrightarrow> 0 \<le> d \<Longrightarrow> bucket_ok R teamID kind cap ttl (rTICK R d r)"
  by (simp add: bucket_ok_def wf_tick debt_free_tick)

lemma lvl_after: "bucket_ok R teamID kind cap ttl r \<Longrightarrow> 0 \<le> d \<Longrightarrow>
  level R (bucketKey teamID kind) cap (rTICK R d r) =
    ideal_tick (of_int cap) (of_int d / 1000000) (level R (bucketKey teamID kind) cap r)"
  using ttl_ms cap_pos by (simp add: bucket_ok_def level_tick)

lemma take_range:
  assumes "bucket_ok R teamID kind cap ttl r" "0 < n"
  shows "0 \<le> snd (ideal_take (of_int n) (level R (bucketKey teamID kind) cap r))"
    "snd (ideal_take (of_int n) (level R (bucketKey teamID kind) cap r)) \<le> of_int cap"
  using ok_bounds [OF assms(1)] assms(2) by (auto simp: ideal_take_def)

lemma snd_Consume:
  "snd (Consume R net teamID kind cap n ttl r) =
     (if net = Lost \<or> n \<le> 0 then r else snd (Consume R Delivered teamID kind cap n ttl r))"
  by (cases net) (auto simp: Consume_def Let_def split: prod.splits option.splits)

lemma admits_simps:
  assumes "bucket_ok R teamID kind cap ttl r"
  shows "snd (admits R teamID kind cap ttl net n r) =
      (if net = Lost \<or> n \<le> 0 then r
       else bucket_write R (bucketKey teamID kind)
              (snd (ideal_take (of_int n) (level R (bucketKey teamID kind) cap r)))
              (bucket_now R r) (milliseconds ttl) r)"
    and "fst (admits R teamID kind cap ttl net n r) \<longleftrightarrow>
      net = Delivered \<and> 0 < n \<and> of_int n \<le> level R (bucketKey teamID kind) cap r"
proof -
  have "snd (admits R teamID kind cap ttl net n r) = snd (Consume R net teamID kind cap n ttl r)"
    by (simp add: admits_def split: prod.splits sum.splits)
  then show "snd (admits R teamID kind cap ttl net n r) =
      (if net = Lost \<or> n \<le> 0 then r
       else bucket_write R (bucketKey teamID kind)
              (snd (ideal_take (of_int n) (level R (bucketKey teamID kind) cap r)))
              (bucket_now R r) (milliseconds ttl) r)"
    using assms by (simp add: snd_Consume Consume_delivered Let_def split_beta)
  show "fst (admits R teamID kind cap ttl net n r) \<longleftrightarrow>
      net = Delivered \<and> 0 < n \<and> of_int n \<le> level R (bucketKey teamID kind) cap r"
  proof (cases "net = Delivered \<and> 0 < n")
    case True
    then show ?thesis using assms
      by (simp add: admits_def Consume_delivered Let_def split_beta) (simp add: ideal_take_def)
  next
    case False
    then show ?thesis by (cases net) (auto simp: admits_def Consume_def)
  qed
qed

end

sublocale limiter \<subseteq> bucket: token_bucket "of_int cap" "bucket_ok R teamID kind cap ttl"
  "level R (bucketKey teamID kind) cap" "rTICK R" "admits R teamID kind cap ttl"
proof (unfold_locales, goal_cases)
  case 1
  then show ?case using cap_pos by simp
next
  case (5 s net n)
  then show ?case using take_range by (auto simp: admits_simps intro: ok_write)
next
  case (6 s net n)
  then show ?case by (auto simp: admits_simps lvl_write) (simp_all add: ideal_take_def)
qed (simp_all add: ok_bounds ok_tick lvl_after)

text \<open>The limiter of a team of sixty requests a minute, on the server in memory.\<close>

interpretation acme: limiter mem_redis "''acme''" RPM 60 bucketTTL
  by unfold_locales (simp_all add: bucketTTL_def)

lemma bucketKey_inject: "bucketKey t k = bucketKey t' k' \<longleftrightarrow> t = t' \<and> k = k'"
  by (cases k; cases k') (auto simp: bucketKey_def)

lemma limiterI: "redis_server R \<Longrightarrow> 0 < cap \<Longrightarrow> minute \<le> ttl \<Longrightarrow> limiter R cap ttl"
  by (simp add: limiter_def limiter_axioms_def)

lemma empty_bucket_ok: "bucket_ok mem_redis teamID kind cap ttl empty_mem"
  by (simp add: bucket_ok_def bucket_wf_def debt_free_def empty_mem_def mem_defs)

lemma empty_level: "level mem_redis key cap empty_mem = of_int cap"
  by (simp add: level_def bucket_read_def empty_mem_def mem_defs)

context limiter
begin

lemma lvl_other:
  assumes "bucket_ok R teamID kind cap ttl r" "key \<noteq> bucketKey teamID kind"
  shows "level R key cap' (bucket_write R (bucketKey teamID kind) t now (milliseconds ttl) r) =
    level R key cap' r"
proof -
  have "rGET R r (bucketKey teamID kind) = None" using assms by (simp add: bucket_ok_def bucket_wf_def)
  then have "rHGET R (bucket_write R (bucketKey teamID kind) t now (milliseconds ttl) r) key f = rHGET R r key f" for f
    using assms ttl_ms by (simp add: bucket_write_def keyspace_laws)
  then show ?thesis by (simp add: level_def bucket_read_def cong: option.case_cong)
qed

lemma admitted_run:
  assumes "bucket_ok R teamID kind cap ttl r" "\<forall>e \<in> set es. 0 \<le> fst e"
  shows "of_int (fst (spend_run (rTICK R) (admits R teamID kind cap ttl) es r)) \<le>
           of_int cap + of_int (sum_list (map fst es)) / 1000000 * (of_int cap / 60 :: rat)"
  using bucket.run_bound [OF assms] ok_bounds(2) [OF assms(1)] by linarith

lemma denied_wait:
  assumes ok: "bucket_ok R teamID kind cap ttl r" and n: "0 < n" "n \<le> cap"
    and denied: "of_int n > level R (bucketKey teamID kind) cap r" and d: "0 \<le> d"
  shows "fst (admits R teamID kind cap ttl Delivered n
      (rTICK R d (bucket_write R (bucketKey teamID kind) (level R (bucketKey teamID kind) cap r)
         (bucket_now R r) (milliseconds ttl) r))) \<longleftrightarrow>
    (of_int n - level R (bucketKey teamID kind) cap r) / (of_int cap / 60) \<le> of_int d / 1000000"
proof -
  let ?x = "level R (bucketKey teamID kind) cap r"
  let ?w = "bucket_write R (bucketKey teamID kind) ?x (bucket_now R r) (milliseconds ttl) r"
  have w: "bucket_ok R teamID kind cap ttl ?w" using ok by (rule ok_write) (simp_all add: ok ok_bounds)
  have "fst (admits R teamID kind cap ttl Delivered n (rTICK R d ?w)) \<longleftrightarrow>
      of_int n \<le> ideal_tick (of_int cap) (of_int d / 1000000) ?x"
    using n d w ok by (simp add: admits_simps ok_tick lvl_after lvl_write)
  also have "\<dots> \<longleftrightarrow> of_int n - ?x \<le> of_int d / 1000000 * (of_int cap / 60)"
    using n unfolding ideal_tick_def by (simp only: min.bounded_iff of_int_le_iff simp_thms) linarith
  also have "\<dots> \<longleftrightarrow> (of_int n - ?x) / (of_int cap / 60) \<le> of_int d / 1000000"
    using cap_pos by (simp add: field_simps)
  finally show ?thesis .
qed

lemma Reconcile_delivered:
  assumes "bucket_wf R (bucketKey teamID kind) cap (milliseconds ttl) r"
    and "rsv_teamID v = teamID" "rsv_kind v = kind" "rsv_capacity v = cap" "rsv_ttl v = ttl"
    and "0 \<le> a" "a < 2 ^ 63" "0 \<le> rsv_reserved v" "rsv_reserved v < 2 ^ 63"
  shows "fst (Reconcile R Delivered (Some v) a r) = None"
    "level R (bucketKey teamID kind) cap (snd (Reconcile R Delivered (Some v) a r)) =
      min (of_int cap) (level R (bucketKey teamID kind) cap r + of_int (rsv_reserved v) - of_int a)"
proof -
  have "i64 (rsv_reserved v - a) = rsv_reserved v - a" using assms by (intro i64_id) simp_all
  then show "fst (Reconcile R Delivered (Some v) a r) = None"
    "level R (bucketKey teamID kind) cap (snd (Reconcile R Delivered (Some v) a r)) =
      min (of_int cap) (level R (bucketKey teamID kind) cap r + of_int (rsv_reserved v) - of_int a)"
    using assms level_le [OF assms(1)] ttl_ms
    by (simp_all add: Reconcile_def settleScript_add [where ms = "milliseconds ttl"] level_write
        wf_no_string add_diff_eq Let_def)
qed

lemma Reconcile_writes:
  assumes "bucket_ok R teamID kind cap ttl r" "0 \<le> n" "n < 2 ^ 63" "0 \<le> a" "a < 2 ^ 63" "a \<noteq> n"
  shows "\<exists>t. snd (Reconcile R Delivered (Some \<lparr>rsv_teamID = teamID, rsv_kind = kind, rsv_capacity = cap,
      rsv_reserved = n, rsv_ttl = ttl\<rparr>) a r) = bucket_write R (bucketKey teamID kind) t (bucket_now R r) (milliseconds ttl) r"
proof -
  have "i64 (n - a) = n - a" using assms by (intro i64_id) simp_all
  then show ?thesis using assms ttl_ms
    by (simp add: Reconcile_def settleScript_add [where ms = "milliseconds ttl"] bucket_ok_def Let_def) blast
qed

lemma Reserve_delivered:
  assumes "bucket_ok R teamID kind cap ttl r" "0 < n" "of_int n \<le> level R (bucketKey teamID kind) cap r"
  obtains res where "rl_Allowed res"
    "Reserve R Delivered teamID kind cap n ttl r =
      (Some \<lparr>rsv_teamID = teamID, rsv_kind = kind, rsv_capacity = cap, rsv_reserved = n, rsv_ttl = ttl\<rparr>,
       Inr res, bucket_write R (bucketKey teamID kind) (level R (bucketKey teamID kind) cap r - of_int n)
         (bucket_now R r) (milliseconds ttl) r)"
  using assms that by (fastforce simp: Reserve_def Consume_delivered ideal_take_def Let_def)

end

section \<open>Properties\<close>









text \<open>
  Buckets do not interfere: whatever becomes of the Redis call, a \<open>Consume\<close> for one team
  and limit leaves the level of every other team's and limit's bucket as it was.
\<close>

theorem buckets_isolated:
  assumes "redis_server R" "0 < cap" "minute \<le> ttl" "bucket_ok R teamID kind cap ttl r"
    and "(teamID', kind') \<noteq> (teamID, kind)"
  shows "level R (bucketKey teamID' kind') cap' (snd (Consume R net teamID kind cap n ttl r)) =
           level R (bucketKey teamID' kind') cap' r"
proof -
  have lim: "limiter R cap ttl" using assms by (intro limiterI)
  have "bucketKey teamID' kind' \<noteq> bucketKey teamID kind" using assms(5) by (simp add: bucketKey_inject)
  then show ?thesis
    using limiter.lvl_other [OF lim assms(4)]
    by (simp add: limiter.snd_Consume [OF lim, of net] limiter.Consume_delivered [OF lim assms(4)] Let_def split_beta)
qed

theorem buckets_isolated_witness:
  "level mem_redis (bucketKey ''acme'' TPM) 90
      (snd (Consume mem_redis ReplyLost ''acme'' RPM 60 50 bucketTTL empty_mem)) = 90"
  using buckets_isolated [OF mem.redis_server_axioms, of 60 bucketTTL "''acme''" RPM empty_mem "''acme''" TPM
      90 ReplyLost 50]
  by (simp add: empty_bucket_ok empty_level bucketTTL_def)

text \<open>
  C36. A debt does not outlive the key: settling an overuse can leave the level below zero,
  and once the bucket has been idle for \<open>bucketTTL\<close> it reads as full, however deep the debt.
  The ideal bucket would still be short after that wait.
\<close>

theorem debt_forgiven_on_expiry:
  assumes "redis_server R" "0 < cap" "bucket_ok R teamID kind cap bucketTTL r"
    and "0 \<le> n" "n < 2 ^ 63" "level R (bucketKey teamID kind) cap r + of_int n + 2 * of_int cap < of_int a"
    and "a < 2 ^ 63"
  shows "let r' = snd (Reconcile R Delivered (Some \<lparr>rsv_teamID = teamID, rsv_kind = kind, rsv_capacity = cap,
           rsv_reserved = n, rsv_ttl = bucketTTL\<rparr>) a r) in
    ideal_tick (of_int cap) 120 (level R (bucketKey teamID kind) cap r') < 0 \<and>
    level R (bucketKey teamID kind) cap (rTICK R 120000000 r') = of_int cap"
proof -
  have lim: "limiter R cap bucketTTL" using assms by (intro limiterI) (simp_all add: bucketTTL_def)
  have ms: "milliseconds bucketTTL = 120000" by (simp add: milliseconds_def tdiv_nonneg bucketTTL_def)
  let ?v = "\<lparr>rsv_teamID = teamID, rsv_kind = kind, rsv_capacity = cap, rsv_reserved = n, rsv_ttl = bucketTTL\<rparr>"
  let ?key = "bucketKey teamID kind"
  have x: "0 \<le> level R ?key cap r" using limiter.ok_bounds [OF lim assms(3)] by simp
  have wf: "bucket_wf R ?key cap (milliseconds bucketTTL) r" using assms by (simp add: bucket_ok_def)
  have "(of_int (n + 2 * cap) :: rat) < of_int a" using assms(6) x by simp
  then have a: "n + 2 * cap < a" by (simp only: of_int_less_iff)
  have "\<exists>t. snd (Reconcile R Delivered (Some ?v) a r) = bucket_write R ?key t (bucket_now R r) 120000 r"
    using limiter.Reconcile_writes [OF lim assms(3), of n a] a assms by (simp add: ms)
  then obtain t where r': "snd (Reconcile R Delivered (Some ?v) a r) = bucket_write R ?key t (bucket_now R r) 120000 r"
    by blast
  have "rGET R r ?key = None" using wf by (simp add: bucket_wf_def)
  then have full: "level R ?key cap (rTICK R 120000000 (bucket_write R ?key t (bucket_now R r) 120000 r)) = of_int cap"
    using redis_server.life_write [OF assms(1), of r ?key 120000]
    by (simp add: level_def bucket_read_def redis_server.hget_tick [OF assms(1)])
  have "level R ?key cap (snd (Reconcile R Delivered (Some ?v) a r)) + 2 * of_int cap < 0"
    using limiter.Reconcile_delivered(2) [OF lim wf, of ?v a] a assms by (simp add: min_def)
  then show ?thesis using full by (simp add: Let_def ideal_tick_def r')
qed

theorem debt_forgiven_on_expiry_witness:
  "let r' = snd (Reconcile mem_redis Delivered (Some \<lparr>rsv_teamID = ''acme'', rsv_kind = TPM, rsv_capacity = 60,
           rsv_reserved = 10, rsv_ttl = bucketTTL\<rparr>) 6000 empty_mem) in
    ideal_tick 60 120 (level mem_redis (bucketKey ''acme'' TPM) 60 r') < 0 \<and>
    level mem_redis (bucketKey ''acme'' TPM) 60 (rTICK mem_redis 120000000 r') = 60"
  using debt_forgiven_on_expiry [OF mem.redis_server_axioms, of 60 "''acme''" TPM empty_mem 10 6000]
  by (simp add: empty_bucket_ok empty_level)

end
