(* ===== verification/Provider.thy ===== *)
theory Provider
  imports Prelude
begin

text \<open>
  The canonical types of \<open>internal/provider\<close>: requests, responses, chunks and the error
  taxonomy (\<open>types.go\<close>, \<open>errors.go\<close>), the configuration and registry of provider instances
  (\<open>config.go\<close>, \<open>provider.go\<close>, \<open>registry.go\<close>) and the bounds on text that comes from
  upstream (\<open>http.go\<close>). Names and labels are strings; the contents of messages are lists of
  code points.
\<close>

section \<open>Requests and responses\<close>

text \<open>Roles are strings on the wire; the constants the code compares with.\<close>

type_synonym Role = string

definition RoleSystem :: Role where "RoleSystem = ''system''"

definition RoleUser :: Role where "RoleUser = ''user''"

definition RoleAssistant :: Role where "RoleAssistant = ''assistant''"

record Message =
  msg_Role :: Role
  msg_Content :: runes

record Request =
  rq_Model :: string
  rq_Messages :: "Message list"
  rq_Temperature :: "float32 option"
  rq_MaxTokens :: int
  rq_Stream :: bool
  rq_Stop :: "runes list"

datatype FinishReason = FinishNone | FinishStop | FinishLength | FinishContentFilter | FinishOther

record Usage =
  us_InputTokens :: int
  us_OutputTokens :: int

record Response =
  rs_Content :: runes
  rs_FinishReason :: FinishReason
  rs_Usage :: Usage
  rs_Model :: string
  rs_Provider :: string
  rs_Latency :: duration

record Chunk =
  ck_Content :: runes
  ck_FinishReason :: FinishReason
  ck_Usage :: "Usage option"

section \<open>Errors\<close>

text \<open>\<open>KindUnset\<close> is the zero value of the code's string type, which no failure should carry.\<close>

datatype Kind =
  KindUnset | KindRateLimited | KindTimeout | KindAuthFailed | KindContentPolicy | KindServerError
| KindNetworkError | KindInvalidRequest

fun Kind_name :: "Kind \<Rightarrow> string" where
  "Kind_name KindUnset = ''''"
| "Kind_name KindRateLimited = ''rate_limited''"
| "Kind_name KindTimeout = ''timeout''"
| "Kind_name KindAuthFailed = ''auth_failed''"
| "Kind_name KindContentPolicy = ''content_policy''"
| "Kind_name KindServerError = ''server_error''"
| "Kind_name KindNetworkError = ''network_error''"
| "Kind_name KindInvalidRequest = ''invalid_request''"

fun DefaultRetryable :: "Kind \<Rightarrow> bool" where
  "DefaultRetryable KindRateLimited = True"
| "DefaultRetryable KindTimeout = True"
| "DefaultRetryable KindServerError = True"
| "DefaultRetryable KindNetworkError = True"
| "DefaultRetryable _ = False"

text \<open>
  A Go error that is not a provider's: its text, and what \<open>errors.Is\<close> and \<open>errors.As\<close> find in
  its chain.
\<close>

record GoError =
  ge_Text :: runes
  ge_DeadlineExceeded :: bool
  ge_NetTimeout :: bool

record PError =
  pe_Kind :: Kind
  pe_Provider :: string
  pe_Model :: string
  pe_StatusCode :: int
  pe_Retryable :: bool
  pe_RetryAfter :: duration
  pe_Message :: runes
  pe_Err :: "GoError option"

definition ascii :: "string \<Rightarrow> runes" where
  "ascii s = map of_char s"

definition Error_String :: "PError \<Rightarrow> runes" where
  "Error_String e =
     (let target = (if pe_Model e \<noteq> [] then pe_Provider e @ ''/'' @ pe_Model e else pe_Provider e);
          s1 = ascii (''provider '' @ target @ '': '' @ Kind_name (pe_Kind e));
          s2 = (if pe_StatusCode e \<noteq> 0 then s1 @ ascii ('' (http '' @ show_int (pe_StatusCode e) @ '')'') else s1);
          s3 = (if pe_Message e \<noteq> [] then s2 @ ascii '': '' @ pe_Message e else s2)
      in (case pe_Err e of None \<Rightarrow> s3 | Some c \<Rightarrow> s3 @ ascii '': '' @ ge_Text c))"

definition KindForStatus :: "int \<Rightarrow> Kind" where
  "KindForStatus status =
     (if status < 400 then KindUnset
      else if status = 408 then KindTimeout
      else if status = 429 then KindRateLimited
      else if status = 401 \<or> status = 403 then KindAuthFailed
      else if status \<ge> 500 then KindServerError
      else KindInvalidRequest)"

definition NewHTTPError :: "string \<Rightarrow> string \<Rightarrow> int \<Rightarrow> runes \<Rightarrow> PError" where
  "NewHTTPError providerName model status message =
     \<lparr>pe_Kind = KindForStatus status, pe_Provider = providerName, pe_Model = model,
      pe_StatusCode = status, pe_Retryable = DefaultRetryable (KindForStatus status),
      pe_RetryAfter = 0, pe_Message = message, pe_Err = None\<rparr>"

definition NewTransportError :: "string \<Rightarrow> string \<Rightarrow> GoError \<Rightarrow> PError" where
  "NewTransportError providerName model err =
     (let kind = (if ge_DeadlineExceeded err then KindTimeout
                  else if ge_NetTimeout err then KindTimeout
                  else KindNetworkError)
      in \<lparr>pe_Kind = kind, pe_Provider = providerName, pe_Model = model, pe_StatusCode = 0,
          pe_Retryable = DefaultRetryable kind, pe_RetryAfter = 0, pe_Message = [], pe_Err = Some err\<rparr>)"

definition malformedResponse :: "string \<Rightarrow> string \<Rightarrow> runes \<Rightarrow> GoError option \<Rightarrow> PError" where
  "malformedResponse providerName model message cause =
     \<lparr>pe_Kind = KindServerError, pe_Provider = providerName, pe_Model = model, pe_StatusCode = 0,
      pe_Retryable = True, pe_RetryAfter = 0, pe_Message = message, pe_Err = cause\<rparr>"

section \<open>Text from upstream\<close>

definition maxErrorMessageBytes :: nat where
  "maxErrorMessageBytes = 256"

text \<open>The code points Go's \<open>unicode.IsSpace\<close> holds for.\<close>

definition is_space :: "rune \<Rightarrow> bool" where
  "is_space c \<longleftrightarrow> (9 \<le> c \<and> c \<le> 13) \<or> c = 32 \<or> c = 133 \<or> c = 160 \<or> c = 5760 \<or>
     (8192 \<le> c \<and> c \<le> 8202) \<or> c = 8232 \<or> c = 8233 \<or> c = 8239 \<or> c = 8287 \<or> c = 12288"

definition TrimSpace :: "runes \<Rightarrow> runes" where
  "TrimSpace s = rev (dropWhile is_space (rev (dropWhile is_space s)))"

text \<open>
  The first bytes of a text with a rune that the cut splits removed: what
  \<open>strings.ToValidUTF8\<close> makes of a prefix.
\<close>

fun byte_prefix :: "nat \<Rightarrow> runes \<Rightarrow> runes" where
  "byte_prefix n [] = []"
| "byte_prefix n (c # s) = (if utf8_len c \<le> n then c # byte_prefix (n - utf8_len c) s else [])"

definition truncateMessage :: "runes \<Rightarrow> runes" where
  "truncateMessage s0 =
     (let s = TrimSpace s0 in
      if byte_len s \<le> maxErrorMessageBytes then s else byte_prefix maxErrorMessageBytes s @ [8230])"

text \<open>\<open>strconv.Atoi\<close>: an optional sign and decimal digits, in the range of a 64-bit integer.\<close>

definition Atoi :: "string \<Rightarrow> int option" where
  "Atoi s =
     (let neg = (s \<noteq> [] \<and> hd s = CHR ''-'');
          ds = (if s \<noteq> [] \<and> (hd s = CHR ''-'' \<or> hd s = CHR ''+'') then tl s else s)
      in if ds = [] \<or> \<not> list_all is_digit ds then None
         else (let n = (if neg then - int (read_nat ds) else int (read_nat ds)) in
               if - (2 ^ 63) \<le> n \<and> n < 2 ^ 63 then Some n else None))"

definition ascii_space :: "char \<Rightarrow> bool" where
  "ascii_space c \<longleftrightarrow> c \<in> set [CHR '' '', CHR 0x09, CHR 0x0A, CHR 0x0B, CHR 0x0C, CHR 0x0D]"

definition trim_header :: "string \<Rightarrow> string" where
  "trim_header s = rev (dropWhile ascii_space (rev (dropWhile ascii_space s)))"

text \<open>\<open>ParseTime\<close> stands for \<open>http.ParseTime\<close> and gives the instant a date names.\<close>

definition parseRetryAfter :: "(string \<Rightarrow> instant option) \<Rightarrow> string \<Rightarrow> instant \<Rightarrow> duration" where
  "parseRetryAfter ParseTime header0 now =
     (let header = trim_header header0 in
      if header = [] then 0
      else (case Atoi header of
              Some secs \<Rightarrow> (if secs \<le> 0 then 0 else i64 (secs * second))
            | None \<Rightarrow>
                (case ParseTime header of
                   None \<Rightarrow> 0
                 | Some t \<Rightarrow> (if t - now > 0 then t - now else 0))))"

section \<open>Instances and the registry\<close>

record ProviderConfig =
  pc_Name :: string
  pc_Type :: string
  pc_BaseURL :: string
  pc_APIKey :: string
  pc_Timeout :: duration
  pc_Models :: "string list"
  pc_DefaultMaxTokens :: int
  pc_PingModel :: string

datatype ConfigError =
  NameRequired | BaseURLRequired string | BadTimeout string | NoModelsListed string | BadDefaultMaxTokens string

definition validateConfig :: "ProviderConfig \<Rightarrow> ConfigError option" where
  "validateConfig cfg =
     (if pc_Name cfg = [] then Some NameRequired
      else if pc_BaseURL cfg = [] then Some (BaseURLRequired (pc_Name cfg))
      else if pc_Timeout cfg \<le> 0 then Some (BadTimeout (pc_Name cfg))
      else if pc_Models cfg = [] then Some (NoModelsListed (pc_Name cfg))
      else if pc_DefaultMaxTokens cfg \<le> 0 then Some (BadDefaultMaxTokens (pc_Name cfg))
      else None)"

text \<open>An adapter is its dialect and the configuration it embeds.\<close>

datatype Adapter =
  OpenAICompatible (adapter_cfg: ProviderConfig) | Anthropic (adapter_cfg: ProviderConfig)
| Gemini (adapter_cfg: ProviderConfig) | Ollama (adapter_cfg: ProviderConfig)

definition adapter_Name :: "Adapter \<Rightarrow> string" where
  "adapter_Name p = pc_Name (adapter_cfg p)"

definition SupportsModel :: "Adapter \<Rightarrow> string \<Rightarrow> bool" where
  "SupportsModel p model \<longleftrightarrow> model \<in> set (pc_Models (adapter_cfg p))"

definition pingModel :: "ProviderConfig \<Rightarrow> string option" where
  "pingModel cfg =
     (if pc_PingModel cfg \<noteq> [] then Some (pc_PingModel cfg)
      else case pc_Models cfg of [] \<Rightarrow> None | m # _ \<Rightarrow> Some m)"

definition pingRequest :: "string \<Rightarrow> Request" where
  "pingRequest model =
     \<lparr>rq_Model = model, rq_Messages = [\<lparr>msg_Role = RoleUser, msg_Content = ascii ''ping''\<rparr>],
      rq_Temperature = None, rq_MaxTokens = 1, rq_Stream = False, rq_Stop = []\<rparr>"

datatype RegistryError =
  NoProviders | DuplicateName string | BadConfig ConfigError | UnknownType string string
| DuplicateModel string string string

definition newBase :: "(ProviderConfig \<Rightarrow> Adapter) \<Rightarrow> ProviderConfig \<Rightarrow> RegistryError + Adapter" where
  "newBase con cfg = (case validateConfig cfg of Some e \<Rightarrow> Inl (BadConfig e) | None \<Rightarrow> Inr (con cfg))"

definition newAdapter :: "ProviderConfig \<Rightarrow> RegistryError + Adapter" where
  "newAdapter cfg =
     (if pc_Type cfg = ''openai-compatible'' then newBase OpenAICompatible cfg
      else if pc_Type cfg = ''anthropic'' then newBase Anthropic cfg
      else if pc_Type cfg = ''gemini'' then newBase Gemini cfg
      else if pc_Type cfg = ''ollama'' then newBase Ollama cfg
      else Inl (UnknownType (pc_Name cfg) (pc_Type cfg)))"

text \<open>The maps of the registry as association lists in insertion order.\<close>

record ProviderRegistry =
  rg_byName :: "(string \<times> Adapter) list"
  rg_byModel :: "(string \<times> Adapter) list"
  rg_defaultMaxTokens :: "(string \<times> int) list"
  rg_order :: "Adapter list"
  rg_configs :: "ProviderConfig list"

definition emptyRegistry :: ProviderRegistry where
  "emptyRegistry = \<lparr>rg_byName = [], rg_byModel = [], rg_defaultMaxTokens = [], rg_order = [], rg_configs = []\<rparr>"

fun index_models ::
  "ProviderConfig \<Rightarrow> Adapter \<Rightarrow> string list \<Rightarrow> ProviderRegistry \<Rightarrow> RegistryError + ProviderRegistry" where
  "index_models cfg p [] r = Inr r"
| "index_models cfg p (model # ms) r =
     (case map_of (rg_byModel r) model of
        Some existing \<Rightarrow> Inl (DuplicateModel model (adapter_Name existing) (pc_Name cfg))
      | None \<Rightarrow>
          index_models cfg p ms
            (r\<lparr>rg_byModel := rg_byModel r @ [(model, p)],
               rg_defaultMaxTokens := rg_defaultMaxTokens r @ [(model, pc_DefaultMaxTokens cfg)]\<rparr>))"

fun add_configs :: "ProviderConfig list \<Rightarrow> ProviderRegistry \<Rightarrow> RegistryError + ProviderRegistry" where
  "add_configs [] r = Inr r"
| "add_configs (cfg # cfgs) r =
     (case map_of (rg_byName r) (pc_Name cfg) of
        Some _ \<Rightarrow> Inl (DuplicateName (pc_Name cfg))
      | None \<Rightarrow>
          (case newAdapter cfg of
             Inl e \<Rightarrow> Inl e
           | Inr p \<Rightarrow>
               (case index_models cfg p (pc_Models cfg) r of
                  Inl e \<Rightarrow> Inl e
                | Inr r1 \<Rightarrow>
                    add_configs cfgs
                      (r1\<lparr>rg_byName := rg_byName r1 @ [(pc_Name cfg, p)], rg_order := rg_order r1 @ [p],
                          rg_configs := rg_configs r1 @ [cfg]\<rparr>))))"

definition NewRegistry :: "ProviderConfig list \<Rightarrow> RegistryError + ProviderRegistry" where
  "NewRegistry cfgs = (if cfgs = [] then Inl NoProviders else add_configs cfgs emptyRegistry)"

definition ForModel :: "ProviderRegistry \<Rightarrow> string \<Rightarrow> Adapter option" where
  "ForModel r model = map_of (rg_byModel r) model"

definition DefaultMaxTokensFor :: "ProviderRegistry \<Rightarrow> string \<Rightarrow> int option" where
  "DefaultMaxTokensFor r model = map_of (rg_defaultMaxTokens r) model"

definition ByName :: "ProviderRegistry \<Rightarrow> string \<Rightarrow> Adapter option" where
  "ByName r name = map_of (rg_byName r) name"

definition Providers :: "ProviderRegistry \<Rightarrow> Adapter list" where
  "Providers r = rg_order r"

definition Configs :: "ProviderRegistry \<Rightarrow> ProviderConfig list" where
  "Configs r = rg_configs r"

definition Models :: "ProviderRegistry \<Rightarrow> string list" where
  "Models r = concat (map (\<lambda>p. map fst (filter (\<lambda>e. snd e = p) (rg_byModel r))) (rg_order r))"

section \<open>What a registry holds\<close>

lemma newAdapter_cfg:
  assumes "newAdapter cfg = Inr p"
  shows "adapter_cfg p = cfg" "validateConfig cfg = None"
  using assms by (auto simp: newAdapter_def newBase_def split: if_splits option.splits)

lemma index_models_Inr:
  assumes "index_models cfg p ms r = Inr r'"
  shows "rg_byModel r' = rg_byModel r @ map (\<lambda>m. (m, p)) ms \<and>
    rg_defaultMaxTokens r' = rg_defaultMaxTokens r @ map (\<lambda>m. (m, pc_DefaultMaxTokens cfg)) ms \<and>
    rg_byName r' = rg_byName r \<and> rg_order r' = rg_order r \<and> rg_configs r' = rg_configs r \<and>
    (distinct (map fst (rg_byModel r)) \<longrightarrow> distinct (map fst (rg_byModel r')))"
  using assms
proof (induction cfg p ms r rule: index_models.induct)
  case (2 cfg p model ms r)
  then have new: "model \<notin> fst ` set (rg_byModel r)" by (auto simp: map_of_eq_None_iff split: option.splits)
  then show ?case using 2 by (fastforce split: option.splits)
qed simp

definition adapter_of :: "ProviderConfig \<Rightarrow> Adapter" where
  "adapter_of cfg = projr (newAdapter cfg)"

definition registry_of :: "ProviderConfig list \<Rightarrow> ProviderRegistry \<Rightarrow> bool" where
  "registry_of cfgs r \<longleftrightarrow>
     rg_configs r = cfgs \<and> rg_order r = map adapter_of cfgs \<and>
     rg_byModel r = concat (map (\<lambda>cfg. map (\<lambda>m. (m, adapter_of cfg)) (pc_Models cfg)) cfgs) \<and>
     rg_defaultMaxTokens r = concat (map (\<lambda>cfg. map (\<lambda>m. (m, pc_DefaultMaxTokens cfg)) (pc_Models cfg)) cfgs) \<and>
     distinct (map fst (rg_byModel r)) \<and> (\<forall>cfg \<in> set cfgs. newAdapter cfg = Inr (adapter_of cfg))"

lemma add_configs_Inr:
  "add_configs cfgs r = Inr r' \<Longrightarrow> registry_of old r \<Longrightarrow> registry_of (old @ cfgs) r'"
proof (induction cfgs r arbitrary: old rule: add_configs.induct)
  case (2 cfg cfgs r)
  from 2(2) obtain p r1 where p: "newAdapter cfg = Inr p" and i: "index_models cfg p (pc_Models cfg) r = Inr r1"
    and new: "map_of (rg_byName r) (pc_Name cfg) = None"
    and rest: "add_configs cfgs (r1\<lparr>rg_byName := rg_byName r1 @ [(pc_Name cfg, p)], rg_order := rg_order r1 @ [p],
      rg_configs := rg_configs r1 @ [cfg]\<rparr>) = Inr r'"
    by (auto split: option.splits sum.splits)
  have ad: "adapter_of cfg = p" using p by (simp add: adapter_of_def)
  note ix = index_models_Inr [OF i]
  let ?r2 = "r1\<lparr>rg_byName := rg_byName r1 @ [(pc_Name cfg, p)], rg_order := rg_order r1 @ [p],
      rg_configs := rg_configs r1 @ [cfg]\<rparr>"
  have "distinct (map fst (rg_byModel r1))" using ix 2(3) unfolding registry_of_def by blast
  then have "distinct (map fst (rg_byModel ?r2))" by simp
  moreover have "rg_configs ?r2 = old @ [cfg]" "rg_order ?r2 = map adapter_of (old @ [cfg])"
    "rg_byModel ?r2 = concat (map (\<lambda>cfg. map (\<lambda>m. (m, adapter_of cfg)) (pc_Models cfg)) (old @ [cfg]))"
    "rg_defaultMaxTokens ?r2 = concat (map (\<lambda>cfg. map (\<lambda>m. (m, pc_DefaultMaxTokens cfg)) (pc_Models cfg)) (old @ [cfg]))"
    "\<forall>cfg' \<in> set (old @ [cfg]). newAdapter cfg' = Inr (adapter_of cfg')"
    using ix 2(3) p by (simp_all add: registry_of_def ad)
  ultimately have "registry_of (old @ [cfg]) ?r2" unfolding registry_of_def by blast
  from 2(1) [OF new p i rest this] show ?case by simp
qed simp

lemma NewRegistry_Inr: "NewRegistry cfgs = Inr r \<Longrightarrow> registry_of cfgs r"
  using add_configs_Inr [of cfgs emptyRegistry r "[]"]
  by (auto simp: NewRegistry_def registry_of_def emptyRegistry_def split: if_splits)

lemma registry_defaults:
  assumes "registry_of cfgs r"
  shows "map_of (rg_defaultMaxTokens r) m = map_option (\<lambda>p. pc_DefaultMaxTokens (adapter_cfg p)) (map_of (rg_byModel r) m)"
proof -
  have ad: "adapter_cfg (adapter_of cfg) = cfg" if "cfg \<in> set cfgs" for cfg
    using assms that newAdapter_cfg(1) by (auto simp: registry_of_def)
  have "rg_defaultMaxTokens r = map (\<lambda>(m, p). (m, pc_DefaultMaxTokens (adapter_cfg p))) (rg_byModel r)"
    using assms ad by (simp add: registry_of_def map_concat o_def cong: map_cong)
  then show ?thesis by (simp add: map_of_map)
qed

lemma registry_lookup:
  assumes "registry_of cfgs r"
  shows "map_of (rg_byModel r) m = Some p \<longleftrightarrow> (\<exists>cfg \<in> set cfgs. m \<in> set (pc_Models cfg) \<and> newAdapter cfg = Inr p)"
proof -
  have "distinct (map fst (rg_byModel r))" using assms unfolding registry_of_def by blast
  then have "map_of (rg_byModel r) m = Some p \<longleftrightarrow> (m, p) \<in> set (rg_byModel r)" by simp
  also have "\<dots> \<longleftrightarrow> (\<exists>cfg \<in> set cfgs. m \<in> set (pc_Models cfg) \<and> p = adapter_of cfg)"
    using assms by (auto simp: registry_of_def)
  also have "\<dots> \<longleftrightarrow> (\<exists>cfg \<in> set cfgs. m \<in> set (pc_Models cfg) \<and> newAdapter cfg = Inr p)"
    using assms by (auto simp: registry_of_def)
  finally show ?thesis .
qed

lemma set_Models:
  assumes "registry_of cfgs r"
  shows "set (Models r) = {m. map_of (rg_byModel r) m \<noteq> None}"
proof -
  have "snd e \<in> set (rg_order r)" if "e \<in> set (rg_byModel r)" for e
    using assms that by (auto simp: registry_of_def)
  then have "fst e \<in> set (Models r)" if "e \<in> set (rg_byModel r)" for e
    using that by (cases e) (force simp: Models_def)
  moreover have "set (Models r) \<subseteq> fst ` set (rg_byModel r)" by (auto simp: Models_def)
  ultimately have "set (Models r) = fst ` set (rg_byModel r)" by blast
  then show ?thesis by (simp add: map_of_eq_None_iff)
qed

section \<open>Properties of the registry and of upstream text\<close>

text \<open>
  A registry that could be built resolves a model to the one configured instance that
  lists it and nothing else: the instance supports the model and is valid, its configured
  token ceiling is the one the budget layer reads, and the advertised models are exactly the
  resolvable ones.
\<close>

theorem registry_resolves:
  assumes "NewRegistry cfgs = Inr r"
  shows "(ForModel r m = Some p \<longleftrightarrow> (\<exists>cfg \<in> set cfgs. m \<in> set (pc_Models cfg) \<and> newAdapter cfg = Inr p)) \<and>
    (ForModel r m = Some p \<longrightarrow> SupportsModel p m \<and> 0 < pc_DefaultMaxTokens (adapter_cfg p)) \<and>
    DefaultMaxTokensFor r m = map_option (\<lambda>p. pc_DefaultMaxTokens (adapter_cfg p)) (ForModel r m) \<and>
    (m \<in> set (Models r) \<longleftrightarrow> ForModel r m \<noteq> None)"
proof -
  note reg = NewRegistry_Inr [OF assms]
  have "SupportsModel p m \<and> 0 < pc_DefaultMaxTokens (adapter_cfg p)" if f: "ForModel r m = Some p"
  proof -
    obtain cfg where "m \<in> set (pc_Models cfg)" "newAdapter cfg = Inr p"
      using f registry_lookup [OF reg, of m p] by (auto simp: ForModel_def)
    then show ?thesis using newAdapter_cfg [of cfg p]
      by (simp add: SupportsModel_def validateConfig_def split: if_splits)
  qed
  then show ?thesis
    using registry_lookup [OF reg] registry_defaults [OF reg] set_Models [OF reg]
    by (simp add: ForModel_def DefaultMaxTokensFor_def)
qed

definition groq_cfg :: ProviderConfig where
  "groq_cfg = \<lparr>pc_Name = ''groq'', pc_Type = ''openai-compatible'', pc_BaseURL = ''http://x'', pc_APIKey = [],
     pc_Timeout = second, pc_Models = [''llama''], pc_DefaultMaxTokens = 512, pc_PingModel = []\<rparr>"

theorem registry_resolves_witness:
  "\<exists>r. NewRegistry [groq_cfg] = Inr r \<and> ForModel r ''llama'' = Some (OpenAICompatible groq_cfg) \<and>
     DefaultMaxTokensFor r ''llama'' = Some 512"
proof -
  have a: "newAdapter groq_cfg = Inr (OpenAICompatible groq_cfg)"
    by (simp add: newAdapter_def newBase_def validateConfig_def groq_cfg_def)
  then obtain r where r: "NewRegistry [groq_cfg] = Inr r"
    by (simp add: NewRegistry_def emptyRegistry_def) (simp add: groq_cfg_def)
  then show ?thesis
    using registry_resolves [OF r, of "''llama''" "OpenAICompatible groq_cfg"] a by (auto simp: groq_cfg_def)
qed

lemma byte_prefix_bound: "byte_len (byte_prefix n s) \<le> n"
  by (induction n s rule: byte_prefix.induct) (auto simp: byte_len_def)

lemma byte_prefix_prefix: "\<exists>t. s = byte_prefix n s @ t"
  by (induction n s rule: byte_prefix.induct) auto

lemma byte_prefix_full: "byte_len s \<le> n \<Longrightarrow> byte_prefix n s = s"
  by (induction n s rule: byte_prefix.induct) (auto simp: byte_len_def)

text \<open>
  Text copied from upstream is bounded: a truncated message is never longer than the cap
  and an ellipsis, is unchanged apart from outer blanks when it fits, and is otherwise a
  prefix of the text that ends on a rune boundary.
\<close>

theorem truncateMessage_bounded:
  "byte_len (truncateMessage s) \<le> maxErrorMessageBytes + 3 \<and>
   (byte_len (TrimSpace s) \<le> maxErrorMessageBytes \<longrightarrow> truncateMessage s = TrimSpace s) \<and>
   (maxErrorMessageBytes < byte_len (TrimSpace s) \<longrightarrow>
      (\<exists>p t. truncateMessage s = p @ [8230] \<and> TrimSpace s = p @ t \<and> t \<noteq> []))"
proof -
  let ?p = "byte_prefix maxErrorMessageBytes (TrimSpace s)"
  obtain t where t: "TrimSpace s = ?p @ t" using byte_prefix_prefix by blast
  have "t \<noteq> []" if "maxErrorMessageBytes < byte_len (TrimSpace s)"
    using that t byte_prefix_bound [of maxErrorMessageBytes "TrimSpace s"] by auto
  moreover have "byte_len [8230] = 3" by (simp add: byte_len_def utf8_len_def)
  ultimately show ?thesis
    using t byte_prefix_bound [of maxErrorMessageBytes "TrimSpace s"]
    by (auto simp: truncateMessage_def Let_def)
qed

theorem truncateMessage_bounded_witness:
  "\<exists>p t. truncateMessage (replicate 300 65) = p @ [8230] \<and> replicate 300 65 = p @ t \<and> t \<noteq> []"
proof -
  have trim: "TrimSpace (replicate 300 65) = replicate 300 65"
    by (simp add: TrimSpace_def is_space_def)
  have len: "byte_len (replicate 300 65) = 300" by (simp add: byte_len_def utf8_len_def sum_list_replicate)
  show ?thesis using truncateMessage_bounded [of "replicate 300 65"] unfolding trim len
    by (simp add: maxErrorMessageBytes_def)
qed

end
