(* ===== verification/Auth.thy ===== *)
theory Auth
  imports Provider Sha256
begin

text \<open>
  Teams and their keys: the team record with its allowlists, key generation and identifiers
  (\<open>internal/auth/team.go\<close>) and the in-memory registry (\<open>internal/auth/registry.go\<close>). A registry
  never changes a team in place, so its two maps hold team values where the code has pointers.
\<close>

section \<open>Teams\<close>

datatype Priority = PriorityRealtime | PriorityBatch | PriorityOther string

record RateLimits =
  rl_RPM :: int
  rl_TPM :: int

datatype KeySource = KeySourceConfig | KeySourceRotated | KeySourceRevoked | KeySourceCreated

record Team =
  tm_ID :: string
  tm_Name :: runes
  tm_OrganizationID :: string
  tm_KeyHash :: string
  tm_AllowedProviders :: "string list"
  tm_AllowedModels :: "string list"
  tm_RateLimits :: RateLimits
  tm_MonthlyBudgetMicros :: int
  tm_Priority :: Priority
  tm_IsAdmin :: bool
  tm_CacheIsolated :: bool
  tm_KeySource :: KeySource
  tm_KeyMasked :: runes
  tm_KeyCreatedAt :: "instant option"

definition AllowsModel :: "Team \<Rightarrow> string \<Rightarrow> bool" where
  "AllowsModel t model = list_ex (\<lambda>m. m = model) (tm_AllowedModels t)"

definition AllowsProvider :: "Team \<Rightarrow> string \<Rightarrow> bool" where
  "AllowsProvider t provider = list_ex (\<lambda>p. p = provider) (tm_AllowedProviders t)"

definition HashKey :: "string \<Rightarrow> string" where
  "HashKey raw = EncodeToString (Sum256 raw)"

text \<open>\<open>entropy\<close> is what the operating system's random source delivers, if anything.\<close>

definition GenerateKey :: "nat list option \<Rightarrow> string \<Rightarrow> string option" where
  "GenerateKey entropy teamID =
     (case entropy of
        None \<Rightarrow> None
      | Some b \<Rightarrow> Some (''sk-switchyard-'' @ teamID @ ''-'' @ EncodeToString (take 16 b)))"

definition MaskKey :: "string \<Rightarrow> runes" where
  "MaskKey raw =
     (if length raw < 4 then ascii ''sk-'' @ [8230]
      else ascii ''sk-'' @ [8230] @ ascii (drop (length raw - 4) raw))"

definition maxIDLength :: nat where
  "maxIDLength = 48"

text \<open>
  \<open>unicode.ToLower\<close> as far as \<open>Slug\<close> can see it: besides the ASCII letters only the dotted
  capital I and the Kelvin sign have an ASCII letter as their lower case.
\<close>

definition lower :: "rune \<Rightarrow> rune" where
  "lower r = (if 65 \<le> r \<and> r \<le> 90 then r + 32 else if r = 304 then 105 else if r = 8490 then 107 else r)"

definition isAlnum :: "rune \<Rightarrow> bool" where
  "isAlnum r \<longleftrightarrow> (97 \<le> r \<and> r \<le> 122) \<or> (48 \<le> r \<and> r \<le> 57)"

fun slug_step :: "rune \<Rightarrow> runes \<times> bool \<Rightarrow> runes \<times> bool" where
  "slug_step r (b, pendingHyphen) =
     (if \<not> isAlnum r then (b, b \<noteq> [])
      else if pendingHyphen then (b @ [45, r], False)
      else (b @ [r], pendingHyphen))"

definition Slug :: "runes \<Rightarrow> runes" where
  "Slug name =
     (let tid = fst (fold slug_step (map lower name) ([], False)) in
      if length tid > maxIDLength then rev (dropWhile (\<lambda>c. c = 45) (rev (take maxIDLength tid))) else tid)"

datatype TeamError =
    IDRequired | TeamNameRequired | NoAllowedProviders | NoAllowedModels
  | BadRPM int | BadTPM int | BadBudget int | BadPriority string
  | ErrUnknownKey | ErrUnknownTeam | ErrTeamExists | EmptyKeyHash string | KeyTaken string string

definition validateLimits :: "Team \<Rightarrow> TeamError option" where
  "validateLimits t =
     (if rl_RPM (tm_RateLimits t) \<le> 0 then Some (BadRPM (rl_RPM (tm_RateLimits t)))
      else if rl_TPM (tm_RateLimits t) \<le> 0 then Some (BadTPM (rl_TPM (tm_RateLimits t)))
      else if tm_MonthlyBudgetMicros t \<le> 0 then Some (BadBudget (tm_MonthlyBudgetMicros t))
      else None)"

definition Team_Validate :: "Team \<Rightarrow> TeamError option" where
  "Team_Validate t =
     (if tm_ID t = [] then Some IDRequired
      else if TrimSpace (tm_Name t) = [] then Some TeamNameRequired
      else if tm_AllowedProviders t = [] then Some NoAllowedProviders
      else if tm_AllowedModels t = [] then Some NoAllowedModels
      else
        (case validateLimits t of
           Some e \<Rightarrow> Some e
         | None \<Rightarrow> (case tm_Priority t of PriorityOther p \<Rightarrow> Some (BadPriority p) | _ \<Rightarrow> None)))"

section \<open>The registry\<close>

record Registry =
  rg_byHash :: "string \<Rightarrow> Team option"
  rg_byID :: "string \<Rightarrow> Team option"

fun index_teams :: "Team list \<Rightarrow> Registry \<Rightarrow> TeamError + Registry" where
  "index_teams [] r = Inr r"
| "index_teams (t # ts) r =
     (let r1 = r\<lparr>rg_byID := (rg_byID r)(tm_ID t \<mapsto> t)\<rparr> in
      if tm_KeyHash t = [] then index_teams ts r1
      else
        (case rg_byHash r1 (tm_KeyHash t) of
           Some existing \<Rightarrow> Inl (KeyTaken (tm_ID existing) (tm_ID t))
         | None \<Rightarrow> index_teams ts (r1\<lparr>rg_byHash := (rg_byHash r1)(tm_KeyHash t \<mapsto> t)\<rparr>)))"

definition NewTeamRegistry :: "Team list \<Rightarrow> TeamError + Registry" where
  "NewTeamRegistry teams = index_teams teams \<lparr>rg_byHash = Map.empty, rg_byID = Map.empty\<rparr>"

definition Authenticate :: "Registry \<Rightarrow> string \<Rightarrow> TeamError + Team" where
  "Authenticate r rawKey =
     (case rg_byHash r (HashKey rawKey) of
        None \<Rightarrow> Inl ErrUnknownKey
      | Some team \<Rightarrow> (if tm_KeyHash team = [] then Inl ErrUnknownKey else Inr team))"

definition Get :: "Registry \<Rightarrow> string \<Rightarrow> TeamError + Team" where
  "Get r tid = (case rg_byID r tid of None \<Rightarrow> Inl ErrUnknownTeam | Some t \<Rightarrow> Inr t)"

definition Team_List :: "Registry \<Rightarrow> Team set" where
  "Team_List r = ran (rg_byID r)"

record TeamPatch =
  tp_RPM :: "int option"
  tp_TPM :: "int option"
  tp_MonthlyBudgetMicros :: "int option"

definition TeamPatch_Apply :: "TeamPatch \<Rightarrow> Team \<Rightarrow> TeamError + Team" where
  "TeamPatch_Apply p t =
     (let t1 = (case tp_RPM p of None \<Rightarrow> t | Some v \<Rightarrow> t\<lparr>tm_RateLimits := (tm_RateLimits t)\<lparr>rl_RPM := v\<rparr>\<rparr>);
          t2 = (case tp_TPM p of None \<Rightarrow> t1 | Some v \<Rightarrow> t1\<lparr>tm_RateLimits := (tm_RateLimits t1)\<lparr>rl_TPM := v\<rparr>\<rparr>);
          t3 = (case tp_MonthlyBudgetMicros p of None \<Rightarrow> t2 | Some v \<Rightarrow> t2\<lparr>tm_MonthlyBudgetMicros := v\<rparr>)
      in case validateLimits t3 of Some e \<Rightarrow> Inl e | None \<Rightarrow> Inr t3)"

definition Update :: "string \<Rightarrow> TeamPatch \<Rightarrow> Registry \<Rightarrow> (TeamError + Team) \<times> Registry" where
  "Update tid patch r =
     (case rg_byID r tid of
        None \<Rightarrow> (Inl ErrUnknownTeam, r)
      | Some existing \<Rightarrow>
          (case TeamPatch_Apply patch existing of
             Inl e \<Rightarrow> (Inl e, r)
           | Inr updated \<Rightarrow>
               (Inr updated,
                r\<lparr>rg_byID := (rg_byID r)(tid \<mapsto> updated),
                  rg_byHash := (rg_byHash r)(tm_KeyHash updated \<mapsto> updated)\<rparr>)))"

definition rotate_to ::
  "instant \<Rightarrow> string \<Rightarrow> string \<Rightarrow> runes \<Rightarrow> Team \<Rightarrow> Registry \<Rightarrow> (TeamError + Team) \<times> Registry" where
  "rotate_to now tid newHash newMasked existing r =
     (let updated = existing\<lparr>tm_KeyHash := newHash, tm_KeySource := KeySourceRotated, tm_KeyMasked := newMasked,
                             tm_KeyCreatedAt := Some now\<rparr>
      in (Inr updated,
          r\<lparr>rg_byHash := ((rg_byHash r)(tm_KeyHash existing := None))(newHash \<mapsto> updated),
            rg_byID := (rg_byID r)(tid \<mapsto> updated)\<rparr>))"

definition RotateKey ::
  "instant \<Rightarrow> string \<Rightarrow> string \<Rightarrow> runes \<Rightarrow> Registry \<Rightarrow> (TeamError + Team) \<times> Registry" where
  "RotateKey now tid newHash newMasked r =
     (case rg_byID r tid of
        None \<Rightarrow> (Inl ErrUnknownTeam, r)
      | Some existing \<Rightarrow>
          (if newHash = [] then (Inl (EmptyKeyHash tid), r)
           else
             (case rg_byHash r newHash of
                Some other \<Rightarrow>
                  (if tm_ID other \<noteq> tid then (Inl (KeyTaken (tm_ID other) tid), r)
                   else rotate_to now tid newHash newMasked existing r)
              | None \<Rightarrow> rotate_to now tid newHash newMasked existing r)))"

definition RevokeKey :: "string \<Rightarrow> Registry \<Rightarrow> (TeamError + Team) \<times> Registry" where
  "RevokeKey tid r =
     (case rg_byID r tid of
        None \<Rightarrow> (Inl ErrUnknownTeam, r)
      | Some existing \<Rightarrow>
          (let updated = existing\<lparr>tm_KeyHash := [], tm_KeySource := KeySourceRevoked, tm_KeyMasked := [],
                                  tm_KeyCreatedAt := None\<rparr>
           in (Inr updated,
               r\<lparr>rg_byHash := (rg_byHash r)(tm_KeyHash existing := None),
                 rg_byID := (rg_byID r)(tid \<mapsto> updated)\<rparr>)))"

definition Team_Add :: "Team \<Rightarrow> Registry \<Rightarrow> TeamError option \<times> Registry" where
  "Team_Add t r =
     (if rg_byID r (tm_ID t) \<noteq> None then (Some ErrTeamExists, r)
      else
        (case (if tm_KeyHash t \<noteq> [] then rg_byHash r (tm_KeyHash t) else None) of
           Some other \<Rightarrow> (Some (KeyTaken (tm_ID other) (tm_ID t)), r)
         | None \<Rightarrow>
             (None,
              r\<lparr>rg_byID := (rg_byID r)(tm_ID t \<mapsto> t),
                rg_byHash := (if tm_KeyHash t \<noteq> [] then (rg_byHash r)(tm_KeyHash t \<mapsto> t) else rg_byHash r)\<rparr>)))"

definition Team_Remove :: "string \<Rightarrow> Registry \<Rightarrow> (TeamError + Team) \<times> Registry" where
  "Team_Remove tid r =
     (case rg_byID r tid of
        None \<Rightarrow> (Inl ErrUnknownTeam, r)
      | Some existing \<Rightarrow>
          (Inr existing,
           r\<lparr>rg_byID := (rg_byID r)(tid := None),
             rg_byHash := (if tm_KeyHash existing \<noteq> [] then (rg_byHash r)(tm_KeyHash existing := None)
                           else rg_byHash r)\<rparr>))"

section \<open>Administration\<close>

datatype admin_event =
    EvUpdate string TeamPatch
  | EvRotate instant string string runes
  | EvRevoke string
  | EvAdd Team
  | EvRemove string

fun admin_step :: "admin_event \<Rightarrow> Registry \<Rightarrow> Registry" where
  "admin_step (EvUpdate tid p) r = snd (Update tid p r)"
| "admin_step (EvRotate now tid h masked) r = snd (RotateKey now tid h masked r)"
| "admin_step (EvRevoke tid) r = snd (RevokeKey tid r)"
| "admin_step (EvAdd t) r = snd (Team_Add t r)"
| "admin_step (EvRemove tid) r = snd (Team_Remove tid r)"

definition admin_run :: "admin_event list \<Rightarrow> Registry \<Rightarrow> Registry" where
  "admin_run es r = fold admin_step es r"

text \<open>
  What the registry keeps: a key's digest leads to the team that has it, and every team with
  a key is found by its digest. Only the empty digest is left out.
\<close>

definition registry_wf :: "Registry \<Rightarrow> bool" where
  "registry_wf r \<longleftrightarrow>
     (\<forall>i t. rg_byID r i = Some t \<longrightarrow> tm_ID t = i) \<and>
     (\<forall>h t. h \<noteq> [] \<longrightarrow> (rg_byHash r h = Some t \<longleftrightarrow> rg_byID r (tm_ID t) = Some t \<and> tm_KeyHash t = h))"

lemma wf_id: "registry_wf r \<Longrightarrow> rg_byID r i = Some t \<Longrightarrow> tm_ID t = i"
  by (simp add: registry_wf_def)

lemma wf_hash:
  "registry_wf r \<Longrightarrow> h \<noteq> [] \<Longrightarrow> rg_byHash r h = Some t \<longleftrightarrow> rg_byID r (tm_ID t) = Some t \<and> tm_KeyHash t = h"
  unfolding registry_wf_def by blast

lemma HashKey_nonempty [simp]: "HashKey raw \<noteq> []"
  using length_EncodeToString [of "Sum256 raw"] length_Sum256 [of raw] by (auto simp: HashKey_def)

lemma patch_keeps:
  "TeamPatch_Apply p t = Inr t' \<Longrightarrow> tm_ID t' = tm_ID t \<and> tm_KeyHash t' = tm_KeyHash t"
  by (auto simp: TeamPatch_Apply_def Let_def split: option.splits)

text \<open>
  Every operation replaces, adds or drops the team of one identifier and moves its digest
  along, provided that no other team has the new digest.
\<close>

lemma wf_change:
  assumes wf: "registry_wf r" and id': "rg_byID r' = (rg_byID r)(i := x)"
    and x: "\<And>t. x = Some t \<Longrightarrow> tm_ID t = i"
    and fresh: "\<And>t u. x = Some t \<Longrightarrow> tm_KeyHash t \<noteq> [] \<Longrightarrow> rg_byHash r (tm_KeyHash t) = Some u \<Longrightarrow> tm_ID u = i"
    and hash': "\<And>h. h \<noteq> [] \<Longrightarrow> rg_byHash r' h =
      (if map_option tm_KeyHash x = Some h then x
       else if map_option tm_KeyHash (rg_byID r i) = Some h then None else rg_byHash r h)"
  shows "registry_wf r'"
  unfolding registry_wf_def
proof (intro conjI allI impI)
  fix j t assume "rg_byID r' j = Some t"
  then show "tm_ID t = j" using x wf_id [OF wf] by (auto simp: id' split: if_splits)
next
  fix h :: string and t assume h: "h \<noteq> []"
  consider (new) "map_option tm_KeyHash x = Some h"
    | (old) "map_option tm_KeyHash x \<noteq> Some h" "map_option tm_KeyHash (rg_byID r i) = Some h"
    | (rest) "map_option tm_KeyHash x \<noteq> Some h" "map_option tm_KeyHash (rg_byID r i) \<noteq> Some h" by blast
  then show "rg_byHash r' h = Some t \<longleftrightarrow> rg_byID r' (tm_ID t) = Some t \<and> tm_KeyHash t = h"
  proof cases
    case new
    then obtain u where u: "x = Some u" "tm_KeyHash u = h" "tm_ID u = i" using x by (cases x) auto
    then have "rg_byID r (tm_ID t) = Some t \<and> tm_KeyHash t = h \<Longrightarrow> tm_ID t = i"
      using fresh [OF u(1)] h wf_hash [OF wf h, of t] by simp
    then show ?thesis using u hash' [OF h] new by (auto simp: id')
  next
    case old
    then obtain u where "rg_byID r i = Some u" "tm_KeyHash u = h" by (cases "rg_byID r i") auto
    then have u: "rg_byHash r h = Some u" "tm_ID u = i" using wf_hash [OF wf h, of u] wf_id [OF wf] by auto
    then have "tm_ID t \<noteq> i \<Longrightarrow> \<not> (rg_byID r (tm_ID t) = Some t \<and> tm_KeyHash t = h)"
      using wf_hash [OF wf h, of t] by auto
    then show ?thesis using hash' [OF h] old by (auto simp: id')
  next
    case rest
    have "tm_ID t = i \<Longrightarrow> \<not> (rg_byID r (tm_ID t) = Some t \<and> tm_KeyHash t = h)" using rest(2) by auto
    then show ?thesis using hash' [OF h] rest wf_hash [OF wf h, of t] by (auto simp: id')
  qed
qed

lemma wf_update: "registry_wf r \<Longrightarrow> registry_wf (snd (Update tid p r))"
proof (cases "rg_byID r tid")
  case (Some t)
  assume wf: "registry_wf r"
  show ?thesis
  proof (cases "TeamPatch_Apply p t")
    case (Inr u)
    have "tm_KeyHash t \<noteq> [] \<Longrightarrow> rg_byHash r (tm_KeyHash t) = Some t"
      using wf_hash [OF wf, of "tm_KeyHash t" t] wf_id [OF wf Some] Some by simp
    then have "registry_wf (r\<lparr>rg_byID := (rg_byID r)(tid \<mapsto> u), rg_byHash := (rg_byHash r)(tm_KeyHash u \<mapsto> u)\<rparr>)"
      using patch_keeps [OF Inr] wf_id [OF wf Some] Some
      by (intro wf_change [OF wf, of _ tid "Some u"]) auto
    then show ?thesis by (simp add: Update_def Some Inr)
  qed (simp add: Update_def Some wf)
qed (simp add: Update_def)

lemma wf_rotate_to:
  assumes wf: "registry_wf r" and t: "rg_byID r tid = Some t"
    and h: "h \<noteq> []" "\<And>u. rg_byHash r h = Some u \<Longrightarrow> tm_ID u = tid"
  shows "registry_wf (snd (rotate_to now tid h masked t r))"
proof -
  let ?u = "t\<lparr>tm_KeyHash := h, tm_KeySource := KeySourceRotated, tm_KeyMasked := masked, tm_KeyCreatedAt := Some now\<rparr>"
  show ?thesis
    unfolding rotate_to_def Let_def snd_conv
  proof (rule wf_change [OF wf, of _ tid "Some ?u"], goal_cases)
    case (2 v)
    then show ?case using wf_id [OF wf t] by auto
  next
    case (3 v w)
    then show ?case using h(2) [of w] by auto
  next
    case (4 k)
    then show ?case using t by simp
  qed simp
qed

lemma wf_rotate:
  assumes wf: "registry_wf r"
  shows "registry_wf (snd (RotateKey now tid h masked r))"
proof (cases "rg_byID r tid")
  case None
  then show ?thesis using wf by (simp add: RotateKey_def)
next
  case (Some t)
  show ?thesis
  proof (cases "h = [] \<or> (\<exists>u. rg_byHash r h = Some u \<and> tm_ID u \<noteq> tid)")
    case True
    then show ?thesis using wf Some by (auto simp: RotateKey_def)
  next
    case False
    then have "snd (RotateKey now tid h masked r) = snd (rotate_to now tid h masked t r)"
      using Some by (auto simp: RotateKey_def split: option.splits)
    then show ?thesis using wf_rotate_to [OF wf Some] False by auto
  qed
qed

lemma wf_revoke: "registry_wf r \<Longrightarrow> registry_wf (snd (RevokeKey tid r))"
proof (cases "rg_byID r tid")
  case (Some t)
  assume wf: "registry_wf r"
  let ?u = "t\<lparr>tm_KeyHash := [], tm_KeySource := KeySourceRevoked, tm_KeyMasked := [], tm_KeyCreatedAt := None\<rparr>"
  show ?thesis
    unfolding RevokeKey_def Some option.case Let_def snd_conv using wf_id [OF wf Some] Some
    by (intro wf_change [OF wf, of _ tid "Some ?u"]) auto
qed (simp add: RevokeKey_def)

lemma wf_add:
  assumes wf: "registry_wf r"
  shows "registry_wf (snd (Team_Add t r))"
proof (cases "rg_byID r (tm_ID t) \<noteq> None \<or> (tm_KeyHash t \<noteq> [] \<and> rg_byHash r (tm_KeyHash t) \<noteq> None)")
  case True
  then show ?thesis using wf by (auto simp: Team_Add_def split: option.splits)
next
  case False
  then have "snd (Team_Add t r) = r\<lparr>rg_byID := (rg_byID r)(tm_ID t \<mapsto> t),
      rg_byHash := (if tm_KeyHash t \<noteq> [] then (rg_byHash r)(tm_KeyHash t \<mapsto> t) else rg_byHash r)\<rparr>"
    by (auto simp: Team_Add_def)
  note eq = this
  show ?thesis
    unfolding eq
  proof (rule wf_change [OF wf, of _ "tm_ID t" "Some t"], goal_cases)
    case (3 u w)
    then show ?case using False by simp
  next
    case (4 h)
    then show ?case using False by simp
  qed simp_all
qed

lemma wf_remove: "registry_wf r \<Longrightarrow> registry_wf (snd (Team_Remove tid r))"
proof (cases "rg_byID r tid")
  case (Some t)
  assume wf: "registry_wf r"
  show ?thesis
    unfolding Team_Remove_def Some option.case snd_conv using Some
    by (intro wf_change [OF wf, of _ tid None]) auto
qed (simp add: Team_Remove_def)

lemma index_teams_wf:
  assumes "registry_wf r" "index_teams ts r = Inr r'"
    and "distinct (map tm_ID ts)" "\<forall>t \<in> set ts. rg_byID r (tm_ID t) = None"
  shows "registry_wf r'"
  using assms
proof (induction ts arbitrary: r)
  case (Cons t ts)
  let ?r = "snd (Team_Add t r)"
  have fresh: "\<not> (tm_KeyHash t \<noteq> [] \<and> rg_byHash r (tm_KeyHash t) \<noteq> None)"
    using Cons.prems(2) by (auto simp: Let_def split: if_splits option.splits)
  then have "index_teams (t # ts) r = index_teams ts ?r"
    using Cons.prems(4) by (auto simp: Team_Add_def Let_def)
  moreover have "\<forall>u \<in> set ts. tm_ID u \<noteq> tm_ID t"
    using Cons.prems(3) by (metis distinct.simps(2) image_eqI list.set_map list.simps(9))
  then have "\<forall>u \<in> set ts. rg_byID ?r (tm_ID u) = None"
    using fresh Cons.prems(4) by (auto simp: Team_Add_def)
  ultimately show ?case using Cons.IH [of ?r] Cons.prems wf_add [of r t] by simp
qed simp

lemma admin_run_wf: "registry_wf r \<Longrightarrow> registry_wf (admin_run es r)"
proof (induction es arbitrary: r)
  case (Cons e es)
  have "registry_wf (admin_step e r)"
    using Cons.prems wf_update wf_rotate wf_revoke wf_add wf_remove by (cases e) simp_all
  then show ?case using Cons.IH by (simp add: admin_run_def)
qed (simp add: admin_run_def)

section \<open>Properties of the registry\<close>

lemma Authenticate_iff:
  assumes "registry_wf r"
  shows "Authenticate r k = Inr t \<longleftrightarrow> rg_byID r (tm_ID t) = Some t \<and> tm_KeyHash t = HashKey k"
proof -
  note iff = wf_hash [OF assms HashKey_nonempty]
  have "Authenticate r k = Inr t \<longleftrightarrow> rg_byHash r (HashKey k) = Some t"
  proof (cases "rg_byHash r (HashKey k)")
    case (Some u)
    then have "tm_KeyHash u = HashKey k" using iff by blast
    then show ?thesis using Some by (simp add: Authenticate_def)
  qed (simp add: Authenticate_def)
  then show ?thesis using iff by simp
qed

lemma Authenticate_some: "registry_wf r \<Longrightarrow> Authenticate r k = Inl e \<Longrightarrow> e = ErrUnknownKey"
  by (auto simp: Authenticate_def split: option.splits if_splits)

lemma registry_built:
  assumes "NewTeamRegistry teams = Inr r0" "distinct (map tm_ID teams)"
  shows "registry_wf (admin_run es r0)"
proof -
  have "registry_wf \<lparr>rg_byHash = Map.empty, rg_byID = Map.empty\<rparr>" by (simp add: registry_wf_def)
  then have "registry_wf r0" using index_teams_wf assms by (simp add: NewTeamRegistry_def)
  then show ?thesis by (rule admin_run_wf)
qed

text \<open>
  C14. A key identifies one team: in a registry built from teams with distinct identifiers and
  administered in any way, a key authenticates a team exactly when the registry has that team
  and stores the digest of that key for it, and no two teams share a digest.
\<close>

theorem key_identifies_team:
  assumes "NewTeamRegistry teams = Inr r0" "distinct (map tm_ID teams)" "r = admin_run es r0"
  shows "(Authenticate r k = Inr t \<longleftrightarrow> rg_byID r (tm_ID t) = Some t \<and> tm_KeyHash t = HashKey k) \<and>
    (\<forall>i j u v. rg_byID r i = Some u \<longrightarrow> rg_byID r j = Some v \<longrightarrow> tm_KeyHash u = tm_KeyHash v \<longrightarrow>
       tm_KeyHash u \<noteq> [] \<longrightarrow> i = j)"
proof -
  have wf: "registry_wf r" unfolding assms(3) using assms(1,2) by (rule registry_built)
  have "i = j" if "rg_byID r i = Some u" "rg_byID r j = Some v" "tm_KeyHash u = tm_KeyHash v" "tm_KeyHash u \<noteq> []" for i j u v
    using that wf_id [OF wf that(1)] wf_id [OF wf that(2)] wf_hash [OF wf that(4), of u] wf_hash [OF wf that(4), of v] by simp
  then show ?thesis using Authenticate_iff [OF wf] by blast
qed

definition acme :: Team where
  "acme = \<lparr>tm_ID = ''acme'', tm_Name = ascii ''Acme'', tm_OrganizationID = ''default'', tm_KeyHash = HashKey ''k'',
     tm_AllowedProviders = [''groq''], tm_AllowedModels = [''m''], tm_RateLimits = \<lparr>rl_RPM = 60, rl_TPM = 1000\<rparr>,
     tm_MonthlyBudgetMicros = 1000000, tm_Priority = PriorityRealtime, tm_IsAdmin = False, tm_CacheIsolated = False,
     tm_KeySource = KeySourceConfig, tm_KeyMasked = [], tm_KeyCreatedAt = None\<rparr>"

definition acme_registry :: Registry where
  "acme_registry = \<lparr>rg_byHash = [HashKey ''k'' \<mapsto> acme], rg_byID = [''acme'' \<mapsto> acme]\<rparr>"

lemma acme_built: "NewTeamRegistry [acme] = Inr acme_registry"
  by (simp add: NewTeamRegistry_def acme_registry_def Let_def acme_def)

theorem key_identifies_team_witness: "Authenticate acme_registry ''k'' = Inr acme"
  using key_identifies_team [OF acme_built, of acme_registry "[]" "''k''" acme]
  by (simp add: admin_run_def acme_registry_def acme_def)

lemma rotate_ok:
  "RotateKey now tid h masked r = (Inr t', r') \<Longrightarrow> rg_byID r tid = Some t \<Longrightarrow>
     rg_byID r' = (rg_byID r)(tid \<mapsto> t') \<and> tm_KeyHash t' = h \<and> tm_ID t' = tm_ID t"
  "fst (RotateKey now tid h masked r) = Inl e \<Longrightarrow> snd (RotateKey now tid h masked r) = r"
  by (auto simp: RotateKey_def rotate_to_def Let_def split: option.splits if_splits)

lemma others_keep:
  assumes "registry_wf r" "registry_wf r'" "\<And>i. i \<noteq> tid \<Longrightarrow> rg_byID r' i = rg_byID r i" "tm_ID u \<noteq> tid"
  shows "Authenticate r' k = Inr u \<longleftrightarrow> Authenticate r k = Inr u"
  using assms Authenticate_iff by simp

text \<open>
  C15. A change of keys takes effect with the next request and for that team alone: after a
  rotation the new key authenticates the team and any key with another digest does not, after
  a revocation or a removal no key does, and the other teams' keys work as before.
\<close>

theorem rotation_takes_effect:
  assumes "registry_wf r" "rg_byID r tid = Some t"
  shows "(RotateKey now tid (HashKey new) masked r = (Inr t', r') \<longrightarrow>
      Authenticate r' new = Inr t' \<and> tm_ID t' = tid \<and>
      (\<forall>k u. HashKey k \<noteq> HashKey new \<longrightarrow> Authenticate r' k = Inr u \<longrightarrow> tm_ID u \<noteq> tid)) \<and>
    (\<forall>k u. Authenticate (snd (RevokeKey tid r)) k = Inr u \<longrightarrow> tm_ID u \<noteq> tid) \<and>
    (\<forall>k u. Authenticate (snd (Team_Remove tid r)) k = Inr u \<longrightarrow> tm_ID u \<noteq> tid) \<and>
    (\<forall>r'' k u. tm_ID u \<noteq> tid \<longrightarrow>
       r'' \<in> {snd (RotateKey now tid (HashKey new) masked r), snd (RevokeKey tid r), snd (Team_Remove tid r)} \<longrightarrow>
       Authenticate r'' k = Inr u \<longleftrightarrow> Authenticate r k = Inr u)"
proof -
  note wf = assms(1) and wfs = wf_rotate [OF assms(1)] wf_revoke [OF assms(1)] wf_remove [OF assms(1)]
  note ids = wf_id [OF assms]
  have rot: "Authenticate r' new = Inr t' \<and> tm_ID t' = tid \<and>
      (\<forall>k u. HashKey k \<noteq> HashKey new \<longrightarrow> Authenticate r' k = Inr u \<longrightarrow> tm_ID u \<noteq> tid)"
    if r': "RotateKey now tid (HashKey new) masked r = (Inr t', r')"
  proof -
    have "registry_wf r'" using wfs(1) [of now tid "HashKey new" masked] r' by simp
    then show ?thesis using rotate_ok(1) [OF r' assms(2)] ids by (auto simp: Authenticate_iff)
  qed
  have rem: "tm_ID u \<noteq> tid" if "Authenticate (snd (RevokeKey tid r)) k = Inr u \<or> Authenticate (snd (Team_Remove tid r)) k = Inr u" for k u
  proof -
    have "map_option tm_KeyHash (rg_byID (snd (RevokeKey tid r)) tid) = Some []" "rg_byID (snd (Team_Remove tid r)) tid = None"
      using assms(2) by (simp_all add: RevokeKey_def Team_Remove_def Let_def)
    then show ?thesis
      using that Authenticate_iff [OF wfs(2), of tid k u] Authenticate_iff [OF wfs(3), of tid k u] HashKey_nonempty [THEN not_sym, of k]
      by auto
  qed
  have rot': "rg_byID (snd (RotateKey now tid (HashKey new) masked r)) i = rg_byID r i" if "i \<noteq> tid" for i
    using that assms(2) by (auto simp: RotateKey_def rotate_to_def Let_def split: option.splits)
  have rem': "rg_byID (snd (RevokeKey tid r)) i = rg_byID r i" "rg_byID (snd (Team_Remove tid r)) i = rg_byID r i"
    if "i \<noteq> tid" for i using that assms(2) by (auto simp: RevokeKey_def Team_Remove_def Let_def)
  have same: "registry_wf r'' \<and> (\<forall>i. i \<noteq> tid \<longrightarrow> rg_byID r'' i = rg_byID r i)"
    if "r'' \<in> {snd (RotateKey now tid (HashKey new) masked r), snd (RevokeKey tid r), snd (Team_Remove tid r)}" for r''
    using that wfs by (auto simp: rot' rem')
  have "Authenticate r'' k = Inr u \<longleftrightarrow> Authenticate r k = Inr u" if "tm_ID u \<noteq> tid"
    "r'' \<in> {snd (RotateKey now tid (HashKey new) masked r), snd (RevokeKey tid r), snd (Team_Remove tid r)}" for r'' k u
    using others_keep [OF wf _ _ that(1)] same [OF that(2)] by blast
  then show ?thesis using rot rem by blast
qed

lemma acme_wf: "registry_wf acme_registry"
  using registry_built [OF acme_built, of "[]"] by (simp add: admin_run_def)

theorem rotation_takes_effect_witness:
  "Authenticate (snd (RevokeKey ''acme'' acme_registry)) ''k'' \<noteq> Inr acme \<and>
   (\<exists>t. Authenticate (snd (RotateKey 0 ''acme'' (HashKey ''n'') [] acme_registry)) ''n'' = Inr t)"
proof -
  have t: "rg_byID acme_registry ''acme'' = Some acme" "tm_ID acme = ''acme''"
    by (simp_all add: acme_registry_def acme_def)
  obtain t' r' where r: "RotateKey 0 ''acme'' (HashKey ''n'') [] acme_registry = (Inr t', r')"
    using t(2) by (cases "HashKey ''n'' = HashKey ''k''")
      (simp_all add: RotateKey_def acme_registry_def rotate_to_def Let_def)
  note facts = rotation_takes_effect [OF acme_wf t(1), of 0 "''n''" "[]" t' r']
  have "Authenticate r' ''n'' = Inr t'" using facts [THEN conjunct1] r by blast
  moreover have "Authenticate (snd (RevokeKey ''acme'' acme_registry)) ''k'' \<noteq> Inr acme"
    using facts [THEN conjunct2, THEN conjunct1] t(2) by blast
  ultimately show ?thesis by (simp add: r)
qed

section \<open>Identifiers\<close>

definition slug_wf :: "runes \<Rightarrow> bool" where
  "slug_wf b \<longleftrightarrow> (\<forall>c \<in> set b. isAlnum c \<or> c = 45) \<and> (b \<noteq> [] \<longrightarrow> isAlnum (hd b) \<and> isAlnum (last b)) \<and>
     successively (\<lambda>x y. \<not> (x = 45 \<and> y = 45)) b"

lemma hyphen_not_alnum [simp]: "\<not> isAlnum 45" by (simp add: isAlnum_def)

lemma slug_fold:
  "fold slug_step ys (b, p) = (b', p') \<Longrightarrow> slug_wf b \<Longrightarrow> (p \<longrightarrow> b \<noteq> []) \<Longrightarrow>
     slug_wf b' \<and> (b' = [] \<longleftrightarrow> b = [] \<and> list_all (\<lambda>c. \<not> isAlnum c) ys)"
proof (induction ys arbitrary: b p)
  case (Cons y ys)
  obtain b1 p1 where s: "slug_step y (b, p) = (b1, p1)" by (rule prod.exhaust)
  have "slug_wf b1 \<and> (p1 \<longrightarrow> b1 \<noteq> []) \<and> (b1 = [] \<longleftrightarrow> b = [] \<and> \<not> isAlnum y)"
    using s Cons.prems(2,3) by (auto simp: slug_wf_def successively_append_iff hd_append split: if_splits)
  then show ?case using Cons.IH [of b1 p1] Cons.prems(1) s by auto
qed simp

lemma slug_cut:
  assumes "slug_wf b" "n < length b" "0 < n"
  shows "slug_wf (rev (dropWhile (\<lambda>c. c = 45) (rev (take n b)))) \<and> rev (dropWhile (\<lambda>c. c = 45) (rev (take n b))) \<noteq> []"
proof -
  let ?t = "take n b"
  let ?r = "rev (dropWhile (\<lambda>c. c = 45) (rev ?t))"
  obtain zs where t: "?t = ?r @ zs"
    by (metis rev_append rev_rev_ident takeWhile_dropWhile_id)
  have b: "b \<noteq> []" "hd ?t = hd b" "?t \<noteq> []" using assms(2,3) by (cases b; cases n; simp)+
  have ne: "?r \<noteq> []"
  proof
    assume "?r = []"
    then have "\<forall>c \<in> set ?t. c = 45" by (simp add: dropWhile_eq_Nil_conv)
    then have "hd b = 45" using b hd_in_set [of ?t] by metis
    then show False using assms(1) b(1) by (simp add: slug_wf_def)
  qed
  have "\<not> (last ?r = 45)" using ne hd_dropWhile [of "\<lambda>c. c = 45" "rev ?t"] by (simp add: last_rev)
  moreover have sub: "set ?r \<subseteq> set b" by (metis t Un_upper1 order_trans set_append set_take_subset)
  ultimately have "isAlnum (last ?r)" using ne last_in_set [OF ne] assms(1) unfolding slug_wf_def by blast
  moreover have "isAlnum (hd ?r)" using b ne t assms(1) by (metis hd_append2 slug_wf_def)
  moreover have "successively (\<lambda>x y. \<not> (x = 45 \<and> y = 45)) ?r"
  proof -
    have "b = ?r @ (zs @ drop n b)" using t by (metis append.assoc append_take_drop_id)
    then show ?thesis using assms(1) successively_append_iff unfolding slug_wf_def by metis
  qed
  ultimately show ?thesis using ne sub assms(1) unfolding slug_wf_def by blast
qed

lemma slug_again:
  assumes "slug_wf b"
  shows "fold slug_step (map lower b) ([], False) = (b, False)"
proof -
  have same: "lower c = c" if "c \<in> set b" for c
    using that assms by (fastforce simp: slug_wf_def isAlnum_def lower_def)
  have "fold slug_step xs ([], False) = (if xs \<noteq> [] \<and> last xs = 45 then (butlast xs, True) else (xs, False))"
    if "xs @ zs = b" for xs zs
    using that
  proof (induction xs arbitrary: zs rule: rev_induct)
    case (snoc x xs)
    have x: "isAlnum x \<or> x = 45" using assms snoc.prems by (auto simp: slug_wf_def)
    show ?case
    proof (cases "xs = []")
      case True
      then have "isAlnum x" using assms snoc.prems by (auto simp: slug_wf_def)
      then show ?thesis using True by (auto simp: isAlnum_def)
    next
      case False
      then have "\<not> (last xs = 45 \<and> x = 45)"
        using assms snoc.prems by (auto simp: slug_wf_def successively_append_iff)
      moreover have "last xs = 45 \<Longrightarrow> butlast xs @ [45] = xs" using False by (metis append_butlast_last_id)
      ultimately show ?thesis using snoc.IH [of "x # zs"] snoc.prems x False assms
        by (auto simp: slug_wf_def butlast_append)
    qed
  qed simp
  from this [of b "[]"] show ?thesis using assms same by (auto simp: slug_wf_def map_idI)
qed

text \<open>
  C39. A team identifier derived from any display name has at most 48 characters, only lower
  case letters, digits and single inner hyphens, is a fixed point of the derivation, and is
  empty exactly when the name has no letter or digit to keep.
\<close>

theorem Slug_wellformed:
  "length (Slug name) \<le> maxIDLength \<and> slug_wf (Slug name) \<and> Slug (Slug name) = Slug name \<and>
   (Slug name = [] \<longleftrightarrow> list_all (\<lambda>c. \<not> isAlnum (lower c)) name)"
proof -
  obtain b p where f: "fold slug_step (map lower name) ([], False) = (b, p)" by (rule prod.exhaust)
  have b: "slug_wf b" "b = [] \<longleftrightarrow> list_all (\<lambda>c. \<not> isAlnum (lower c)) name"
    using slug_fold [OF f] by (auto simp: slug_wf_def list_all_iff)
  let ?r = "rev (dropWhile (\<lambda>c. c = 45) (rev (take maxIDLength b)))"
  have cut: "slug_wf ?r" "?r \<noteq> []" if "maxIDLength < length b"
    using slug_cut [OF b(1) that] by (simp_all add: maxIDLength_def)
  have len: "length ?r \<le> maxIDLength"
    by (metis length_dropWhile_le length_rev length_take min.bounded_iff order_trans min.cobounded2 min.cobounded1)
  have eq: "Slug name = (if maxIDLength < length b then ?r else b)" by (simp add: Slug_def f)
  then have wf: "slug_wf (Slug name)" "length (Slug name) \<le> maxIDLength" using b cut len by auto
  then have "Slug (Slug name) = Slug name" by (subst Slug_def) (simp add: slug_again)
  then show ?thesis using wf eq b cut(2) by (auto simp: maxIDLength_def)
qed

end
