(* ===== verification/Budget.thy ===== *)
theory Budget
  imports Redis
begin

text \<open>
  Spend: the pricing of \<open>internal/budget/cost.go\<close> and the monthly counters of
  \<open>internal/budget/tracker.go\<close>, which reserve an estimate before a call and settle it to the
  actual cost afterwards. Amounts are micro-dollars in 64-bit integers; the calendar is the
  proleptic Gregorian one in UTC, as in Go's \<open>time\<close> package.
\<close>

section \<open>Cost\<close>

definition microsPerUnit :: int where
  "microsPerUnit = 1000000"

record Pricing =
  InputPer1M :: int
  OutputPer1M :: int

type_synonym Calculator = "string \<Rightarrow> Pricing option"

datatype BudgetError = NoPricing string | BadCap int | BadEstimate int | BadActual int | StoreFailed

definition Cost :: "Calculator \<Rightarrow> string \<Rightarrow> int \<Rightarrow> int \<Rightarrow> BudgetError + int" where
  "Cost pricing model inputTokens outputTokens =
     (case pricing model of
        None \<Rightarrow> Inl (NoPricing model)
      | Some p \<Rightarrow>
          Inr (tdiv (i64 (i64 (inputTokens * InputPer1M p) + i64 (outputTokens * OutputPer1M p))) microsPerUnit))"

section \<open>The calendar\<close>

text \<open>An instant as \<open>UTC()\<close> presents it: year, month 1-12, day of the month and time of day.\<close>

record civil =
  cv_year :: int
  cv_month :: int
  cv_day :: int
  cv_nanos :: int

definition leap_year :: "int \<Rightarrow> bool" where
  "leap_year y \<longleftrightarrow> y mod 4 = 0 \<and> (y mod 100 \<noteq> 0 \<or> y mod 400 = 0)"

definition days_before_month :: "int \<Rightarrow> int \<Rightarrow> int" where
  "days_before_month y m =
     [0, 31, 59, 90, 120, 151, 181, 212, 243, 273, 304, 334] ! nat (m - 1)
       + (if m > 2 \<and> leap_year y then 1 else 0)"

definition days_before_year :: "int \<Rightarrow> int" where
  "days_before_year y = 365 * (y - 1) + (y - 1) div 4 - (y - 1) div 100 + (y - 1) div 400"

text \<open>Days since the first of January of the year 1.\<close>

definition abs_days :: "int \<Rightarrow> int \<Rightarrow> int \<Rightarrow> int" where
  "abs_days y m d = days_before_year y + days_before_month y m + d - 1"

definition days_in_month :: "int \<Rightarrow> int \<Rightarrow> int" where
  "days_in_month y m =
     (if m = 2 then (if leap_year y then 29 else 28)
      else if m \<in> {4, 6, 9, 11} then 30 else 31)"

definition civil_wf :: "civil \<Rightarrow> bool" where
  "civil_wf t \<longleftrightarrow> 1 \<le> cv_year t \<and> cv_year t \<le> 9999 \<and> 1 \<le> cv_month t \<and> cv_month t \<le> 12 \<and>
     1 \<le> cv_day t \<and> cv_day t \<le> days_in_month (cv_year t) (cv_month t) \<and>
     0 \<le> cv_nanos t \<and> cv_nanos t < 24 * hour"

definition abs_nanos :: "civil \<Rightarrow> instant" where
  "abs_nanos t = abs_days (cv_year t) (cv_month t) (cv_day t) * (24 * hour) + cv_nanos t"

text \<open>The first instant of the month, and \<open>AddDate(0, 1, 0)\<close> on it, which carries into the year.\<close>

definition month_start :: "civil \<Rightarrow> civil" where
  "month_start t = \<lparr>cv_year = cv_year t, cv_month = cv_month t, cv_day = 1, cv_nanos = 0\<rparr>"

definition add_month :: "civil \<Rightarrow> civil" where
  "add_month t =
     (if cv_month t = 12 then t\<lparr>cv_year := cv_year t + 1, cv_month := 1\<rparr>
      else t\<lparr>cv_month := cv_month t + 1\<rparr>)"

definition currentPeriod :: "civil \<Rightarrow> string" where
  "currentPeriod now = pad_left 4 (CHR ''0'') (show_int (cv_year now)) @ ''-'' @
     pad_left 2 (CHR ''0'') (show_int (cv_month now))"

definition periodGrace :: duration where
  "periodGrace = 48 * hour"

definition ttlUntilPeriodEnd :: "civil \<Rightarrow> duration" where
  "ttlUntilPeriodEnd now = abs_nanos (add_month (month_start now)) - abs_nanos now + periodGrace"

definition periodKey :: "string \<Rightarrow> string \<Rightarrow> string" where
  "periodKey teamID period = ''switchyard:budget'' @ '':'' @ teamID @ '':'' @ period"

section \<open>The tracker\<close>

definition reserveScript ::
  "'r redis_api \<Rightarrow> string \<Rightarrow> int \<Rightarrow> int \<Rightarrow> int \<Rightarrow> 'r \<Rightarrow> (int \<times> int) option \<times> 'r" where
  "reserveScript R key cap amount ttl_sec r =
     (let is_new = \<not> rEXISTS R r key in
      case rINCRBY R key amount r of
        (None, r1) \<Rightarrow> (None, r1)
      | (Some tot, r1) \<Rightarrow>
          (let r2 = (if is_new then rPEXPIRE R key (ttl_sec * 1000) r1 else r1) in
           if tot > cap then
             (case rINCRBY R key (- amount) r2 of
                (None, r3) \<Rightarrow> (None, r3)
              | (Some _, r3) \<Rightarrow> (Some (0, tot - amount), r3))
           else (Some (1, tot), r2)))"

record BudgetResult =
  bud_Allowed :: bool
  bud_SpentMicros :: int

record BudgetReservation =
  br_teamID :: string
  br_period :: string
  br_reserved :: int

definition BudgetReserve ::
  "'r redis_api \<Rightarrow> rpc \<Rightarrow> civil \<Rightarrow> string \<Rightarrow> int \<Rightarrow> int \<Rightarrow> 'r \<Rightarrow>
   BudgetReservation option \<times> (BudgetError + BudgetResult) \<times> 'r" where
  "BudgetReserve R net now teamID capMicros estimatedMicros r =
     (if capMicros \<le> 0 then (None, Inl (BadCap capMicros), r)
      else if estimatedMicros < 0 then (None, Inl (BadEstimate estimatedMicros), r)
      else
        (let period = currentPeriod now in
         case rcall net (reserveScript R (periodKey teamID period) capMicros estimatedMicros
                (tdiv (ttlUntilPeriodEnd now) second)) r of
           (None, r') \<Rightarrow> (None, Inl StoreFailed, r')
         | (Some (allowed, spent), r') \<Rightarrow>
             (if allowed \<noteq> 1
              then (None, Inr \<lparr>bud_Allowed = False, bud_SpentMicros = spent\<rparr>, r')
              else (Some \<lparr>br_teamID = teamID, br_period = period, br_reserved = estimatedMicros\<rparr>,
                    Inr \<lparr>bud_Allowed = True, bud_SpentMicros = spent\<rparr>, r'))))"

definition BudgetReconcile ::
  "'r redis_api \<Rightarrow> rpc \<Rightarrow> BudgetReservation option \<Rightarrow> int \<Rightarrow> 'r \<Rightarrow> BudgetError option \<times> 'r" where
  "BudgetReconcile R net rsv actualMicros r =
     (case rsv of
        None \<Rightarrow> (None, r)
      | Some v \<Rightarrow>
          (if actualMicros < 0 then (Some (BadActual actualMicros), r)
           else (let delta = i64 (actualMicros - br_reserved v) in
             if delta = 0 then (None, r)
             else (case rcall net (rINCRBY R (periodKey (br_teamID v) (br_period v)) delta) r of
                     (None, r') \<Rightarrow> (Some StoreFailed, r')
                   | (Some _, r') \<Rightarrow> (None, r')))))"

definition BudgetReserved :: "BudgetReservation option \<Rightarrow> int" where
  "BudgetReserved rsv = (case rsv of None \<Rightarrow> 0 | Some v \<Rightarrow> br_reserved v)"

text \<open>The integer a stored value is read as; \<^term>\<open>None\<close> where \<open>Int64()\<close> reports an error.\<close>

definition as_int64 :: "rval \<Rightarrow> int option" where
  "as_int64 v = (case integral v of Some n \<Rightarrow> (if in_i64 n then Some n else None) | None \<Rightarrow> None)"

definition Spent :: "'r redis_api \<Rightarrow> rpc \<Rightarrow> civil \<Rightarrow> string \<Rightarrow> 'r \<Rightarrow> BudgetError + int" where
  "Spent R net now teamID r =
     (if net \<noteq> Delivered then Inl StoreFailed
      else case rGET R r (periodKey teamID (currentPeriod now)) of
        None \<Rightarrow> (if rEXISTS R r (periodKey teamID (currentPeriod now)) then Inl StoreFailed else Inr 0)
      | Some v \<Rightarrow> (case as_int64 v of None \<Rightarrow> Inl StoreFailed | Some n \<Rightarrow> Inr n))"

definition BudgetReset :: "'r redis_api \<Rightarrow> rpc \<Rightarrow> civil \<Rightarrow> string \<Rightarrow> 'r \<Rightarrow> BudgetError option \<times> 'r" where
  "BudgetReset R net now teamID r =
     (case rcall net (\<lambda>r. (Some (), rDEL R (periodKey teamID (currentPeriod now)) r)) r of
        (None, r') \<Rightarrow> (Some StoreFailed, r')
      | (Some _, r') \<Rightarrow> (None, r'))"

section \<open>What a spend counter stands for\<close>

definition counter_spent :: "'r redis_api \<Rightarrow> string \<Rightarrow> 'r \<Rightarrow> int" where
  "counter_spent R key r = (case rGET R r key of Some (RNum q) \<Rightarrow> \<lfloor>q\<rfloor> | _ \<Rightarrow> 0)"

definition counter_wf :: "'r redis_api \<Rightarrow> string \<Rightarrow> 'r \<Rightarrow> bool" where
  "counter_wf R key r \<longleftrightarrow>
     \<not> rEXISTS R r key \<or> (\<exists>n. rGET R r key = Some (RNum (of_int n)) \<and> in_i64 n)"

context redis_server
begin

lemma incr_counter:
  assumes "counter_wf R key r" "in_i64 d"
  shows "rINCRBY R key d r =
      (if in_i64 (counter_spent R key r + d) then (Some (counter_spent R key r + d), snd (rINCRBY R key d r))
       else (None, r))"
proof (cases "rEXISTS R r key")
  case True
  then obtain n where n: "rGET R r key = Some (RNum (of_int n))" using assms by (auto simp: counter_wf_def)
  then show ?thesis
    using incrby_number [OF n, of d] incrby_overflow [OF n, of d] incrby_failed [of key d r]
    by (cases "rINCRBY R key d r") (auto simp: counter_spent_def)
next
  case False
  then show ?thesis using assms incrby_missing [OF False, of d]
    by (cases "rINCRBY R key d r") (auto simp: counter_spent_def get_absent)
qed

lemma incr_stored:
  assumes "counter_wf R key r" "in_i64 d" "in_i64 (counter_spent R key r + d)"
  shows "rGET R (snd (rINCRBY R key d r)) key = Some (RNum (of_int (counter_spent R key r + d)))"
proof -
  have "fst (rINCRBY R key d r) = Some (counter_spent R key r + d)"
    using incr_counter [OF assms(1,2)] assms(3) by (metis fst_conv)
  then show ?thesis by (simp only: incrby_stored simp_thms if_True)
qed

lemma spent_of_get: "rGET R r key = Some (RNum (of_int n)) \<Longrightarrow> counter_spent R key r = n"
  by (simp add: counter_spent_def)

lemma wf_of_get: "rGET R r key = Some (RNum (of_int n)) \<Longrightarrow> in_i64 n \<Longrightarrow> counter_wf R key r"
  by (simp add: counter_wf_def)

lemma spent_in_i64: "counter_wf R key r \<Longrightarrow> in_i64 (counter_spent R key r)"
  by (auto simp: counter_wf_def counter_spent_def get_absent in_i64_def)

text \<open>
  One delivered \<open>reserveScript\<close>: the amount is added when the total fits the cap, and the
  counter stands where it stood when it does not or when the addition overflows.
\<close>

lemma reserveScript_outcome:
  assumes "counter_wf R key r" "0 \<le> a" "in_i64 a" "0 < ttl" "in_i64 cap"
  shows "counter_wf R key (snd (reserveScript R key cap a ttl r))"
    "fst (reserveScript R key cap a ttl r) =
      (if \<not> in_i64 (counter_spent R key r + a) then None
       else Some (if counter_spent R key r + a \<le> cap then (1, counter_spent R key r + a)
                  else (0, counter_spent R key r)))"
    "counter_spent R key (snd (reserveScript R key cap a ttl r)) =
      (if counter_spent R key r + a \<le> cap then counter_spent R key r + a else counter_spent R key r)"
proof -
  let ?s = "counter_spent R key r"
  note incr = incr_counter [OF assms(1,3)] and s = spent_in_i64 [OF assms(1)]
  have na: "in_i64 (- a)" using assms by (auto simp: in_i64_def)
  have goal: "counter_wf R key (snd (reserveScript R key cap a ttl r)) \<and>
    fst (reserveScript R key cap a ttl r) =
      (if \<not> in_i64 (?s + a) then None else Some (if ?s + a \<le> cap then (1, ?s + a) else (0, ?s))) \<and>
    counter_spent R key (snd (reserveScript R key cap a ttl r)) = (if ?s + a \<le> cap then ?s + a else ?s)"
  proof (cases "in_i64 (?s + a)")
    case False
    then have "reserveScript R key cap a ttl r = (None, r)" using incr by (simp add: reserveScript_def)
    moreover have "\<not> ?s + a \<le> cap" using False assms s by (auto simp: in_i64_def)
    ultimately show ?thesis using False assms by simp
  next
    case True
    then obtain r1 where r1: "rINCRBY R key a r = (Some (?s + a), r1)" using incr by metis
    define r2 where "r2 = (if \<not> rEXISTS R r key then rPEXPIRE R key (ttl * 1000) r1 else r1)"
    have get2: "rGET R r2 key = Some (RNum (of_int (?s + a)))"
      using incr_stored [OF assms(1,3) True] assms(4) by (simp add: get_pexpire r1 r2_def)
    note wf2 = wf_of_get [OF get2 True] and s2 = spent_of_get [OF get2]
    have undo: "in_i64 (counter_spent R key r2 + - a)" using s2 s by simp
    then obtain r3 where r3: "rINCRBY R key (- a) r2 = (Some ?s, r3)"
      using incr_counter [OF wf2 na] s2 by (metis add_diff_cancel_right' diff_conv_add_uminus)
    have get3: "rGET R r3 key = Some (RNum (of_int ?s))"
      using incr_stored [OF wf2 na undo] s2 r3 by simp
    have "reserveScript R key cap a ttl r =
        (if ?s + a > cap then (Some (0, ?s), r3) else (Some (1, ?s + a), r2))"
      by (simp add: reserveScript_def Let_def r1 r2_def [symmetric] r3)
    then show ?thesis using True wf2 s2 get3 wf_of_get [OF get3 s] spent_of_get [OF get3] by simp
  qed
  then show "counter_wf R key (snd (reserveScript R key cap a ttl r))"
    "fst (reserveScript R key cap a ttl r) =
      (if \<not> in_i64 (?s + a) then None else Some (if ?s + a \<le> cap then (1, ?s + a) else (0, ?s)))"
    "counter_spent R key (snd (reserveScript R key cap a ttl r)) = (if ?s + a \<le> cap then ?s + a else ?s)"
    by blast+
qed

end

section \<open>The calendar and the lifetime of a counter\<close>

lemma div_pred:
  assumes k: "0 < (k :: int)"
  shows "y div k = (y - 1) div k + (if y mod k = 0 then 1 else 0)"
proof -
  have y: "y = k * (y div k) + y mod k" by simp
  show ?thesis
  proof (cases "y mod k = 0")
    case True
    have "y - 1 = k * (y div k - 1) + (k - 1)" using y True by (simp add: right_diff_distrib)
    then have "(y - 1) div k = y div k - 1" by (rule int_div_pos_eq) (use k in simp_all)
    then show ?thesis using True by simp
  next
    case False
    have "y - 1 = k * (y div k) + (y mod k - 1)" using y by linarith
    moreover have "0 \<le> y mod k - 1" "y mod k - 1 < k"
      using False pos_mod_sign [OF k, of y] pos_mod_bound [OF k, of y] by linarith+
    ultimately have "(y - 1) div k = y div k" by (rule int_div_pos_eq)
    then show ?thesis using False by simp
  qed
qed

lemma year_carry:
  fixes y :: int
  assumes "p400 \<longrightarrow> p100" "p100 \<longrightarrow> p4"
    and "a4 = b4 + (if p4 then 1 else 0)" "a100 = b100 + (if p100 then 1 else 0)"
    and "a400 = b400 + (if p400 then 1 else 0)"
  shows "365 * y + a4 - a100 + a400 =
    365 * (y - 1) + b4 - b100 + b400 + 365 + (if p4 \<and> (\<not> p100 \<or> p400) then 1 else 0)"
  using assms by (cases p4; cases p100; cases p400) simp_all

lemma year_step: "days_before_year (y + 1) = days_before_year y + 365 + (if leap_year y then 1 else 0)"
proof -
  have "y mod 400 = 0 \<longrightarrow> y mod 100 = 0" "y mod 100 = 0 \<longrightarrow> y mod 4 = 0"
    using dvd_trans [of 100 400 y] dvd_trans [of 4 100 y] by (simp_all add: mod_eq_0_iff_dvd)
  then show ?thesis unfolding leap_year_def days_before_year_def add_diff_cancel_right'
    by (rule year_carry) (rule div_pred, simp)+
qed

lemma month_length:
  assumes "1 \<le> m" "m < 12"
  shows "days_before_month y (m + 1) = days_before_month y m + days_in_month y m"
proof -
  have "m = 1 \<or> m = 2 \<or> m = 3 \<or> m = 4 \<or> m = 5 \<or> m = 6 \<or> m = 7 \<or> m = 8 \<or> m = 9 \<or> m = 10 \<or> m = 11"
    using assms by arith
  then show ?thesis by (elim disjE) (simp_all add: days_before_month_def days_in_month_def)
qed

lemma next_month:
  assumes "civil_wf t"
  shows "abs_nanos (add_month (month_start t)) - abs_nanos t =
    (days_in_month (cv_year t) (cv_month t) - cv_day t + 1) * (24 * hour) - cv_nanos t"
proof (cases "cv_month t = 12")
  case True
  have "abs_days (cv_year t + 1) 1 1 = abs_days (cv_year t) 12 1 + 31"
    using year_step [of "cv_year t"] by (simp add: abs_days_def days_before_month_def)
  then show ?thesis using True
    by (simp add: abs_nanos_def add_month_def month_start_def days_in_month_def abs_days_def algebra_simps)
next
  case False
  then have "abs_days (cv_year t) (cv_month t + 1) 1 =
      abs_days (cv_year t) (cv_month t) 1 + days_in_month (cv_year t) (cv_month t)"
    using assms by (simp add: abs_days_def month_length civil_wf_def)
  then show ?thesis using False
    by (simp add: abs_nanos_def add_month_def month_start_def abs_days_def algebra_simps)
qed

lemma ttl_bounds:
  assumes "civil_wf t"
  shows "periodGrace < ttlUntilPeriodEnd t" "ttlUntilPeriodEnd t \<le> 31 * (24 * hour) + periodGrace"
proof -
  let ?left = "days_in_month (cv_year t) (cv_month t) - cv_day t + 1"
  have "days_in_month (cv_year t) (cv_month t) \<le> 31" by (simp add: days_in_month_def)
  then have "1 \<le> ?left" "?left \<le> 31" "0 \<le> cv_nanos t" "cv_nanos t < 24 * hour"
    using assms unfolding civil_wf_def by linarith+
  then have "24 * hour \<le> ?left * (24 * hour)" "?left * (24 * hour) \<le> 31 * (24 * hour)" by simp_all
  then show "periodGrace < ttlUntilPeriodEnd t" "ttlUntilPeriodEnd t \<le> 31 * (24 * hour) + periodGrace"
    using next_month [OF assms] \<open>0 \<le> cv_nanos t\<close> \<open>cv_nanos t < 24 * hour\<close>
    unfolding ttlUntilPeriodEnd_def by linarith+
qed

lemma ttl_seconds_pos: "civil_wf t \<Longrightarrow> 0 < tdiv (ttlUntilPeriodEnd t) second"
proof -
  assume "civil_wf t"
  then have "second \<le> ttlUntilPeriodEnd t" using ttl_bounds(1) [of t] by (simp add: periodGrace_def)
  then have "second div second \<le> ttlUntilPeriodEnd t div second" by (intro zdiv_mono1) simp_all
  then show ?thesis using \<open>second \<le> ttlUntilPeriodEnd t\<close> by (simp add: tdiv_nonneg)
qed

lemma period_length:
  assumes "civil_wf t"
  shows "length (currentPeriod t) = 7"
proof -
  have "length (show_nat (nat (cv_year t))) \<le> 4" "length (show_nat (nat (cv_month t))) \<le> 2"
    using assms by (auto intro!: length_show_nat simp: civil_wf_def nat_less_iff)
  then show ?thesis using assms
    by (simp add: currentPeriod_def show_int_def length_pad_left civil_wf_def)
qed

lemma periodKey_inject:
  assumes "length p = length p'"
  shows "periodKey t p = periodKey t' p' \<longleftrightarrow> t = t' \<and> p = p'"
  using assms by (auto simp: periodKey_def)

section \<open>The ledger a client sees\<close>

text \<open>
  A history of one team's counter: reservations, each with the fate of its Redis call, and
  settlements of the reservations that are still open, in any order and interleaving.
\<close>

datatype ledger_event = TakeEv rpc int | SettleEv nat rpc int

record 's ledger_run =
  lr_store :: 's
  lr_open :: "int list"
  lr_charged :: int
  lr_overrun :: int

definition drop_nth :: "nat \<Rightarrow> 'a list \<Rightarrow> 'a list" where
  "drop_nth i xs = take i xs @ drop (Suc i) xs"

text \<open>
  \<open>lr_charged\<close> adds up what the settled requests cost, up to what each had reserved, and
  \<open>lr_overrun\<close> what they cost beyond it.
\<close>

fun ledger_step ::
  "(rpc \<Rightarrow> int \<Rightarrow> 's \<Rightarrow> bool \<times> 's) \<Rightarrow> (rpc \<Rightarrow> int \<Rightarrow> int \<Rightarrow> 's \<Rightarrow> 's) \<Rightarrow>
   ledger_event \<Rightarrow> 's ledger_run \<Rightarrow> 's ledger_run" where
  "ledger_step reserve settle (TakeEv net a) st =
     (case reserve net a (lr_store st) of
        (True, s') \<Rightarrow> st\<lparr>lr_store := s', lr_open := a # lr_open st\<rparr>
      | (False, s') \<Rightarrow> st\<lparr>lr_store := s'\<rparr>)"
| "ledger_step reserve settle (SettleEv i net actual) st =
     (if i < length (lr_open st) then
        (let v = lr_open st ! i in
         st\<lparr>lr_store := settle net v actual (lr_store st), lr_open := drop_nth i (lr_open st),
            lr_charged := lr_charged st + min actual v, lr_overrun := lr_overrun st + max 0 (actual - v)\<rparr>)
      else st)"

definition ledger_exec where
  "ledger_exec reserve settle evs st = fold (ledger_step reserve settle) evs st"

fun event_ok :: "ledger_event \<Rightarrow> bool" where
  "event_ok (TakeEv net a) \<longleftrightarrow> 0 \<le> a \<and> in_i64 a"
| "event_ok (SettleEv i net actual) \<longleftrightarrow> 0 \<le> actual \<and> in_i64 actual"

lemma sum_drop_nth: "i < length xs \<Longrightarrow> sum_list (drop_nth i xs) = sum_list xs - (xs ! i :: int)"
  by (subst (2) id_take_nth_drop [of i xs]) (simp_all add: drop_nth_def)

lemma set_drop_nth: "set (drop_nth i xs) \<subseteq> set xs"
  by (auto simp: drop_nth_def dest: in_set_takeD in_set_dropD)

locale ledger =
  fixes cap :: int and inv :: "'s \<Rightarrow> bool" and spent :: "'s \<Rightarrow> int"
    and reserve :: "rpc \<Rightarrow> int \<Rightarrow> 's \<Rightarrow> bool \<times> 's" and settle :: "rpc \<Rightarrow> int \<Rightarrow> int \<Rightarrow> 's \<Rightarrow> 's"
  assumes inv_reserve: "inv s \<Longrightarrow> 0 \<le> a \<Longrightarrow> in_i64 a \<Longrightarrow> inv (snd (reserve net a s))"
    and reserve_granted: "inv s \<Longrightarrow> 0 \<le> a \<Longrightarrow> in_i64 a \<Longrightarrow> fst (reserve net a s) \<Longrightarrow>
      spent (snd (reserve net a s)) = spent s + a \<and> spent s + a \<le> cap"
    and reserve_refused: "inv s \<Longrightarrow> 0 \<le> a \<Longrightarrow> in_i64 a \<Longrightarrow> \<not> fst (reserve net a s) \<Longrightarrow>
      spent s \<le> spent (snd (reserve net a s)) \<and> spent (snd (reserve net a s)) \<le> max (spent s) cap"
    and inv_settle: "inv s \<Longrightarrow> 0 \<le> v \<Longrightarrow> in_i64 v \<Longrightarrow> 0 \<le> a \<Longrightarrow> in_i64 a \<Longrightarrow> inv (settle net v a s)"
    and settle_spent: "inv s \<Longrightarrow> 0 \<le> v \<Longrightarrow> in_i64 v \<Longrightarrow> 0 \<le> a \<Longrightarrow> in_i64 a \<Longrightarrow>
      spent (settle net v a s) = spent s + (a - v) \<or> spent (settle net v a s) = spent s"
    and settle_delivered: "inv s \<Longrightarrow> 0 \<le> v \<Longrightarrow> in_i64 v \<Longrightarrow> 0 \<le> a \<Longrightarrow> in_i64 a \<Longrightarrow>
      in_i64 (spent s + (a - v)) \<Longrightarrow> spent (settle Delivered v a s) = spent s + (a - v)"
begin

definition covered :: "'s ledger_run \<Rightarrow> bool" where
  "covered st \<longleftrightarrow> inv (lr_store st) \<and> (\<forall>v \<in> set (lr_open st). 0 \<le> v \<and> in_i64 v) \<and>
     0 \<le> lr_overrun st \<and> sum_list (lr_open st) + lr_charged st \<le> spent (lr_store st) \<and>
     spent (lr_store st) \<le> cap + lr_overrun st"

lemma covered_step:
  assumes "covered st" "event_ok e"
  shows "covered (ledger_step reserve settle e st)"
proof (cases e)
  case (TakeEv net a)
  obtain ok s' where r: "reserve net a (lr_store st) = (ok, s')" by fastforce
  then show ?thesis
    using assms TakeEv inv_reserve [of "lr_store st" a net] reserve_granted [of "lr_store st" a net]
      reserve_refused [of "lr_store st" a net]
    by (cases ok) (auto simp: covered_def)
next
  case (SettleEv i net actual)
  show ?thesis
  proof (cases "i < length (lr_open st)")
    case True
    define v where "v = lr_open st ! i"
    have "v \<in> set (lr_open st)" using True by (simp add: v_def)
    then have v: "0 \<le> v" "in_i64 v" using assms by (auto simp: covered_def)
    have a: "0 \<le> actual" "in_i64 actual" using assms SettleEv by auto
    have inv: "inv (lr_store st)" using assms by (simp add: covered_def)
    have "sum_list (drop_nth i (lr_open st)) = sum_list (lr_open st) - v"
      using True by (simp add: sum_drop_nth v_def)
    then show ?thesis
      using assms SettleEv True v a inv_settle [OF inv v a, of net] settle_spent [OF inv v a, of net]
        set_drop_nth [of i "lr_open st"]
      by (auto simp: covered_def v_def [symmetric] Let_def)
  next
    case False
    then show ?thesis using assms SettleEv by simp
  qed
qed

lemma covered_exec:
  "covered st \<Longrightarrow> \<forall>e \<in> set evs. event_ok e \<Longrightarrow> covered (ledger_exec reserve settle evs st)"
  unfolding ledger_exec_def by (induction evs arbitrary: st) (auto intro: covered_step)

text \<open>
  The settlement of a request that reserved a base amount and topped it up along the way:
  the base takes the whole cost and every top-up goes back.
\<close>

lemma settle_topups:
  assumes "inv s" "\<forall>v \<in> set vs. 0 \<le> v \<and> in_i64 v" "0 \<le> spent s - sum_list vs" "in_i64 (spent s)"
  shows "inv (fold (\<lambda>v. settle Delivered v 0) vs s) \<and>
    spent (fold (\<lambda>v. settle Delivered v 0) vs s) = spent s - sum_list vs"
  using assms
proof (induction vs arbitrary: s)
  case (Cons v vs)
  have nn: "0 \<le> sum_list vs" using Cons.prems by (intro sum_list_nonneg) auto
  have "in_i64 (spent s + (0 - v))" using Cons.prems nn by (auto simp: in_i64_def)
  then have s': "spent (settle Delivered v 0 s) = spent s - v" "inv (settle Delivered v 0 s)"
    using settle_delivered [of s v 0] inv_settle [of s v 0] Cons.prems by (auto simp: in_i64_def)
  then show ?case using Cons.IH [of "settle Delivered v 0 s"] Cons.prems nn
    by (auto simp: in_i64_def)
qed simp

end

section \<open>The tracker is a ledger\<close>

definition reserves ::
  "'r redis_api \<Rightarrow> civil \<Rightarrow> string \<Rightarrow> int \<Rightarrow> rpc \<Rightarrow> int \<Rightarrow> 'r \<Rightarrow> bool \<times> 'r" where
  "reserves R now teamID cap net a r =
     (case BudgetReserve R net now teamID cap a r of (rsv, _, r') \<Rightarrow> (rsv \<noteq> None, r'))"

definition settles ::
  "'r redis_api \<Rightarrow> civil \<Rightarrow> string \<Rightarrow> rpc \<Rightarrow> int \<Rightarrow> int \<Rightarrow> 'r \<Rightarrow> 'r" where
  "settles R now teamID net v a r =
     snd (BudgetReconcile R net
       (Some \<lparr>br_teamID = teamID, br_period = currentPeriod now, br_reserved = v\<rparr>) a r)"

locale tracker = redis_server R for R :: "'r redis_api" +
  fixes now :: civil and teamID :: string and cap :: int
  assumes now_wf: "civil_wf now" and cap_pos: "0 < cap" and cap_i64: "in_i64 cap"
begin

abbreviation "key \<equiv> periodKey teamID (currentPeriod now)"

abbreviation "script a \<equiv> reserveScript R key cap a (tdiv (ttlUntilPeriodEnd now) second)"

lemma script_outcome:
  assumes "counter_wf R key r" "0 \<le> a" "in_i64 a"
  shows "counter_wf R key (snd (script a r))"
    "fst (script a r) =
      (if \<not> in_i64 (counter_spent R key r + a) then None
       else Some (if counter_spent R key r + a \<le> cap then (1, counter_spent R key r + a)
                  else (0, counter_spent R key r)))"
    "counter_spent R key (snd (script a r)) =
      (if counter_spent R key r + a \<le> cap then counter_spent R key r + a else counter_spent R key r)"
  using reserveScript_outcome [OF assms ttl_seconds_pos [OF now_wf] cap_i64] by blast+

lemma Reserve_store:
  "0 \<le> a \<Longrightarrow> snd (snd (BudgetReserve R net now teamID cap a r)) =
     (if net = Lost then r else snd (script a r))"
  using cap_pos by (cases net) (auto simp: BudgetReserve_def Let_def split: prod.splits option.splits)

lemma Reserve_fits:
  assumes "counter_wf R key r" "0 \<le> a" "in_i64 a" "counter_spent R key r + a \<le> cap"
  shows "BudgetReserve R Delivered now teamID cap a r =
    (Some \<lparr>br_teamID = teamID, br_period = currentPeriod now, br_reserved = a\<rparr>,
     Inr \<lparr>bud_Allowed = True, bud_SpentMicros = counter_spent R key r + a\<rparr>, snd (script a r))"
proof -
  have "in_i64 (counter_spent R key r + a)"
    using assms spent_in_i64 [OF assms(1)] cap_i64 by (auto simp: in_i64_def)
  then have "script a r = (Some (1, counter_spent R key r + a), snd (script a r))"
    using script_outcome(2) [OF assms(1-3)] assms(4) by (cases "script a r") simp
  then show ?thesis using assms cap_pos
    by (cases "script a r") (simp add: BudgetReserve_def Let_def)
qed

lemma Reserve_exceeds:
  assumes "counter_wf R key r" "0 \<le> a" "in_i64 a" "cap < counter_spent R key r + a"
  shows "fst (BudgetReserve R net now teamID cap a r) = None"
    "net = Delivered \<Longrightarrow> in_i64 (counter_spent R key r + a) \<Longrightarrow>
      fst (snd (BudgetReserve R net now teamID cap a r)) =
        Inr \<lparr>bud_Allowed = False, bud_SpentMicros = counter_spent R key r\<rparr>"
  using script_outcome(2) [OF assms(1-3)] assms cap_pos
  by (cases net; cases "script a r"; auto simp: BudgetReserve_def Let_def)+

lemma Reserve_unheard: "net \<noteq> Delivered \<Longrightarrow> fst (BudgetReserve R net now teamID cap a r) = None"
  by (cases net) (auto simp: BudgetReserve_def Let_def)

lemma Reconcile_store:
  assumes "counter_wf R key r" "0 \<le> v" "in_i64 v" "0 \<le> a" "in_i64 a"
  shows "settles R now teamID net v a r =
    (if net = Lost \<or> a = v \<or> \<not> in_i64 (counter_spent R key r + (a - v)) then r
     else snd (rINCRBY R key (a - v) r))"
proof -
  have "in_i64 (a - v)" using assms by (auto simp: in_i64_def)
  moreover have "i64 (a - v) = a - v" using assms by (intro i64_id) (auto simp: in_i64_def)
  moreover have "\<not> in_i64 (counter_spent R key r + (a - v)) \<longrightarrow> snd (rINCRBY R key (a - v) r) = r"
    using incr_counter [OF assms(1), of "a - v"] calculation(1) by (metis snd_conv)
  ultimately show ?thesis using assms
    by (cases net) (auto simp: settles_def BudgetReconcile_def Let_def split: prod.splits option.splits)
qed

lemma settled_counter:
  assumes "counter_wf R key r" "0 \<le> v" "in_i64 v" "0 \<le> a" "in_i64 a"
    and "in_i64 (counter_spent R key r + (a - v))"
  shows "counter_wf R key (snd (rINCRBY R key (a - v) r))"
    "counter_spent R key (snd (rINCRBY R key (a - v) r)) = counter_spent R key r + (a - v)"
proof -
  have "rGET R (snd (rINCRBY R key (a - v) r)) key = Some (RNum (of_int (counter_spent R key r + (a - v))))"
    using assms by (intro incr_stored) (auto simp: in_i64_def)
  then show "counter_wf R key (snd (rINCRBY R key (a - v) r))"
    "counter_spent R key (snd (rINCRBY R key (a - v) r)) = counter_spent R key r + (a - v)"
    using assms(6) by (blast intro: wf_of_get spent_of_get)+
qed

end

sublocale tracker \<subseteq> books: ledger cap "counter_wf R key" "counter_spent R key"
  "reserves R now teamID cap" "settles R now teamID"
proof (unfold_locales, goal_cases)
  case (1 s a net)
  then show ?case using script_outcome(1) by (auto simp: reserves_def split_beta Reserve_store)
next
  case (2 s a net)
  then have "counter_spent R key s + a \<le> cap" "net = Delivered"
    using Reserve_exceeds(1) [of s a net] Reserve_unheard [of net a s] by (force simp: reserves_def split_beta)+
  then show ?case using 2 Reserve_store [of a net s] script_outcome(3) [of s a]
    by (simp add: reserves_def split_beta)
next
  case (3 s a net)
  then show ?case using Reserve_store [of a net s] script_outcome(3) [of s a]
    by (auto simp: reserves_def split_beta)
next
  case (4 s v a net)
  then show ?case using settled_counter [of s v a] by (simp add: Reconcile_store)
next
  case (5 s v a net)
  then show ?case using settled_counter [of s v a] by (simp add: Reconcile_store)
next
  case (6 s v a)
  then show ?case using settled_counter [of s v a] by (simp add: Reconcile_store)
qed

text \<open>A team with a budget of one hundred dollars in May 2026, on the server in memory.\<close>

definition may_noon :: civil where
  "may_noon = \<lparr>cv_year = 2026, cv_month = 5, cv_day = 14, cv_nanos = 12 * hour\<rparr>"

lemma may_noon_wf: "civil_wf may_noon"
  by (simp add: civil_wf_def may_noon_def days_in_month_def)

interpretation may: tracker mem_redis may_noon "''acme''" 100000000
  by unfold_locales (simp_all add: may_noon_wf in_i64_def)

lemma trackerI: "redis_server R \<Longrightarrow> civil_wf now \<Longrightarrow> 0 < cap \<Longrightarrow> in_i64 cap \<Longrightarrow> tracker R now cap"
  by (simp add: tracker_def tracker_axioms_def)

lemma empty_counter: "counter_wf mem_redis key empty_mem" "counter_spent mem_redis key empty_mem = 0"
  by (simp_all add: counter_wf_def counter_spent_def empty_mem_def mem_defs)

context tracker
begin

lemma history_bounds:
  assumes "counter_wf R key r" "0 \<le> counter_spent R key r" "counter_spent R key r \<le> cap"
    and "\<forall>e \<in> set evs. event_ok e"
  defines "st \<equiv> ledger_exec (reserves R now teamID cap) (settles R now teamID) evs
    \<lparr>lr_store = r, lr_open = [], lr_charged = 0, lr_overrun = 0\<rparr>"
  shows "sum_list (lr_open st) + lr_charged st \<le> counter_spent R key (lr_store st)"
    "counter_spent R key (lr_store st) \<le> cap + lr_overrun st"
proof -
  have "books.covered \<lparr>lr_store = r, lr_open = [], lr_charged = 0, lr_overrun = 0\<rparr>"
    using assms by (simp add: books.covered_def)
  from books.covered_exec [OF this assms(4)]
  show "sum_list (lr_open st) + lr_charged st \<le> counter_spent R key (lr_store st)"
    "counter_spent R key (lr_store st) \<le> cap + lr_overrun st"
    by (simp_all add: books.covered_def st_def)
qed

lemma reserve_then_settle:
  assumes "counter_wf R key r" "0 \<le> counter_spent R key r" "0 \<le> est" "in_i64 est" "0 \<le> a" "in_i64 a"
    and "counter_spent R key r + est \<le> cap" "in_i64 (counter_spent R key r + a)"
  shows "counter_spent R key (snd (BudgetReconcile R Delivered
      (fst (BudgetReserve R Delivered now teamID cap est r)) a
      (snd (snd (BudgetReserve R Delivered now teamID cap est r))))) = counter_spent R key r + a"
proof -
  let ?r' = "snd (script est r)"
  have "counter_wf R key ?r'" "counter_spent R key ?r' = counter_spent R key r + est"
    using script_outcome [OF assms(1,3,4)] assms(7) by simp_all
  then show ?thesis
    using books.settle_delivered [of ?r' est a] assms Reserve_fits [OF assms(1,3,4,7)]
    by (simp add: settles_def)
qed

lemma life_of_first:
  assumes "\<not> rEXISTS R r key" "0 \<le> a" "a \<le> cap"
  shows "rLIFE R (snd (script a r)) key = Some (tdiv (ttlUntilPeriodEnd now) second * 1000000)"
proof -
  have a: "in_i64 a" using assms cap_i64 by (auto simp: in_i64_def)
  have "fst (rINCRBY R key a r) = Some a" using assms(1) a by (rule incrby_missing)
  then obtain r1 where r1: "rINCRBY R key a r = (Some a, r1)" by (cases "rINCRBY R key a r") simp
  then have "rEXISTS R r1 key" using incrby_stored [of key a r a key] by (simp add: exists_iff)
  then show ?thesis using assms ttl_seconds_pos [OF now_wf]
    by (simp add: reserveScript_def Let_def r1 life_pexpire)
qed

end

section \<open>Properties of the budget\<close>

text \<open>
  C3. The cap holds over any history of one team's month, with calls lost or unanswered at
  will: the recorded spend never exceeds the cap by more than what settled requests cost
  beyond their own reservations, and it never falls below what is still reserved plus what
  settled requests cost within theirs.
\<close>

theorem budget_cap_invariant:
  assumes "redis_server R" "civil_wf now" "0 < cap" "in_i64 cap"
    and "counter_wf R (periodKey teamID (currentPeriod now)) r"
    and "0 \<le> counter_spent R (periodKey teamID (currentPeriod now)) r"
    and "counter_spent R (periodKey teamID (currentPeriod now)) r \<le> cap"
    and "\<forall>e \<in> set evs. event_ok e"
    and "st = ledger_exec (reserves R now teamID cap) (settles R now teamID) evs
      \<lparr>lr_store = r, lr_open = [], lr_charged = 0, lr_overrun = 0\<rparr>"
  shows "sum_list (lr_open st) + lr_charged st \<le>
      counter_spent R (periodKey teamID (currentPeriod now)) (lr_store st) \<and>
    counter_spent R (periodKey teamID (currentPeriod now)) (lr_store st) \<le> cap + lr_overrun st"
  unfolding assms(9) using tracker.history_bounds [OF trackerI [OF assms(1-4)] assms(5-8)] by blast

theorem budget_cap_invariant_witness:
  "counter_spent mem_redis (periodKey ''acme'' (currentPeriod may_noon))
     (lr_store (ledger_exec (reserves mem_redis may_noon ''acme'' 100) (settles mem_redis may_noon ''acme'')
        [TakeEv Delivered 60, TakeEv ReplyLost 30, TakeEv Delivered 20, SettleEv 0 Delivered 5]
        \<lparr>lr_store = empty_mem, lr_open = [], lr_charged = 0, lr_overrun = 0\<rparr>)) \<le>
   100 + lr_overrun (ledger_exec (reserves mem_redis may_noon ''acme'' 100) (settles mem_redis may_noon ''acme'')
        [TakeEv Delivered 60, TakeEv ReplyLost 30, TakeEv Delivered 20, SettleEv 0 Delivered 5]
        \<lparr>lr_store = empty_mem, lr_open = [], lr_charged = 0, lr_overrun = 0\<rparr>)"
  using budget_cap_invariant [OF mem.redis_server_axioms may_noon_wf, of 100 "''acme''" empty_mem
      "[TakeEv Delivered 60, TakeEv ReplyLost 30, TakeEv Delivered 20, SettleEv 0 Delivered 5]"]
  by (simp add: empty_counter in_i64_def del: ledger_step.simps)

text \<open>
  C17. A reservation nets to the actual cost: an estimate that fits the cap is granted, and
  once it is settled the counter has moved by exactly what the request cost. An estimate
  that does not fit is refused, reports the spend so far and leaves the counter alone.
\<close>

theorem Reserve_Reconcile_exact:
  assumes "redis_server R" "civil_wf now" "0 < cap" "in_i64 cap"
    and "counter_wf R (periodKey teamID (currentPeriod now)) r"
    and "s = counter_spent R (periodKey teamID (currentPeriod now)) r" "0 \<le> s"
    and "0 \<le> est" "in_i64 (s + est)" "0 \<le> actual" "in_i64 (s + actual)"
    and "BudgetReserve R Delivered now teamID cap est r = (rsv, res, r')"
  shows "if s + est \<le> cap
    then res = Inr \<lparr>bud_Allowed = True, bud_SpentMicros = s + est\<rparr> \<and>
      counter_spent R (periodKey teamID (currentPeriod now)) (snd (BudgetReconcile R Delivered rsv actual r')) =
        s + actual
    else rsv = None \<and> res = Inr \<lparr>bud_Allowed = False, bud_SpentMicros = s\<rparr> \<and>
      counter_spent R (periodKey teamID (currentPeriod now)) (snd (BudgetReconcile R Delivered rsv actual r')) = s"
proof -
  have tr: "tracker R now cap" using assms(1-4) by (rule trackerI)
  have i64: "in_i64 est" "in_i64 actual" using assms(7-11) by (auto simp: in_i64_def)
  note [simp] = assms(6) [symmetric]
  show ?thesis
  proof (cases "s + est \<le> cap")
    case True
    then have "res = Inr \<lparr>bud_Allowed = True, bud_SpentMicros = s + est\<rparr>"
      using tracker.Reserve_fits [OF tr assms(5,8) i64(1)] assms(12) by simp
    then show ?thesis
      using True tracker.reserve_then_settle [OF tr assms(5) _ assms(8) i64(1) assms(10) i64(2)] assms(7,11,12)
      by simp
  next
    case False
    then have "rsv = None" "res = Inr \<lparr>bud_Allowed = False, bud_SpentMicros = s\<rparr>"
      using tracker.Reserve_exceeds [OF tr assms(5,8) i64(1), of Delivered] assms(9,12) by simp_all
    moreover have "counter_spent R (periodKey teamID (currentPeriod now)) r' = s"
      using False tracker.Reserve_store [OF tr assms(8), of Delivered teamID r]
        tracker.script_outcome(3) [OF tr assms(5,8) i64(1)] assms(12) by simp
    ultimately show ?thesis using False by (simp add: BudgetReconcile_def)
  qed
qed

theorem Reserve_Reconcile_exact_witness:
  "\<exists>rsv res r'. BudgetReserve mem_redis Delivered may_noon ''acme'' 100 60 empty_mem = (rsv, res, r') \<and>
     counter_spent mem_redis (periodKey ''acme'' (currentPeriod may_noon))
       (snd (BudgetReconcile mem_redis Delivered rsv 45 r')) = 45"
proof -
  obtain rsv res r' where "BudgetReserve mem_redis Delivered may_noon ''acme'' 100 60 empty_mem = (rsv, res, r')"
    using prod_cases3 by blast
  then show ?thesis
    using Reserve_Reconcile_exact [OF mem.redis_server_axioms may_noon_wf, of 100 "''acme''" empty_mem 0 60 45 rsv res r']
    by (simp add: empty_counter in_i64_def)
qed

text \<open>
  C32. A month's counter outlives its month: the first reservation of a period gives the key
  a lifetime, in whole seconds, that reaches past the first instant of the next month by the
  grace of 48 hours less at most a second, and is never longer than 33 days.
\<close>

theorem counter_outlives_period:
  assumes "redis_server R" "civil_wf now" "0 < cap" "in_i64 cap"
    and "\<not> rEXISTS R r (periodKey teamID (currentPeriod now))" "0 \<le> est" "est \<le> cap"
    and "BudgetReserve R Delivered now teamID cap est r = (rsv, res, r')"
  shows "\<exists>l. rLIFE R r' (periodKey teamID (currentPeriod now)) = Some l \<and>
    abs_nanos (add_month (month_start now)) - abs_nanos now + periodGrace - second < l * 1000 \<and>
    l * 1000 \<le> 33 * (24 * hour)"
proof -
  have tr: "tracker R now cap" using assms(1-4) by (rule trackerI)
  let ?t = "ttlUntilPeriodEnd now"
  have t: "0 \<le> ?t" "?t \<le> 31 * (24 * hour) + periodGrace"
    using ttl_bounds [OF assms(2)] by (simp_all add: periodGrace_def)
  have "r' = snd (snd (BudgetReserve R Delivered now teamID cap est r))" using assms(8) by simp
  then have life: "rLIFE R r' (periodKey teamID (currentPeriod now)) = Some (?t div second * 1000000)"
    using tracker.life_of_first [OF tr assms(5-7)] tracker.Reserve_store [OF tr assms(6), of Delivered teamID r] t
    by (simp add: tdiv_nonneg)
  have "?t div second * second \<le> ?t" "?t < ?t div second * second + second"
    using mult_div_mod_eq [of second ?t] pos_mod_bound [of second ?t] pos_mod_sign [of second ?t] by linarith+
  then show ?thesis using t
    by (intro exI [of _ "?t div second * 1000000"])
      (simp only: life ttlUntilPeriodEnd_def [symmetric] simp_thms, simp add: periodGrace_def)
qed

theorem counter_outlives_period_witness:
  "\<exists>rsv res r' l. BudgetReserve mem_redis Delivered may_noon ''acme'' 100 60 empty_mem = (rsv, res, r') \<and>
     rLIFE mem_redis r' (periodKey ''acme'' (currentPeriod may_noon)) = Some l \<and> l * 1000 \<le> 33 * (24 * hour)"
proof -
  obtain rsv res r' where b: "BudgetReserve mem_redis Delivered may_noon ''acme'' 100 60 empty_mem = (rsv, res, r')"
    using prod_cases3 by blast
  have e: "\<not> rEXISTS mem_redis empty_mem (periodKey ''acme'' (currentPeriod may_noon))"
    by (simp add: empty_mem_def mem_defs)
  show ?thesis
    using counter_outlives_period [OF mem.redis_server_axioms may_noon_wf _ _ e _ _ b] b
    by (auto simp: in_i64_def)
qed

text \<open>
  C31. Pricing is exact to the micro-dollar: while the products fit a 64-bit integer, the cost
  is the true price rounded down, so it errs by less than one micro-dollar.
\<close>

theorem Cost_exact:
  assumes "pricing model = Some p" "0 \<le> i" "0 \<le> out" "0 \<le> InputPer1M p" "0 \<le> OutputPer1M p"
    and "i * InputPer1M p + out * OutputPer1M p < 2 ^ 63"
  shows "\<exists>c. Cost pricing model i out = Inr c \<and>
    c * microsPerUnit \<le> i * InputPer1M p + out * OutputPer1M p \<and>
    i * InputPer1M p + out * OutputPer1M p < (c + 1) * microsPerUnit"
proof -
  let ?a = "i * InputPer1M p" and ?b = "out * OutputPer1M p"
  have nn: "0 \<le> ?a" "0 \<le> ?b" using assms by simp_all
  then have "i64 ?a = ?a" "i64 ?b = ?b" "i64 (?a + ?b) = ?a + ?b" using assms(6) by (simp_all add: i64_id)
  then have "Cost pricing model i out = Inr ((?a + ?b) div microsPerUnit)"
    using nn assms(1) by (simp add: Cost_def tdiv_nonneg microsPerUnit_def)
  moreover have "(?a + ?b) div microsPerUnit * microsPerUnit \<le> ?a + ?b"
    "?a + ?b < ((?a + ?b) div microsPerUnit + 1) * microsPerUnit"
    using mult_div_mod_eq [of microsPerUnit "?a + ?b"] pos_mod_bound [of microsPerUnit "?a + ?b"]
      pos_mod_sign [of microsPerUnit "?a + ?b"]
    by (simp_all add: microsPerUnit_def)
  ultimately show ?thesis by blast
qed

theorem Cost_exact_witness:
  "\<exists>c. Cost [''gpt-4o'' \<mapsto> \<lparr>InputPer1M = 2500000, OutputPer1M = 10000000\<rparr>] ''gpt-4o'' 1200 350 = Inr c \<and>
     c * microsPerUnit \<le> 6500000000 \<and> 6500000000 < (c + 1) * microsPerUnit"
  using Cost_exact [of "[''gpt-4o'' \<mapsto> \<lparr>InputPer1M = 2500000, OutputPer1M = 10000000\<rparr>]" "''gpt-4o''"
      "\<lparr>InputPer1M = 2500000, OutputPer1M = 10000000\<rparr>" 1200 350]
  by simp

text \<open>
  C35. Resetting a team's spend while a request is in flight leaves a debt in its favour: the
  settlement of a reservation the reset has wiped out drives the counter below zero by the
  unused part of the estimate.
\<close>

theorem Reset_in_flight_goes_negative:
  assumes "redis_server R" "civil_wf now" "0 < cap" "in_i64 cap"
    and "counter_wf R (periodKey teamID (currentPeriod now)) r"
    and "0 \<le> counter_spent R (periodKey teamID (currentPeriod now)) r"
    and "0 \<le> actual" "actual < est" "counter_spent R (periodKey teamID (currentPeriod now)) r + est \<le> cap"
    and "BudgetReserve R Delivered now teamID cap est r = (rsv, res, r')"
  shows "counter_spent R (periodKey teamID (currentPeriod now))
      (snd (BudgetReconcile R Delivered rsv actual (snd (BudgetReset R Delivered now teamID r')))) = actual - est"
proof -
  have tr: "tracker R now cap" using assms(1-4) by (rule trackerI)
  let ?key = "periodKey teamID (currentPeriod now)"
  let ?r = "snd (BudgetReset R Delivered now teamID r')"
  have i64: "in_i64 est" "in_i64 actual" "in_i64 (actual - est)" using assms by (auto simp: in_i64_def)
  have "rGET R ?r ?key = None" "\<not> rEXISTS R ?r ?key"
    using redis_server.exists_del [OF assms(1)] redis_server.get_del [OF assms(1)] by (simp_all add: BudgetReset_def)
  then have fresh: "counter_wf R ?key ?r" "counter_spent R ?key ?r = 0"
    by (simp_all add: counter_wf_def counter_spent_def)
  have rsv: "rsv = Some \<lparr>br_teamID = teamID, br_period = currentPeriod now, br_reserved = est\<rparr>"
    using tracker.Reserve_fits [OF tr assms(5) _ i64(1)] assms(7-10) by simp
  have "0 \<le> est" using assms(7,8) by simp
  then show ?thesis
    using tracker.Reconcile_store [OF tr fresh(1) _ i64(1) assms(7) i64(2), of Delivered]
      tracker.settled_counter(2) [OF tr fresh(1) _ i64(1) assms(7) i64(2)] i64(3) fresh(2) assms(8)
    by (simp add: settles_def rsv)
qed

theorem Reset_in_flight_goes_negative_witness:
  "\<exists>rsv res r'. BudgetReserve mem_redis Delivered may_noon ''acme'' 100 60 empty_mem = (rsv, res, r') \<and>
     counter_spent mem_redis (periodKey ''acme'' (currentPeriod may_noon))
       (snd (BudgetReconcile mem_redis Delivered rsv 5 (snd (BudgetReset mem_redis Delivered may_noon ''acme'' r')))) = - 55"
proof -
  obtain rsv res r' where b: "BudgetReserve mem_redis Delivered may_noon ''acme'' 100 60 empty_mem = (rsv, res, r')"
    using prod_cases3 by blast
  then show ?thesis
    using Reset_in_flight_goes_negative [OF mem.redis_server_axioms may_noon_wf _ _ empty_counter(1) _ _ _ _ b, of 5]
    by (simp add: empty_counter in_i64_def)
qed

end
