(* ===== verification/Ring.thy ===== *)
theory Ring
  imports Prelude "HOL-Library.Multiset"
begin

text \<open>
  The fixed-capacity ring buffer that the health monitor uses twice: for the transitions of a
  provider (\<open>transitionLog\<close> of \<open>internal/health/status.go\<close>) and for its recent requests
  (\<open>window\<close> of \<open>internal/health/passive.go\<close>). The array is a list of the capacity's length.
\<close>

section \<open>The buffer\<close>

record 'a ring =
  rb_entries :: "'a list"
  rb_next :: nat
  rb_count :: nat

definition ring_new :: "nat \<Rightarrow> 'a \<Rightarrow> 'a ring" where
  "ring_new cap zero = \<lparr>rb_entries = replicate cap zero, rb_next = 0, rb_count = 0\<rparr>"

definition ring_append :: "nat \<Rightarrow> 'a \<Rightarrow> 'a ring \<Rightarrow> 'a ring" where
  "ring_append cap x r =
     r\<lparr>rb_entries := (rb_entries r)[rb_next r := x], rb_next := (rb_next r + 1) mod cap,
       rb_count := (if rb_count r < cap then rb_count r + 1 else rb_count r)\<rparr>"

definition ring_recent :: "nat \<Rightarrow> 'a ring \<Rightarrow> 'a list" where
  "ring_recent cap r = map (\<lambda>i. rb_entries r ! ((rb_next r + cap - 1 - i) mod cap)) [0..<rb_count r]"

definition ring_last :: "nat \<Rightarrow> 'a ring \<Rightarrow> 'a option" where
  "ring_last cap r =
     (if rb_count r = 0 then None else Some (rb_entries r ! ((rb_next r + cap - 1) mod cap)))"

section \<open>What it holds\<close>

text \<open>The buffer after the appends \<open>xs\<close>, oldest first: the j-th sits at j modulo the capacity.\<close>

definition ring_of :: "nat \<Rightarrow> 'a list \<Rightarrow> 'a ring \<Rightarrow> bool" where
  "ring_of cap xs r \<longleftrightarrow>
     length (rb_entries r) = cap \<and> rb_next r = length xs mod cap \<and> rb_count r = min cap (length xs) \<and>
     (\<forall>j. length xs - rb_count r \<le> j \<longrightarrow> j < length xs \<longrightarrow> rb_entries r ! (j mod cap) = xs ! j)"

lemma ring_of_new: "ring_of cap [] (ring_new cap zero)"
  by (simp add: ring_of_def ring_new_def)

lemma mod_neq: "j < n \<Longrightarrow> n - j < cap \<Longrightarrow> j mod cap \<noteq> n mod (cap :: nat)"
  by (metis dvd_imp_le mod_eq_dvd_iff_nat not_less zero_less_diff less_imp_le)

lemma ring_of_append:
  assumes "ring_of cap xs r" "0 < cap"
  shows "ring_of cap (xs @ [x]) (ring_append cap x r)"
proof -
  let ?n = "length xs"
  have "rb_entries (ring_append cap x r) ! (j mod cap) = (xs @ [x]) ! j"
    if "Suc ?n - rb_count (ring_append cap x r) \<le> j" "j < Suc ?n" for j
  proof (cases "j = ?n")
    case True
    then show ?thesis using assms by (simp add: ring_of_def ring_append_def)
  next
    case False
    then have j: "j < ?n" using that by simp
    moreover have "?n - j < cap" "?n - rb_count r \<le> j"
      using that j assms by (auto simp: ring_append_def ring_of_def split: if_splits)
    ultimately show ?thesis using assms mod_neq [of j ?n cap]
      by (simp add: ring_of_def ring_append_def nth_append)
  qed
  then show ?thesis using assms by (auto simp: ring_of_def ring_append_def mod_Suc_eq)
qed

lemma ring_index:
  assumes "i < n" "i < cap"
  shows "(n mod cap + cap - 1 - i) mod cap = (n - 1 - i) mod (cap :: nat)"
proof -
  have "(n mod cap + cap - 1 - i) mod cap = (n mod cap + (cap - 1 - i)) mod cap" using assms by simp
  also have "\<dots> = (n + (cap - 1 - i)) mod cap" by (rule mod_add_left_eq)
  also have "n + (cap - 1 - i) = (n - 1 - i) + cap" using assms by simp
  finally show ?thesis by simp
qed

lemma ring_entry:
  assumes "ring_of cap xs r" "i < rb_count r"
  shows "rb_entries r ! ((rb_next r + cap - 1 - i) mod cap) = xs ! (length xs - 1 - i)"
proof -
  have i: "i < length xs" "i < cap" "length xs - rb_count r \<le> length xs - 1 - i"
    using assms by (auto simp: ring_of_def)
  then have "length xs - 1 - i < length xs" by simp
  then show ?thesis using assms(1) ring_index [OF i(1,2)] i(3) by (simp add: ring_of_def)
qed

lemma ring_recent_eq:
  assumes "ring_of cap xs r"
  shows "ring_recent cap r = take cap (rev xs)"
proof (rule nth_equalityI)
  show "length (ring_recent cap r) = length (take cap (rev xs))"
    using assms by (simp add: ring_recent_def ring_of_def)
next
  fix i assume "i < length (ring_recent cap r)"
  then have "i < rb_count r" by (simp add: ring_recent_def)
  then show "ring_recent cap r ! i = take cap (rev xs) ! i"
    using ring_entry [OF assms] assms by (simp add: ring_recent_def ring_of_def rev_nth)
qed

lemma ring_last_eq:
  assumes "ring_of cap xs r" "0 < cap"
  shows "ring_last cap r = (if xs = [] then None else Some (last xs))"
  using assms ring_entry [OF assms(1), of 0] by (auto simp: ring_last_def ring_of_def last_conv_nth min_def split: if_splits)

text \<open>Read in array order, the buffer holds the same elements as the tail of the appends.\<close>

lemma residues_mset: "mset (map (\<lambda>j. f (j mod n)) [a..<a + n]) = mset (map f [0..<n])"
proof (induction a)
  case 0
  have "map (\<lambda>j. f (j mod n)) [0..<n] = map f [0..<n]" by simp
  then show ?case by (simp only: add_0)
next
  case (Suc a)
  show ?case
  proof (cases "n = 0")
    case False
    then have "[a..<a + n] = a # [Suc a..<a + n]" by (simp add: upt_rec)
    moreover have "[Suc a..<Suc a + n] = [Suc a..<a + n] @ [a + n]" using False by simp
    ultimately show ?thesis using Suc.IH by simp
  qed simp
qed

lemma ring_mset:
  assumes "ring_of cap xs r"
  shows "mset (take (rb_count r) (rb_entries r)) = mset (drop (length xs - cap) xs)"
proof (cases "length xs < cap")
  case True
  then have "take (rb_count r) (rb_entries r) = xs"
    using assms by (intro nth_equalityI) (auto simp: ring_of_def)
  then show ?thesis using True by simp
next
  case False
  let ?a = "length xs - cap"
  have e: "length (rb_entries r) = cap" "rb_count r = cap" using assms False by (auto simp: ring_of_def)
  have "map (\<lambda>j. rb_entries r ! (j mod cap)) [?a..<?a + cap] = drop ?a xs"
    using assms False by (intro nth_equalityI) (auto simp: ring_of_def)
  then have "mset (drop ?a xs) = mset (map ((!) (rb_entries r)) [0..<cap])"
    using residues_mset [of "(!) (rb_entries r)" cap ?a] by simp
  also have "map ((!) (rb_entries r)) [0..<cap] = rb_entries r" using e(1) by (metis map_nth)
  finally show ?thesis using e by simp
qed

end
