(* ===== verification/Health.thy ===== *)
theory Health
  imports Ring Provider Redis
begin

text \<open>
  Provider health: the rolling window of real requests (\<open>internal/health/passive.go\<close>), the
  status with its thresholds, hysteresis and baseline (\<open>internal/health/status.go\<close>), and the
  step of the active checker (\<open>internal/health/checker.go\<close>). Rates, thresholds and the moving
  average are rationals where the code has floating point.
\<close>

section \<open>The passive window\<close>

definition windowCapacity :: nat where
  "windowCapacity = 100"

definition windowDuration :: duration where
  "windowDuration = 60 * second"

record sample =
  sm_at :: instant
  sm_latency :: duration
  sm_failed :: bool
  sm_timeout :: bool

definition zero_sample :: sample where
  "zero_sample = \<lparr>sm_at = 0, sm_latency = 0, sm_failed = False, sm_timeout = False\<rparr>"

type_synonym window = "sample ring"

definition window_record :: "sample \<Rightarrow> window \<Rightarrow> window" where
  "window_record s w = ring_append windowCapacity s w"

record Stats =
  st_Count :: int
  st_ErrorRate :: rat
  st_TimeoutRate :: rat
  st_P99Latency :: duration

definition zero_Stats :: Stats where
  "zero_Stats = \<lparr>st_Count = 0, st_ErrorRate = 0, st_TimeoutRate = 0, st_P99Latency = 0\<rparr>"

text \<open>The summary of the samples that are recent enough, in whatever order they come.\<close>

definition summarize :: "sample list \<Rightarrow> Stats" where
  "summarize live =
     (let n = length live in
      if n = 0 then zero_Stats
      else
        (let latencies = sort (map sm_latency live);
             p0 = nat \<lfloor>of_nat n * (99 / 100 :: rat)\<rfloor>;
             p99Index = (if p0 \<ge> n then n - 1 else p0)
         in \<lparr>st_Count = int n,
             st_ErrorRate = of_nat (length (filter sm_failed live)) / of_nat n,
             st_TimeoutRate = of_nat (length (filter sm_timeout live)) / of_nat n,
             st_P99Latency = latencies ! p99Index\<rparr>))"

definition window_stats :: "instant \<Rightarrow> window \<Rightarrow> Stats" where
  "window_stats now w =
     summarize (filter (\<lambda>s. \<not> now - sm_at s > windowDuration) (take (rb_count w) (rb_entries w)))"

type_synonym Recorder = "string \<Rightarrow> window option"

definition NewRecorder :: "string list \<Rightarrow> Recorder" where
  "NewRecorder providers name =
     (if name \<in> set providers then Some (ring_new windowCapacity zero_sample) else None)"

text \<open>The outcome of a call: success, a provider's error, or any other error.\<close>

datatype outcome = CallOK | CallFailed PError | CallBroken

definition Record :: "instant \<Rightarrow> string \<Rightarrow> duration \<Rightarrow> outcome \<Rightarrow> Recorder \<Rightarrow> Recorder" where
  "Record now providerName latency err r =
     (case r providerName of
        None \<Rightarrow> r
      | Some w \<Rightarrow>
          (let s = \<lparr>sm_at = now, sm_latency = latency, sm_failed = (err \<noteq> CallOK),
                    sm_timeout = (case err of CallFailed e \<Rightarrow> pe_Kind e = KindTimeout | _ \<Rightarrow> False)\<rparr>
           in r(providerName := Some (window_record s w))))"

definition Recorder_Stats :: "instant \<Rightarrow> Recorder \<Rightarrow> string \<Rightarrow> Stats" where
  "Recorder_Stats now r providerName =
     (case r providerName of None \<Rightarrow> zero_Stats | Some w \<Rightarrow> window_stats now w)"

section \<open>Status\<close>

datatype Status = StatusHealthy | StatusDegraded | StatusDown

fun Status_String :: "Status \<Rightarrow> string" where
  "Status_String StatusHealthy = ''healthy''"
| "Status_String StatusDegraded = ''degraded''"
| "Status_String StatusDown = ''down''"

definition parseStatus :: "string \<Rightarrow> Status option" where
  "parseStatus s =
     (if s = ''healthy'' then Some StatusHealthy
      else if s = ''degraded'' then Some StatusDegraded
      else if s = ''down'' then Some StatusDown
      else None)"

definition statusKey :: "string \<Rightarrow> string" where
  "statusKey providerName = ''switchyard:health:'' @ providerName @ '':status''"

record MonitorConfig =
  mc_DegradedErrorRate :: rat
  mc_DownErrorRate :: rat
  mc_DownConsecutiveFailures :: int
  mc_RecoveryStreak :: int

datatype MonitorConfigError =
  BadDegradedRate | BadDownRate | DownNotAboveDegraded | BadDownFailures | BadRecoveryStreak

definition MonitorConfig_validate :: "MonitorConfig \<Rightarrow> MonitorConfigError option" where
  "MonitorConfig_validate c =
     (if mc_DegradedErrorRate c \<le> 0 \<or> mc_DegradedErrorRate c \<ge> 1 then Some BadDegradedRate
      else if mc_DownErrorRate c \<le> 0 \<or> mc_DownErrorRate c \<ge> 1 then Some BadDownRate
      else if mc_DownErrorRate c \<le> mc_DegradedErrorRate c then Some DownNotAboveDegraded
      else if mc_DownConsecutiveFailures c \<le> 0 then Some BadDownFailures
      else if mc_RecoveryStreak c \<le> 0 then Some BadRecoveryStreak
      else None)"

definition baselineMultiplier :: rat where
  "baselineMultiplier = 3"

definition baselineAlpha :: rat where
  "baselineAlpha = 1 / 5"

record Transition =
  tr_At :: instant
  tr_From :: Status
  tr_To :: Status
  tr_Reason :: string

definition transitionHistoryCapacity :: nat where
  "transitionHistoryCapacity = 100"

type_synonym transitionLog = "Transition ring"

definition zero_Transition :: Transition where
  "zero_Transition = \<lparr>tr_At = 0, tr_From = StatusHealthy, tr_To = StatusHealthy, tr_Reason = []\<rparr>"

definition log_append :: "Transition \<Rightarrow> transitionLog \<Rightarrow> transitionLog" where
  "log_append t l = ring_append transitionHistoryCapacity t l"

definition log_recent :: "transitionLog \<Rightarrow> Transition list" where
  "log_recent l = ring_recent transitionHistoryCapacity l"

definition log_last :: "transitionLog \<Rightarrow> Transition option" where
  "log_last l = ring_last transitionHistoryCapacity l"

record providerState =
  ps_status :: Status
  ps_consecutiveFails :: int
  ps_recoveryStreak :: int
  ps_baselineP99 :: duration
  ps_haveBaseline :: bool
  ps_lastCheckAt :: instant
  ps_history :: transitionLog

definition new_providerState :: providerState where
  "new_providerState =
     \<lparr>ps_status = StatusHealthy, ps_consecutiveFails = 0, ps_recoveryStreak = 0, ps_baselineP99 = 0,
      ps_haveBaseline = False, ps_lastCheckAt = 0,
      ps_history = ring_new transitionHistoryCapacity zero_Transition\<rparr>"

section \<open>Evaluation\<close>

definition health_classify ::
  "MonitorConfig \<Rightarrow> bool \<Rightarrow> providerState \<Rightarrow> Stats \<Rightarrow> Status \<times> string" where
  "health_classify cfg breakerOpen st stats =
     (if ps_consecutiveFails st \<ge> mc_DownConsecutiveFailures cfg
      then (StatusDown, ''consecutive_ping_failures'')
      else if st_Count stats > 0 \<and> st_ErrorRate stats \<ge> mc_DownErrorRate cfg
      then (StatusDown, ''error_rate_hard_threshold'')
      else if breakerOpen then (StatusDegraded, ''circuit_breaker_open'')
      else if st_Count stats > 0 \<and> st_ErrorRate stats \<ge> mc_DegradedErrorRate cfg
      then (StatusDegraded, ''error_rate_threshold'')
      else if ps_haveBaseline st \<and> st_Count stats > 0 \<and>
              of_int (st_P99Latency stats) \<ge> baselineMultiplier * of_int (ps_baselineP99 st)
      then (StatusDegraded, ''p99_above_baseline'')
      else (StatusHealthy, ''within_thresholds''))"

text \<open>\<open>setStatus\<close> also names the status to persist.\<close>

definition setStatus :: "instant \<Rightarrow> Status \<Rightarrow> string \<Rightarrow> providerState \<Rightarrow> providerState \<times> Status option" where
  "setStatus now newStatus reason st =
     (st\<lparr>ps_status := newStatus,
         ps_history := log_append \<lparr>tr_At = now, tr_From = ps_status st, tr_To = newStatus, tr_Reason = reason\<rparr>
                         (ps_history st)\<rparr>,
      Some newStatus)"

definition transition ::
  "MonitorConfig \<Rightarrow> instant \<Rightarrow> Status \<Rightarrow> string \<Rightarrow> bool \<Rightarrow> providerState \<Rightarrow> providerState \<times> Status option" where
  "transition cfg now raw reason pingOK st =
     (if raw \<noteq> StatusHealthy then
        (let st1 = st\<lparr>ps_recoveryStreak := 0\<rparr> in
         if raw \<noteq> ps_status st1 then setStatus now raw reason st1 else (st1, None))
      else if ps_status st = StatusHealthy then (st, None)
      else if \<not> pingOK then (st\<lparr>ps_recoveryStreak := 0\<rparr>, None)
      else
        (let st1 = st\<lparr>ps_recoveryStreak := ps_recoveryStreak st + 1\<rparr> in
         if ps_recoveryStreak st1 < mc_RecoveryStreak cfg then (st1, None)
         else (case setStatus now StatusHealthy ''recovered'' st1 of
                 (st2, p) \<Rightarrow> (st2\<lparr>ps_recoveryStreak := 0\<rparr>, p))))"

definition updateBaseline :: "Stats \<Rightarrow> providerState \<Rightarrow> providerState" where
  "updateBaseline stats st =
     (if st_Count stats = 0 then st
      else if \<not> ps_haveBaseline st
      then st\<lparr>ps_baselineP99 := st_P99Latency stats, ps_haveBaseline := True\<rparr>
      else st\<lparr>ps_baselineP99 :=
               rtrunc (baselineAlpha * of_int (st_P99Latency stats) +
                       (1 - baselineAlpha) * of_int (ps_baselineP99 st))\<rparr>)"

definition observe_state ::
  "MonitorConfig \<Rightarrow> instant \<Rightarrow> bool \<Rightarrow> Stats \<Rightarrow> bool \<Rightarrow> providerState \<Rightarrow> providerState \<times> Status option" where
  "observe_state cfg now breakerOpen stats pingOK st0 =
     (let st1 = st0\<lparr>ps_lastCheckAt := now,
                    ps_consecutiveFails := (if pingOK then 0 else ps_consecutiveFails st0 + 1)\<rparr>;
          (raw, reason) = health_classify cfg breakerOpen st1 stats;
          (st2, p) = transition cfg now raw reason pingOK st1
      in (updateBaseline stats st2, p))"

section \<open>The monitor\<close>

record Monitor =
  mn_states :: "string \<Rightarrow> providerState option"
  mn_order :: "string list"

text \<open>Writing a status to Redis is best effort: the result of the call is only logged.\<close>

definition persist :: "'r redis_api \<Rightarrow> rpc \<Rightarrow> string \<Rightarrow> Status \<Rightarrow> 'r \<Rightarrow> 'r" where
  "persist R net providerName status r =
     snd (rcall net (\<lambda>r. (Some (), rSET R (statusKey providerName) (RStr (Status_String status)) r)) r)"

text \<open>
  \<open>breakers\<close> is the breaker oracle; without one it never reports an open breaker. The monitor
  has a Redis client or none.
\<close>

definition Observe ::
  "MonitorConfig \<Rightarrow> 'r redis_api option \<Rightarrow> (string \<Rightarrow> bool) \<Rightarrow> Recorder \<Rightarrow> rpc \<Rightarrow> instant \<Rightarrow> string \<Rightarrow> bool \<Rightarrow>
   Monitor \<times> 'r \<Rightarrow> Monitor \<times> 'r" where
  "Observe cfg rdb breakers recorder net now providerName pingOK mr =
     (case mr of (m, r) \<Rightarrow>
      (case mn_states m providerName of
         None \<Rightarrow> (m, r)
       | Some st \<Rightarrow>
           (case observe_state cfg now (breakers providerName) (Recorder_Stats now recorder providerName) pingOK st of
              (st', p) \<Rightarrow>
                (m\<lparr>mn_states := (mn_states m)(providerName \<mapsto> st')\<rparr>,
                 (case (p, rdb) of
                    (Some s, Some R) \<Rightarrow> persist R net providerName s r
                  | _ \<Rightarrow> r)))))"

definition restore_one :: "'r redis_api \<Rightarrow> 'r \<Rightarrow> string \<Rightarrow> Monitor \<Rightarrow> Monitor" where
  "restore_one R r name m =
     (case rGET R r (statusKey name) of
        Some (RStr s) \<Rightarrow>
          (case (parseStatus s, mn_states m name) of
             (Some status, Some st) \<Rightarrow> m\<lparr>mn_states := (mn_states m)(name \<mapsto> st\<lparr>ps_status := status\<rparr>)\<rparr>
           | _ \<Rightarrow> m)
      | _ \<Rightarrow> m)"

definition restoreFromRedis :: "'r redis_api option \<Rightarrow> rpc \<Rightarrow> string list \<Rightarrow> 'r \<Rightarrow> Monitor \<Rightarrow> Monitor" where
  "restoreFromRedis rdb net providers r m =
     (case rdb of
        None \<Rightarrow> m
      | Some R \<Rightarrow>
          (if providers = [] \<or> net \<noteq> Delivered then m else fold (restore_one R r) providers m))"

definition NewMonitor ::
  "MonitorConfig \<Rightarrow> 'r redis_api option \<Rightarrow> rpc \<Rightarrow> string list \<Rightarrow> 'r \<Rightarrow> MonitorConfigError + Monitor" where
  "NewMonitor cfg rdb net providers r =
     (case MonitorConfig_validate cfg of
        Some e \<Rightarrow> Inl e
      | None \<Rightarrow>
          Inr (restoreFromRedis rdb net providers r
            \<lparr>mn_states = (\<lambda>n. if n \<in> set providers then Some new_providerState else None),
             mn_order = providers\<rparr>))"

definition Monitor_Status :: "Monitor \<Rightarrow> string \<Rightarrow> Status" where
  "Monitor_Status m providerName =
     (case mn_states m providerName of None \<Rightarrow> StatusHealthy | Some st \<Rightarrow> ps_status st)"

record ProviderHealth =
  ph_Provider :: string
  ph_Status :: Status
  ph_ErrorRate :: rat
  ph_P99Latency :: duration
  ph_LastCheckAt :: instant
  ph_LastTransition :: "Transition option"
  ph_History :: "Transition list"

definition Snapshot :: "instant \<Rightarrow> Recorder \<Rightarrow> Monitor \<Rightarrow> string \<Rightarrow> ProviderHealth option" where
  "Snapshot now recorder m providerName =
     (case mn_states m providerName of
        None \<Rightarrow> None
      | Some st \<Rightarrow>
          (let stats = Recorder_Stats now recorder providerName in
           Some \<lparr>ph_Provider = providerName, ph_Status = ps_status st, ph_ErrorRate = st_ErrorRate stats,
                 ph_P99Latency = st_P99Latency stats, ph_LastCheckAt = ps_lastCheckAt st,
                 ph_LastTransition = log_last (ps_history st), ph_History = log_recent (ps_history st)\<rparr>))"

definition Snapshots :: "instant \<Rightarrow> Recorder \<Rightarrow> Monitor \<Rightarrow> ProviderHealth list" where
  "Snapshots now recorder m = List.map_filter (Snapshot now recorder m) (mn_order m)"

definition AllDown :: "Monitor \<Rightarrow> bool" where
  "AllDown m \<longleftrightarrow> mn_order m \<noteq> [] \<and> list_all (\<lambda>n. Monitor_Status m n = StatusDown) (mn_order m)"

definition healthStatusValue :: "Status \<Rightarrow> int" where
  "healthStatusValue s = (case s of StatusDown \<Rightarrow> 0 | StatusDegraded \<Rightarrow> 1 | StatusHealthy \<Rightarrow> 2)"

section \<open>The checker\<close>

datatype CheckerError = BadInterval | BadCheckTimeout | TimeoutNotBelowInterval

definition NewChecker :: "duration \<Rightarrow> duration \<Rightarrow> CheckerError option" where
  "NewChecker interval timeout =
     (if interval \<le> 0 then Some BadInterval
      else if timeout \<le> 0 then Some BadCheckTimeout
      else if timeout \<ge> interval then Some TimeoutNotBelowInterval
      else None)"

text \<open>One check: the outcome of the ping goes to the monitor and nowhere else.\<close>

definition checker_check ::
  "MonitorConfig \<Rightarrow> 'r redis_api option \<Rightarrow> (string \<Rightarrow> bool) \<Rightarrow> Recorder \<Rightarrow> (string \<Rightarrow> bool) \<Rightarrow> rpc \<Rightarrow> instant \<Rightarrow> string \<Rightarrow>
   Monitor \<times> 'r \<Rightarrow> Monitor \<times> 'r" where
  "checker_check cfg rdb breakers recorder ping net now name mr =
     Observe cfg rdb breakers recorder net now name (ping name) mr"

section \<open>Facts on the window\<close>

lemma summarize_perm:
  assumes "mset xs = mset ys"
  shows "summarize xs = summarize ys"
proof -
  have len: "length xs = length ys" using assms by (rule mset_eq_length)
  have "length (filter P xs) = length (filter P ys)" for P
    using arg_cong [OF assms, of "\<lambda>m. size (filter_mset P m)"] by (metis mset_filter size_mset)
  moreover have "sort (map sm_latency xs) = sort (map sm_latency ys)"
    using assms by (metis mset_map mset_sort properties_for_sort sorted_sort)
  ultimately show ?thesis using len by (simp add: summarize_def Let_def)
qed

definition window_of :: "sample list \<Rightarrow> window \<Rightarrow> bool" where
  "window_of xs w \<longleftrightarrow> ring_of windowCapacity xs w"

lemma window_of_fold:
  "window_of xs w \<Longrightarrow> window_of (xs @ ys) (fold window_record ys w)"
proof (induction ys arbitrary: xs w)
  case (Cons y ys)
  have "window_of (xs @ [y]) (window_record y w)"
    using Cons.prems ring_of_append [of windowCapacity xs w y]
    by (simp add: window_of_def window_record_def windowCapacity_def)
  then show ?case using Cons.IH by fastforce
qed simp

lemma p99_index: "0 < n \<Longrightarrow> n \<le> 100 \<Longrightarrow> nat \<lfloor>of_nat n * (99 / 100 :: rat)\<rfloor> = n - 1"
proof -
  assume n: "0 < n" "n \<le> 100"
  have "\<lfloor>of_nat n * (99 / 100 :: rat)\<rfloor> = int n - 1"
    using n by (intro floor_unique) (auto simp: field_simps)
  then show ?thesis using n by simp
qed

lemma sorted_last_Max:
  assumes "xs \<noteq> []"
  shows "sort xs ! (length xs - 1) = Max (set (xs :: int list))"
proof -
  have "sort xs ! (length xs - 1) = Max (set (sort xs))"
  proof (rule Max_eqI [symmetric])
    show "y \<le> sort xs ! (length xs - 1)" if y: "y \<in> set (sort xs)" for y
    proof -
      obtain i where "i < length (sort xs)" "y = sort xs ! i" using y by (metis in_set_conv_nth)
      then show ?thesis using sorted_nth_mono [OF sorted_sort, of i "length xs - 1" xs] by simp
    qed
    show "sort xs ! (length xs - 1) \<in> set (sort xs)" using assms by (intro nth_mem) simp
  qed simp
  then show ?thesis by simp
qed

section \<open>Hysteresis\<close>

text \<open>What one check feeds to the evaluation.\<close>

type_synonym observation = "instant \<times> bool \<times> Stats \<times> bool"

definition observe_run ::
  "MonitorConfig \<Rightarrow> observation list \<Rightarrow> providerState \<Rightarrow> providerState" where
  "observe_run cfg os st =
     fold (\<lambda>(now, brk, stats, pingOK) st. fst (observe_state cfg now brk stats pingOK st)) os st"

lemma baseline_keeps [simp]:
  "ps_status (updateBaseline stats st) = ps_status st"
  "ps_recoveryStreak (updateBaseline stats st) = ps_recoveryStreak st"
  "ps_consecutiveFails (updateBaseline stats st) = ps_consecutiveFails st"
  "ps_history (updateBaseline stats st) = ps_history st"
  by (simp_all add: updateBaseline_def)

lemma observe_status:
  "ps_status (fst (observe_state cfg now brk stats pingOK st)) =
     (let raw = fst (health_classify cfg brk
            (st\<lparr>ps_lastCheckAt := now, ps_consecutiveFails := (if pingOK then 0 else ps_consecutiveFails st + 1)\<rparr>) stats) in
      if raw \<noteq> StatusHealthy then raw
      else if ps_status st \<noteq> StatusHealthy \<and> (\<not> pingOK \<or> ps_recoveryStreak st + 1 < mc_RecoveryStreak cfg)
      then ps_status st else StatusHealthy)"
  "ps_recoveryStreak (fst (observe_state cfg now brk stats pingOK st)) =
     (let raw = fst (health_classify cfg brk
            (st\<lparr>ps_lastCheckAt := now, ps_consecutiveFails := (if pingOK then 0 else ps_consecutiveFails st + 1)\<rparr>) stats) in
      if raw \<noteq> StatusHealthy then 0
      else if ps_status st = StatusHealthy then ps_recoveryStreak st
      else if \<not> pingOK then 0
      else if ps_recoveryStreak st + 1 < mc_RecoveryStreak cfg then ps_recoveryStreak st + 1 else 0)"
  by (auto simp: observe_state_def transition_def setStatus_def Let_def split: prod.splits)

lemma streak_grows_slowly:
  assumes "ps_status st \<noteq> StatusHealthy" "int (length os) + ps_recoveryStreak st < mc_RecoveryStreak cfg" "0 \<le> ps_recoveryStreak st"
  shows "ps_status (observe_run cfg os st) \<noteq> StatusHealthy"
  using assms
proof (induction os arbitrary: st)
  case (Cons o' os)
  obtain now brk stats pingOK where o': "o' = (now, brk, stats, pingOK)" by (metis prod_cases4)
  let ?st = "fst (observe_state cfg now brk stats pingOK st)"
  have "ps_status ?st \<noteq> StatusHealthy" "ps_recoveryStreak ?st \<le> ps_recoveryStreak st + 1" "0 \<le> ps_recoveryStreak ?st"
    using Cons.prems by (auto simp: observe_status Let_def)
  then show ?case using Cons.IH [of ?st] Cons.prems by (simp add: observe_run_def o')
qed (simp add: observe_run_def)

text \<open>A clean observation: the ping succeeds, no breaker is open and no request was seen.\<close>

definition idle_clean :: "observation \<Rightarrow> bool" where
  "idle_clean ob \<longleftrightarrow> (case ob of (now, brk, stats, pingOK) \<Rightarrow> \<not> brk \<and> st_Count stats = 0 \<and> pingOK)"

lemma clean_step:
  assumes "MonitorConfig_validate cfg = None" "ps_status st \<noteq> StatusHealthy" "\<not> brk" "st_Count stats = 0"
  shows "ps_status (fst (observe_state cfg now brk stats True st)) =
      (if ps_recoveryStreak st + 1 < mc_RecoveryStreak cfg then ps_status st else StatusHealthy)"
    "ps_recoveryStreak (fst (observe_state cfg now brk stats True st)) =
      (if ps_recoveryStreak st + 1 < mc_RecoveryStreak cfg then ps_recoveryStreak st + 1 else 0)"
proof -
  have "0 < mc_DownConsecutiveFailures cfg" using assms(1) by (auto simp: MonitorConfig_validate_def split: if_splits)
  then have "fst (health_classify cfg brk (st\<lparr>ps_lastCheckAt := now, ps_consecutiveFails := 0\<rparr>) stats) = StatusHealthy"
    using assms by (simp add: health_classify_def)
  then show "ps_status (fst (observe_state cfg now brk stats True st)) =
      (if ps_recoveryStreak st + 1 < mc_RecoveryStreak cfg then ps_status st else StatusHealthy)"
    "ps_recoveryStreak (fst (observe_state cfg now brk stats True st)) =
      (if ps_recoveryStreak st + 1 < mc_RecoveryStreak cfg then ps_recoveryStreak st + 1 else 0)"
    using assms(2) by (simp_all add: observe_status Let_def)
qed

lemma clean_run_recovers:
  assumes "MonitorConfig_validate cfg = None" "ps_status st \<noteq> StatusHealthy" "0 \<le> ps_recoveryStreak st"
    and "list_all idle_clean os" "ps_recoveryStreak st + int (length os) = mc_RecoveryStreak cfg" "os \<noteq> []"
  shows "ps_status (observe_run cfg os st) = StatusHealthy"
  using assms(2-6)
proof (induction os arbitrary: st)
  case (Cons o' os)
  obtain now brk stats where o': "o' = (now, brk, stats, True)" "\<not> brk" "st_Count stats = 0"
    using Cons.prems(3) by (cases o') (auto simp: idle_clean_def)
  let ?st = "fst (observe_state cfg now brk stats True st)"
  note step = clean_step [OF assms(1) Cons.prems(1) o'(2,3), of now]
  show ?case
  proof (cases "os = []")
    case True
    then show ?thesis using Cons.prems step o' by (simp add: observe_run_def)
  next
    case False
    then have "0 < int (length os)" by simp
    moreover have "ps_recoveryStreak st + (1 + int (length os)) = mc_RecoveryStreak cfg" using Cons.prems(4) by simp
    ultimately have "ps_recoveryStreak st + 1 < mc_RecoveryStreak cfg" by linarith
    then show ?thesis using Cons.IH [of ?st] Cons.prems step o' False by (simp add: observe_run_def)
  qed
qed simp

lemma bad_reading_shows:
  assumes "brk \<or> 0 < st_Count stats \<and> mc_DegradedErrorRate cfg \<le> st_ErrorRate stats"
  shows "ps_status (fst (observe_state cfg now brk stats pingOK st)) \<noteq> StatusHealthy \<and>
    ps_recoveryStreak (fst (observe_state cfg now brk stats pingOK st)) = 0"
proof -
  have "fst (health_classify cfg brk st' stats) \<noteq> StatusHealthy" for st'
    using assms by (auto simp: health_classify_def)
  then show ?thesis by (simp add: observe_status Let_def)
qed

section \<open>Properties of provider health\<close>

text \<open>
  C27. The ring buffer is the last hundred requests: after any number of recorded requests the
  statistics are those of the last hundred that are at most sixty seconds old, with the
  99th percentile, on at most a hundred samples, the largest latency among them.
\<close>

theorem stats_of_last_hundred:
  "let live = filter (\<lambda>s. now - sm_at s \<le> windowDuration) (drop (length xs - windowCapacity) xs);
       stats = window_stats now (fold window_record xs (ring_new windowCapacity zero_sample)) in
   stats = summarize live \<and>
   (live \<noteq> [] \<longrightarrow> st_P99Latency stats = Max (sm_latency ` set live) \<and>
      0 \<le> st_ErrorRate stats \<and> st_ErrorRate stats \<le> 1)"
proof -
  let ?w = "fold window_record xs (ring_new windowCapacity zero_sample)"
  let ?P = "\<lambda>s. now - sm_at s \<le> windowDuration"
  let ?live = "filter ?P (drop (length xs - windowCapacity) xs)"
  have "ring_of windowCapacity xs ?w"
    using window_of_fold [of "[]" "ring_new windowCapacity zero_sample" xs]
      ring_of_new [of windowCapacity zero_sample] by (simp add: window_of_def)
  then have "mset (filter ?P (take (rb_count ?w) (rb_entries ?w))) = mset ?live"
    using ring_mset by (metis mset_filter)
  then have s: "window_stats now ?w = summarize ?live"
    unfolding window_stats_def not_less by (rule summarize_perm)
  have "st_P99Latency (summarize ?live) = Max (sm_latency ` set ?live) \<and>
      0 \<le> st_ErrorRate (summarize ?live) \<and> st_ErrorRate (summarize ?live) \<le> 1" if ne: "?live \<noteq> []"
  proof -
    have "length ?live \<le> length (drop (length xs - windowCapacity) xs)" by (rule length_filter_le)
    then have len: "0 < length ?live" "length ?live \<le> 100" using ne by (auto simp: windowCapacity_def)
    note idx = p99_index [OF len]
    have "sort (map sm_latency ?live) ! (length ?live - 1) = Max (sm_latency ` set ?live)"
      using sorted_last_Max [of "map sm_latency ?live"] ne by simp
    moreover have "length (filter sm_failed ?live) \<le> length ?live" by (rule length_filter_le)
    ultimately show ?thesis using len unfolding summarize_def Let_def idx by (simp add: divide_le_eq_1)
  qed
  then show ?thesis unfolding Let_def s by blast
qed

definition one_failure :: sample where
  "one_failure = \<lparr>sm_at = 0, sm_latency = 7, sm_failed = True, sm_timeout = False\<rparr>"

theorem stats_of_last_hundred_witness:
  "st_P99Latency (window_stats 1 (fold window_record [one_failure] (ring_new windowCapacity zero_sample))) = 7"
proof -
  have "Suc 0 - windowCapacity = 0" by (simp add: windowCapacity_def)
  then show ?thesis using stats_of_last_hundred [of 1 "[one_failure]"]
    by (simp add: Let_def windowDuration_def one_failure_def summarize_def)
qed

text \<open>
  Hysteresis. A bad reading takes effect at once and clears the recovery streak; a
  provider that is not healthy stays so through any observations fewer than the recovery
  streak; and exactly that many clean checks of an idle provider bring it back.
\<close>

theorem recovery_needs_streak:
  assumes "MonitorConfig_validate cfg = None" "ps_status st \<noteq> StatusHealthy" "ps_recoveryStreak st = 0"
  shows "(int (length os) < mc_RecoveryStreak cfg \<longrightarrow> ps_status (observe_run cfg os st) \<noteq> StatusHealthy) \<and>
    (list_all idle_clean os \<and> int (length os) = mc_RecoveryStreak cfg \<longrightarrow>
       ps_status (observe_run cfg os st) = StatusHealthy) \<and>
    (brk \<or> 0 < st_Count stats \<and> mc_DegradedErrorRate cfg \<le> st_ErrorRate stats \<longrightarrow>
       ps_status (fst (observe_state cfg now brk stats pingOK any)) \<noteq> StatusHealthy \<and>
       ps_recoveryStreak (fst (observe_state cfg now brk stats pingOK any)) = 0)"
proof -
  have "0 < mc_RecoveryStreak cfg" using assms(1) by (auto simp: MonitorConfig_validate_def split: if_splits)
  then have "list_all idle_clean os \<and> int (length os) = mc_RecoveryStreak cfg \<longrightarrow>
       ps_status (observe_run cfg os st) = StatusHealthy"
    using clean_run_recovers [OF assms(1,2), of os] assms(3) by (cases os) simp_all
  then show ?thesis
    using streak_grows_slowly [of st os cfg] assms(2,3) bad_reading_shows [of brk stats cfg now pingOK any]
    by simp
qed

definition mcfg :: MonitorConfig where
  "mcfg = \<lparr>mc_DegradedErrorRate = 1 / 10, mc_DownErrorRate = 1 / 2, mc_DownConsecutiveFailures = 3, mc_RecoveryStreak = 2\<rparr>"

theorem recovery_needs_streak_witness:
  "ps_status (observe_run mcfg [(1, False, zero_Stats, True)] (new_providerState\<lparr>ps_status := StatusDown\<rparr>)) \<noteq> StatusHealthy \<and>
   ps_status (observe_run mcfg [(1, False, zero_Stats, True), (2, False, zero_Stats, True)]
     (new_providerState\<lparr>ps_status := StatusDown\<rparr>)) = StatusHealthy"
  using recovery_needs_streak [of mcfg "new_providerState\<lparr>ps_status := StatusDown\<rparr>" "[(1, False, zero_Stats, True)]"]
    recovery_needs_streak [of mcfg "new_providerState\<lparr>ps_status := StatusDown\<rparr>"
      "[(1, False, zero_Stats, True), (2, False, zero_Stats, True)]"]
  by (simp add: mcfg_def MonitorConfig_validate_def new_providerState_def idle_clean_def zero_Stats_def)

text \<open>
  The transition log keeps the last hundred changes, newest first, and what it calls the
  last transition is the newest of them.
\<close>

theorem log_keeps_last_hundred:
  "log_recent (fold log_append ts (ring_new transitionHistoryCapacity zero_Transition)) =
     take transitionHistoryCapacity (rev ts) \<and>
   log_last (fold log_append ts (ring_new transitionHistoryCapacity zero_Transition)) =
     (if ts = [] then None else Some (last ts))"
proof -
  have "ring_of transitionHistoryCapacity (us @ ts) (fold log_append ts l)"
    if "ring_of transitionHistoryCapacity us l" for us l
    using that
  proof (induction ts arbitrary: us l)
    case (Cons t ts)
    have "ring_of transitionHistoryCapacity (us @ [t]) (log_append t l)"
      using ring_of_append [OF Cons.prems] by (simp add: log_append_def transitionHistoryCapacity_def)
    then show ?case using Cons.IH by fastforce
  qed simp
  from this [of "[]", OF ring_of_new] have "ring_of transitionHistoryCapacity ts
      (fold log_append ts (ring_new transitionHistoryCapacity zero_Transition))" by simp
  moreover have "0 < transitionHistoryCapacity" by (simp add: transitionHistoryCapacity_def)
  ultimately show ?thesis
    unfolding log_recent_def log_last_def using ring_recent_eq ring_last_eq by blast
qed

end
