(* ===== verification/BreakerStore.thy ===== *)
theory BreakerStore
  imports Redis
begin

text \<open>
  The shared half of the circuit breaker, \<open>internal/resilience/breaker_store.go\<close>: the three
  Lua scripts on a breaker's state hash, the probe lock taken with \<open>SET NX PX\<close>, and the
  decoding of the scripts' replies. The interface \<open>BreakerStore\<close> of
  \<open>internal/resilience/breaker.go\<close> is a record of operations on a world; its Redis
  implementation runs on a server and a list of the fates of the calls to come.
\<close>

section \<open>States, labels and keys\<close>

datatype State = StateClosed | StateOpen | StateHalfOpen

fun State_String :: "State \<Rightarrow> string" where
  "State_String StateClosed = ''closed''"
| "State_String StateOpen = ''open''"
| "State_String StateHalfOpen = ''half_open''"

definition parseState :: "string \<Rightarrow> State option" where
  "parseState s =
     (if s = ''closed'' then Some StateClosed
      else if s = ''open'' then Some StateOpen
      else if s = ''half_open'' then Some StateHalfOpen
      else None)"

record Labels =
  lb_Provider :: string
  lb_Model :: string

definition stateKey :: "Labels \<Rightarrow> string" where
  "stateKey labels = ''switchyard:breaker'' @ '':'' @ lb_Provider labels @ '':'' @ lb_Model labels"

definition probeKey :: "Labels \<Rightarrow> string" where
  "probeKey labels = stateKey labels @ '':probe''"

definition stateTTLSlack :: duration where
  "stateTTLSlack = 10 * minute"

definition Milliseconds :: "duration \<Rightarrow> int" where
  "Milliseconds d = tdiv d millisecond"

record SharedState =
  ss_State :: State
  ss_Reopens :: int
  ss_Successes :: int

section \<open>The scripts\<close>

text \<open>A script answers a list of strings and integers; Lua numbers lose their fraction.\<close>

datatype reply = RepStr string | RepInt int

definition script_now_ms :: "'r redis_api \<Rightarrow> 'r \<Rightarrow> rat" where
  "script_now_ms R r = of_int (rTIME R r div 1000000) * 1000 + of_int (rTIME R r mod 1000000 div 1000)"

definition or_zero :: "rat option \<Rightarrow> rat" where
  "or_zero v = (case v of None \<Rightarrow> 0 | Some q \<Rightarrow> q)"

definition loadScript :: "'r redis_api \<Rightarrow> string \<Rightarrow> 'r \<Rightarrow> reply list option \<times> 'r" where
  "loadScript R key r =
     (case rHGET R r key ''until_ms'' of
        None \<Rightarrow> (Some [RepStr ''closed'', RepInt 0, RepInt 0], r)
      | Some v \<Rightarrow>
          (case tonumber (Some v) of
             None \<Rightarrow> (None, r)
           | Some until_ms \<Rightarrow>
               (let reopens = or_zero (tonumber (rHGET R r key ''reopens''));
                    successes = or_zero (tonumber (rHGET R r key ''successes'')) in
                if script_now_ms R r < until_ms
                then (Some [RepStr ''open'', RepInt (rtrunc reopens), RepInt (rtrunc successes)], r)
                else (Some [RepStr ''half_open'', RepInt (rtrunc reopens), RepInt (rtrunc successes)], r))))"

definition openScript ::
  "'r redis_api \<Rightarrow> string \<Rightarrow> string \<Rightarrow> int \<Rightarrow> int \<Rightarrow> int \<Rightarrow> 'r \<Rightarrow> reply list option \<times> 'r" where
  "openScript R key probe_key cooldown_ms reopens ttl_ms r =
     (let now_ms = script_now_ms R r;
          r1 = rHSET R key [(''until_ms'', RNum (now_ms + of_int cooldown_ms)),
                 (''reopens'', RNum (of_int reopens)), (''successes'', RNum 0)] r;
          r2 = rPEXPIRE R key ttl_ms r1
      in (Some [RepInt 1], rDEL R probe_key r2))"

definition probeSuccessScript ::
  "'r redis_api \<Rightarrow> string \<Rightarrow> string \<Rightarrow> int \<Rightarrow> 'r \<Rightarrow> reply list option \<times> 'r" where
  "probeSuccessScript R key probe_key threshold r =
     (if \<not> rEXISTS R r key
      then (Some [RepStr ''closed'', RepInt 0], rDEL R probe_key r)
      else (case rHINCRBY R key ''successes'' 1 r of
              (None, r1) \<Rightarrow> (None, r1)
            | (Some successes, r1) \<Rightarrow>
                (if successes \<ge> threshold
                 then (Some [RepStr ''closed'', RepInt successes], rDEL R probe_key (rDEL R key r1))
                 else (Some [RepStr ''half_open'', RepInt successes], rDEL R probe_key r1))))"

section \<open>Decoding\<close>

definition parseScriptInt :: "reply \<Rightarrow> int option" where
  "parseScriptInt v = (case v of RepInt n \<Rightarrow> Some n | RepStr _ \<Rightarrow> None)"

definition parseSharedState :: "reply list \<Rightarrow> SharedState option" where
  "parseSharedState raw =
     (if length raw < 2 then None
      else case raw ! 0 of
        RepInt _ \<Rightarrow> None
      | RepStr name \<Rightarrow>
          (case parseState name of
             None \<Rightarrow> None
           | Some state \<Rightarrow>
               (if length raw = 2 then
                  (case parseScriptInt (raw ! 1) of
                     None \<Rightarrow> None
                   | Some n \<Rightarrow> Some \<lparr>ss_State = state, ss_Reopens = 0, ss_Successes = n\<rparr>)
                else
                  (case parseScriptInt (raw ! 1) of
                     None \<Rightarrow> None
                   | Some reopens \<Rightarrow>
                       (case parseScriptInt (raw ! 2) of
                          None \<Rightarrow> None
                        | Some successes \<Rightarrow>
                            Some \<lparr>ss_State = state, ss_Reopens = reopens, ss_Successes = successes\<rparr>)))))"

section \<open>The store\<close>

record 'w BreakerStore =
  bs_Load :: "'w \<Rightarrow> SharedState option \<times> 'w"
  bs_Open :: "duration \<Rightarrow> int \<Rightarrow> 'w \<Rightarrow> bool \<times> 'w"
  bs_RecordProbeSuccess :: "int \<Rightarrow> 'w \<Rightarrow> SharedState option \<times> 'w"
  bs_ClaimProbe :: "duration \<Rightarrow> 'w \<Rightarrow> bool option \<times> 'w"
  bs_Reset :: "'w \<Rightarrow> bool \<times> 'w"

definition Load :: "'r redis_api \<Rightarrow> Labels \<Rightarrow> rpc \<Rightarrow> 'r \<Rightarrow> SharedState option \<times> 'r" where
  "Load R labels net r =
     (case rcall net (loadScript R (stateKey labels)) r of
        (None, r') \<Rightarrow> (None, r')
      | (Some raw, r') \<Rightarrow> (parseSharedState raw, r'))"

definition Open :: "'r redis_api \<Rightarrow> Labels \<Rightarrow> rpc \<Rightarrow> duration \<Rightarrow> int \<Rightarrow> 'r \<Rightarrow> bool \<times> 'r" where
  "Open R labels net cooldown reopens r =
     (case rcall net (openScript R (stateKey labels) (probeKey labels) (Milliseconds cooldown) reopens
            (Milliseconds (i64 (cooldown + stateTTLSlack)))) r of
        (None, r') \<Rightarrow> (False, r')
      | (Some _, r') \<Rightarrow> (True, r'))"

definition RecordProbeSuccess :: "'r redis_api \<Rightarrow> Labels \<Rightarrow> rpc \<Rightarrow> int \<Rightarrow> 'r \<Rightarrow> SharedState option \<times> 'r" where
  "RecordProbeSuccess R labels net threshold r =
     (case rcall net (probeSuccessScript R (stateKey labels) (probeKey labels) threshold) r of
        (None, r') \<Rightarrow> (None, r')
      | (Some raw, r') \<Rightarrow> (parseSharedState raw, r'))"

text \<open>
  The value stored under the lock is a rendering of the time, which nothing reads. The
  client rounds a positive expiry below a millisecond up to one.
\<close>

definition ClaimProbe :: "'r redis_api \<Rightarrow> Labels \<Rightarrow> string \<Rightarrow> rpc \<Rightarrow> duration \<Rightarrow> 'r \<Rightarrow> bool option \<times> 'r" where
  "ClaimProbe R labels stamp net ttl r =
     rcall net (\<lambda>r. case rSETNX R (probeKey labels) (RStr stamp) (max 1 (Milliseconds ttl)) r of
       (ok, r') \<Rightarrow> (Some ok, r')) r"

definition StoreReset :: "'r redis_api \<Rightarrow> Labels \<Rightarrow> rpc \<Rightarrow> 'r \<Rightarrow> bool \<times> 'r" where
  "StoreReset R labels net r =
     (case rcall net (\<lambda>r. (Some (), rDEL R (probeKey labels) (rDEL R (stateKey labels) r))) r of
        (None, r') \<Rightarrow> (False, r')
      | (Some _, r') \<Rightarrow> (True, r'))"

text \<open>The fate of the next call; once the list is used up, calls are delivered.\<close>

fun next_fate :: "rpc list \<Rightarrow> rpc \<times> rpc list" where
  "next_fate [] = (Delivered, [])"
| "next_fate (d # ds) = (d, ds)"

definition on_server :: "(rpc \<Rightarrow> 'r \<Rightarrow> 'a \<times> 'r) \<Rightarrow> 'r \<times> rpc list \<Rightarrow> 'a \<times> ('r \<times> rpc list)" where
  "on_server f w = (let (d, ds) = next_fate (snd w); (x, r') = f d (fst w) in (x, (r', ds)))"

definition RedisStore :: "'r redis_api \<Rightarrow> Labels \<Rightarrow> string \<Rightarrow> ('r \<times> rpc list) BreakerStore" where
  "RedisStore R labels stamp =
     \<lparr>bs_Load = on_server (Load R labels),
      bs_Open = (\<lambda>cooldown reopens. on_server (\<lambda>d. Open R labels d cooldown reopens)),
      bs_RecordProbeSuccess = (\<lambda>threshold. on_server (\<lambda>d. RecordProbeSuccess R labels d threshold)),
      bs_ClaimProbe = (\<lambda>ttl. on_server (\<lambda>d. ClaimProbe R labels stamp d ttl)),
      bs_Reset = on_server (StoreReset R labels)\<rparr>"

section \<open>What the stored episode says\<close>

text \<open>
  The episode a breaker's hash records, as its deadline in milliseconds, the count of
  consecutive episodes and the streak of probe successes; no episode is the closed state.
\<close>

definition episode :: "'r redis_api \<Rightarrow> Labels \<Rightarrow> 'r \<Rightarrow> (rat \<times> int \<times> int) option" where
  "episode R labels r =
     (case (tonumber (rHGET R r (stateKey labels) ''until_ms''),
            tonumber (rHGET R r (stateKey labels) ''reopens''),
            tonumber (rHGET R r (stateKey labels) ''successes'')) of
        (Some u, Some re, Some su) \<Rightarrow> Some (u, rtrunc re, rtrunc su)
      | _ \<Rightarrow> None)"

definition store_wf :: "'r redis_api \<Rightarrow> Labels \<Rightarrow> 'r \<Rightarrow> bool" where
  "store_wf R labels r \<longleftrightarrow>
     rGET R r (stateKey labels) = None \<and>
     (\<not> rEXISTS R r (stateKey labels) \<or>
      (\<exists>u re su. rHGET R r (stateKey labels) ''until_ms'' = Some (RNum u) \<and>
         rHGET R r (stateKey labels) ''reopens'' = Some (RNum (of_int re)) \<and>
         rHGET R r (stateKey labels) ''successes'' = Some (RNum (of_int su)) \<and> in_i64 (su + 1)))"

definition verdict :: "rat \<Rightarrow> (rat \<times> int \<times> int) option \<Rightarrow> SharedState" where
  "verdict now_ms e =
     (case e of
        None \<Rightarrow> \<lparr>ss_State = StateClosed, ss_Reopens = 0, ss_Successes = 0\<rparr>
      | Some (u, re, su) \<Rightarrow>
          \<lparr>ss_State = (if now_ms < u then StateOpen else StateHalfOpen), ss_Reopens = re, ss_Successes = su\<rparr>)"

lemma rtrunc_of_int [simp]: "rtrunc (of_int n) = n"
  by (simp add: rtrunc_def ceiling_minus)

lemma keys_distinct [simp]: "probeKey labels \<noteq> stateKey labels" "stateKey labels \<noteq> probeKey labels"
  by (simp_all add: probeKey_def)

lemma parse_triple:
  "parseSharedState [RepStr (State_String st), RepInt re, RepInt su] =
     Some \<lparr>ss_State = st, ss_Reopens = re, ss_Successes = su\<rparr>"
  "parseSharedState [RepStr (State_String st), RepInt su] =
     Some \<lparr>ss_State = st, ss_Reopens = 0, ss_Successes = su\<rparr>"
  by (cases st; simp add: parseSharedState_def parseState_def parseScriptInt_def)+

lemmas parse_literals [simp] =
  parse_triple [where st = StateClosed, simplified] parse_triple [where st = StateOpen, simplified]
  parse_triple [where st = StateHalfOpen, simplified]

lemma script_now_ms_eq: "script_now_ms R r = of_int (rTIME R r div 1000)"
proof -
  let ?t = "rTIME R r"
  have "?t mod 1000000 = 1000 * (?t div 1000 mod 1000) + ?t mod 1000"
    using zmod_zmult2_eq [of 1000 ?t 1000] by simp
  then have "?t mod 1000000 div 1000 = ?t div 1000 mod 1000" by simp
  moreover have "?t div 1000000 = ?t div 1000 div 1000" using zdiv_zmult2_eq [of 1000 ?t 1000] by simp
  ultimately have "?t div 1000000 * 1000 + ?t mod 1000000 div 1000 = ?t div 1000" by simp
  then show ?thesis unfolding script_now_ms_def by (metis of_int_add of_int_mult of_int_numeral)
qed

context redis_server
begin

lemma episode_cases:
  assumes "store_wf R labels r"
  obtains (none) "\<not> rEXISTS R r (stateKey labels)" "episode R labels r = None"
  | (some) u re su where "rEXISTS R r (stateKey labels)" "episode R labels r = Some (u, re, su)"
      "rHGET R r (stateKey labels) ''until_ms'' = Some (RNum u)"
      "rHGET R r (stateKey labels) ''reopens'' = Some (RNum (of_int re))"
      "rHGET R r (stateKey labels) ''successes'' = Some (RNum (of_int su))" "in_i64 (su + 1)"
proof (cases "rEXISTS R r (stateKey labels)")
  case False
  then show ?thesis using that(1) by (simp add: episode_def hget_absent)
next
  case True
  then show ?thesis using that(2) assms by (auto simp: store_wf_def episode_def)
qed

lemma Load_verdict:
  assumes "store_wf R labels r"
  shows "Load R labels Delivered r = (Some (verdict (script_now_ms R r) (episode R labels r)), r)"
  using assms
proof (cases rule: episode_cases)
  case none
  then show ?thesis by (simp add: Load_def loadScript_def hget_absent verdict_def)
next
  case (some u re su)
  then show ?thesis
    by (simp add: Load_def loadScript_def verdict_def or_zero_def Let_def)
qed

lemma opened_hash:
  assumes "rGET R r (stateKey labels) = None" "0 < Milliseconds (i64 (cooldown + stateTTLSlack))"
  shows "episode R labels (snd (Open R labels Delivered cooldown reopens r)) =
      Some (script_now_ms R r + of_int (Milliseconds cooldown), reopens, 0)"
    "store_wf R labels (snd (Open R labels Delivered cooldown reopens r))"
    "rLIFE R (snd (Open R labels Delivered cooldown reopens r)) (stateKey labels) =
      Some (Milliseconds (i64 (cooldown + stateTTLSlack)) * 1000)"
    "\<not> rEXISTS R (snd (Open R labels Delivered cooldown reopens r)) (probeKey labels)"
    "rTIME R (snd (Open R labels Delivered cooldown reopens r)) = rTIME R r"
proof -
  let ?fs = "[(''until_ms'', RNum (script_now_ms R r + of_int (Milliseconds cooldown))),
    (''reopens'', RNum (of_int reopens)), (''successes'', RNum 0)]"
  let ?r' = "snd (Open R labels Delivered cooldown reopens r)"
  have r': "?r' = rDEL R (probeKey labels)
      (rPEXPIRE R (stateKey labels) (Milliseconds (i64 (cooldown + stateTTLSlack))) (rHSET R (stateKey labels) ?fs r))"
    by (simp add: Open_def openScript_def Let_def)
  have hget: "rHGET R ?r' (stateKey labels) f = (case map_of ?fs f of Some v \<Rightarrow> Some v | None \<Rightarrow> rHGET R r (stateKey labels) f)" for f
    using assms by (simp add: r' hget_del hget_pexpire hget_hset)
  have ex: "rEXISTS R (rHSET R (stateKey labels) ?fs r) (stateKey labels)"
    by (rule exists_hset [OF assms(1), where f = "''reopens''"]) simp_all
  show "episode R labels ?r' = Some (script_now_ms R r + of_int (Milliseconds cooldown), reopens, 0)"
    using assms by (simp add: episode_def hget)
  show "store_wf R labels ?r'"
    unfolding store_wf_def
  proof (intro conjI disjI2 exI)
    show "rGET R ?r' (stateKey labels) = None" using assms by (simp add: r' get_del get_pexpire get_hset)
    show "rHGET R ?r' (stateKey labels) ''until_ms'' = Some (RNum (script_now_ms R r + of_int (Milliseconds cooldown)))"
      "rHGET R ?r' (stateKey labels) ''reopens'' = Some (RNum (of_int reopens))"
      "rHGET R ?r' (stateKey labels) ''successes'' = Some (RNum (of_int 0))" "in_i64 (0 + 1)"
      by (simp_all add: hget in_i64_def)
  qed
  show "rLIFE R ?r' (stateKey labels) = Some (Milliseconds (i64 (cooldown + stateTTLSlack)) * 1000)"
    using assms ex by (simp add: r' life_del life_pexpire)
  show "\<not> rEXISTS R ?r' (probeKey labels)" by (simp add: r' exists_del)
  show "rTIME R ?r' = rTIME R r" by (simp add: r' clock_laws)
qed

lemma wf_after_tick:
  assumes "store_wf R labels r" "0 \<le> d"
  shows "store_wf R labels (rTICK R d r)"
    "episode R labels (rTICK R d r) =
      (if rLIFE R r (stateKey labels) = None \<or> d < the (rLIFE R r (stateKey labels))
       then episode R labels r else None)"
  using assms by (auto simp: store_wf_def episode_def exists_tick hget_tick get_tick)

lemma probe_streak:
  assumes "store_wf R labels r"
  shows "RecordProbeSuccess R labels Delivered threshold r =
    (case episode R labels r of
       None \<Rightarrow> (Some \<lparr>ss_State = StateClosed, ss_Reopens = 0, ss_Successes = 0\<rparr>, rDEL R (probeKey labels) r)
     | Some (u, re, su) \<Rightarrow>
         (Some \<lparr>ss_State = (if threshold \<le> su + 1 then StateClosed else StateHalfOpen),
                ss_Reopens = 0, ss_Successes = su + 1\<rparr>,
          snd (RecordProbeSuccess R labels Delivered threshold r)))"
  using assms
proof (cases rule: episode_cases)
  case none
  then show ?thesis by (simp add: RecordProbeSuccess_def probeSuccessScript_def)
next
  case (some u re su)
  have "rGET R r (stateKey labels) = None" using assms by (simp add: store_wf_def)
  then have "fst (rHINCRBY R (stateKey labels) ''successes'' 1 r) = Some (su + 1)"
    using hincrby_number [of r "stateKey labels" "''successes''" su 1] some by simp
  then show ?thesis using some
    by (cases "rHINCRBY R (stateKey labels) ''successes'' 1 r")
      (simp add: RecordProbeSuccess_def probeSuccessScript_def)
qed

lemma streak_stored:
  assumes "store_wf R labels r" "episode R labels r = Some (u, re, su)"
  shows "episode R labels (snd (RecordProbeSuccess R labels Delivered threshold r)) =
      (if threshold \<le> su + 1 then None else Some (u, re, su + 1))"
    "\<not> rEXISTS R (snd (RecordProbeSuccess R labels Delivered threshold r)) (probeKey labels)"
proof -
  have "rEXISTS R r (stateKey labels) \<and>
      rHGET R r (stateKey labels) ''until_ms'' = Some (RNum u) \<and>
      rHGET R r (stateKey labels) ''reopens'' = Some (RNum (of_int re)) \<and>
      rHGET R r (stateKey labels) ''successes'' = Some (RNum (of_int su)) \<and> in_i64 (su + 1)"
    using assms(2) by (cases rule: episode_cases [OF assms(1)]) simp_all
  then have ex: "rEXISTS R r (stateKey labels)"
      "rHGET R r (stateKey labels) ''until_ms'' = Some (RNum u)"
      "rHGET R r (stateKey labels) ''reopens'' = Some (RNum (of_int re))"
      "rHGET R r (stateKey labels) ''successes'' = Some (RNum (of_int su))" "in_i64 (su + 1)"
    by blast+
  have "rGET R r (stateKey labels) = None" using assms(1) by (simp add: store_wf_def)
  then have inc: "fst (rHINCRBY R (stateKey labels) ''successes'' 1 r) = Some (su + 1)"
    using hincrby_number [of r "stateKey labels" "''successes''" su 1] ex by simp
  then obtain r1 where r1: "rHINCRBY R (stateKey labels) ''successes'' 1 r = (Some (su + 1), r1)"
    by (cases "rHINCRBY R (stateKey labels) ''successes'' 1 r") simp
  have r': "snd (RecordProbeSuccess R labels Delivered threshold r) =
      rDEL R (probeKey labels) (if threshold \<le> su + 1 then rDEL R (stateKey labels) r1 else r1)"
    using ex r1 by (simp add: RecordProbeSuccess_def probeSuccessScript_def)
  have "rHGET R r1 (stateKey labels) f = (if f = ''successes'' then Some (RNum (of_int (su + 1))) else rHGET R r (stateKey labels) f)" for f
    using hincrby_stored [OF inc, of "stateKey labels" f] r1 by simp
  moreover have "rtrunc (of_int su + 1 :: rat) = su + 1" using rtrunc_of_int [of "su + 1"] by simp
  ultimately show "episode R labels (snd (RecordProbeSuccess R labels Delivered threshold r)) =
      (if threshold \<le> su + 1 then None else Some (u, re, su + 1))"
    using ex by (simp add: r' episode_def hget_del)
  show "\<not> rEXISTS R (snd (RecordProbeSuccess R labels Delivered threshold r)) (probeKey labels)"
    by (simp add: r' exists_del)
qed

text \<open>The probe lock: taken when free, and held against everyone until its expiry.\<close>

lemma claim_free:
  assumes "\<not> rEXISTS R r (probeKey labels)"
  shows "fst (ClaimProbe R labels stamp Delivered ttl r) = Some True"
    "rGET R (snd (ClaimProbe R labels stamp Delivered ttl r)) (probeKey labels) = Some (RStr stamp)"
    "rLIFE R (snd (ClaimProbe R labels stamp Delivered ttl r)) (probeKey labels) = Some (max 1 (Milliseconds ttl) * 1000)"
  using setnx_free [OF assms, of "RStr stamp" "max 1 (Milliseconds ttl)"]
    setnx_get [OF assms, of "max 1 (Milliseconds ttl)" "RStr stamp" "probeKey labels"]
    setnx_life [OF assms, of "max 1 (Milliseconds ttl)" "RStr stamp"]
  by (auto simp: ClaimProbe_def split: prod.splits)

lemma claim_taken:
  "rEXISTS R r (probeKey labels) \<Longrightarrow> ClaimProbe R labels stamp Delivered ttl r = (Some False, r)"
  by (simp add: ClaimProbe_def setnx_taken)

lemma claim_refused:
  "rEXISTS R r (probeKey labels) \<Longrightarrow>
     fst (ClaimProbe R labels stamp net ttl r) \<noteq> Some True \<and> snd (ClaimProbe R labels stamp net ttl r) = r"
  by (cases net) (simp_all add: ClaimProbe_def setnx_taken)

lemma load_keeps [simp]: "snd (Load R labels net r) = r"
  by (cases net) (auto simp: Load_def loadScript_def Let_def split: option.splits if_splits)

end

section \<open>Properties of the shared store\<close>

text \<open>What replicas do to a breaker's lock while a probe is out: read, try to claim, wait.\<close>

datatype lock_event = LoadEv rpc | ClaimEv rpc string duration | WaitEv int

fun lock_wait :: "lock_event \<Rightarrow> int" where
  "lock_wait (WaitEv d) = d"
| "lock_wait _ = 0"

fun lock_step :: "'r redis_api \<Rightarrow> Labels \<Rightarrow> lock_event \<Rightarrow> 'r \<Rightarrow> bool option \<times> 'r" where
  "lock_step R labels (LoadEv net) r = (None, snd (Load R labels net r))"
| "lock_step R labels (ClaimEv net stamp ttl) r = ClaimProbe R labels stamp net ttl r"
| "lock_step R labels (WaitEv d) r = (None, rTICK R d r)"

fun lock_run :: "'r redis_api \<Rightarrow> Labels \<Rightarrow> lock_event list \<Rightarrow> 'r \<Rightarrow> bool option list" where
  "lock_run R labels [] r = []"
| "lock_run R labels (e # es) r = (let (x, r') = lock_step R labels e r in x # lock_run R labels es r')"

lemma lock_total: "\<forall>e \<in> set es. 0 \<le> lock_wait e \<Longrightarrow> 0 \<le> sum_list (map lock_wait es)"
  by (induction es) auto

context redis_server
begin

lemma lock_held:
  assumes "rEXISTS R r (probeKey labels)" "rLIFE R r (probeKey labels) = Some l"
    and "\<forall>e \<in> set es. 0 \<le> lock_wait e" "sum_list (map lock_wait es) < l"
  shows "Some True \<notin> set (lock_run R labels es r)"
  using assms
proof (induction es arbitrary: r l)
  case Nil
  then show ?case by simp
next
  case (Cons e es)
  have nn: "0 \<le> sum_list (map lock_wait es)" using Cons.prems by (intro lock_total) simp
  show ?case
  proof (cases e)
    case (LoadEv net)
    then show ?thesis using Cons.IH [of r l] Cons.prems by simp
  next
    case (ClaimEv net stamp ttl)
    then show ?thesis using Cons.IH [of r l] Cons.prems claim_refused [OF Cons.prems(1), of stamp net ttl]
      by (auto simp: split_beta)
  next
    case (WaitEv d)
    then have d: "0 \<le> d" "d < l" using Cons.prems nn by auto
    then have "rEXISTS R (rTICK R d r) (probeKey labels)" "rLIFE R (rTICK R d r) (probeKey labels) = Some (l - d)"
      using Cons.prems by (simp_all add: exists_tick life_tick)
    then show ?thesis using Cons.IH [of "rTICK R d r" "l - d"] Cons.prems WaitEv by simp
  qed
qed

end

text \<open>
  C5. At most one probe in the fleet: once a replica has claimed the probe slot, no claim by
  any replica succeeds before the slot's lifetime has run out, whatever reads, claims, lost
  calls and waits are interleaved.
\<close>

theorem single_probe_in_fleet:
  assumes "redis_server R" "\<not> rEXISTS R r (probeKey labels)"
    and "\<forall>e \<in> set es. 0 \<le> lock_wait e"
    and "sum_list (map lock_wait es) < Milliseconds ttl * 1000"
  shows "fst (ClaimProbe R labels stamp Delivered ttl r) = Some True \<and>
    Some True \<notin> set (lock_run R labels es (snd (ClaimProbe R labels stamp Delivered ttl r)))"
proof -
  let ?r = "snd (ClaimProbe R labels stamp Delivered ttl r)"
  note claim = redis_server.claim_free [OF assms(1,2)]
  have "rEXISTS R ?r (probeKey labels)" using redis_server.exists_iff [OF assms(1)] claim(2) by simp
  moreover have "sum_list (map lock_wait es) < max 1 (Milliseconds ttl) * 1000" using assms(4) by simp
  ultimately show ?thesis
    using redis_server.lock_held [OF assms(1) _ claim(3) assms(3)] claim(1) by simp
qed

definition gpt4o :: Labels where
  "gpt4o = \<lparr>lb_Provider = ''openai'', lb_Model = ''gpt-4o''\<rparr>"

theorem single_probe_in_fleet_witness:
  "Some True \<notin> set (lock_run mem_redis gpt4o
     [LoadEv Delivered, ClaimEv Delivered ''b'' (30 * second), WaitEv 29000000, ClaimEv ReplyLost ''c'' second]
     (snd (ClaimProbe mem_redis gpt4o ''a'' Delivered (30 * second) empty_mem)))"
  using single_probe_in_fleet [OF mem.redis_server_axioms, of empty_mem gpt4o
      "[LoadEv Delivered, ClaimEv Delivered ''b'' (30 * second), WaitEv 29000000, ClaimEv ReplyLost ''c'' second]"
      "30 * second" "''a''"]
  by (simp add: empty_mem_def mem_defs Milliseconds_def tdiv_nonneg)

text \<open>
  C18. The life of a published episode is exact: from the moment \<open>Open\<close> runs, every replica
  that loads the state reads open until the cooldown's last millisecond has passed, half-open
  from then on, and closed once the ten minutes of slack are over, so a breaker that nobody
  tends fails open.
\<close>

theorem open_episode_timeline:
  assumes "redis_server R" "rGET R r (stateKey labels) = None"
    and "0 \<le> cooldown" "cooldown + stateTTLSlack < 2 ^ 63" "0 \<le> d"
    and "Open R labels Delivered cooldown reopens r = (ok, r')"
  shows "ok \<and> fst (Load R labels Delivered (rTICK R d r')) =
    Some (if Milliseconds (cooldown + stateTTLSlack) * 1000 \<le> d
          then \<lparr>ss_State = StateClosed, ss_Reopens = 0, ss_Successes = 0\<rparr>
          else \<lparr>ss_State = (if d < Milliseconds cooldown * 1000 - rTIME R r mod 1000
                           then StateOpen else StateHalfOpen),
                ss_Reopens = reopens, ss_Successes = 0\<rparr>)"
proof -
  let ?T = "Milliseconds (cooldown + stateTTLSlack)" and ?C = "Milliseconds cooldown" and ?t = "rTIME R r"
  have i: "i64 (cooldown + stateTTLSlack) = cooldown + stateTTLSlack"
    using assms(3,4) by (intro i64_id) (simp_all add: stateTTLSlack_def)
  have "stateTTLSlack div millisecond \<le> (cooldown + stateTTLSlack) div millisecond"
    using assms(3) by (intro zdiv_mono1) simp_all
  then have T: "0 < ?T" using assms(3) by (simp add: Milliseconds_def tdiv_nonneg stateTTLSlack_def)
  have r': "r' = snd (Open R labels Delivered cooldown reopens r)" using assms(6) by simp
  note opened = redis_server.opened_hash [OF assms(1,2), of cooldown reopens, unfolded i, OF T]
  note ticked = redis_server.wf_after_tick [OF assms(1) opened(2) assms(5)]
  have ok: "ok" using assms(6) by (simp add: Open_def openScript_def Let_def)
  have now: "script_now_ms R (rTICK R d r') = of_int ((?t + d) div 1000)"
    by (simp add: script_now_ms_eq redis_server.time_tick [OF assms(1)] r' opened(5))
  have "((?t + d) div 1000 < ?t div 1000 + ?C) \<longleftrightarrow> ?t + d < (?t div 1000 + ?C) * 1000"
    by (rule div_less_iff) simp
  also have "\<dots> \<longleftrightarrow> d < ?C * 1000 - ?t mod 1000"
    using div_mult_mod_eq [of ?t 1000] unfolding distrib_right by linarith
  finally have "script_now_ms R (rTICK R d r') < script_now_ms R r + of_int ?C \<longleftrightarrow> d < ?C * 1000 - ?t mod 1000"
    unfolding now script_now_ms_eq [of R r] of_int_add [symmetric] of_int_less_iff by simp
  then show ?thesis
    using ok ticked(2) redis_server.Load_verdict [OF assms(1) ticked(1)] opened(1,3)
    by (simp add: r' verdict_def)
qed

theorem open_episode_timeline_witness:
  "fst (Load mem_redis gpt4o Delivered (rTICK mem_redis 30000000
     (snd (Open mem_redis gpt4o Delivered (30 * second) 2 empty_mem)))) =
   Some \<lparr>ss_State = StateHalfOpen, ss_Reopens = 2, ss_Successes = 0\<rparr>"
proof -
  obtain ok r' where o: "Open mem_redis gpt4o Delivered (30 * second) 2 empty_mem = (ok, r')" by fastforce
  have "rGET mem_redis empty_mem (stateKey gpt4o) = None" by (simp add: empty_mem_def mem_defs)
  then show ?thesis
    unfolding o snd_conv using open_episode_timeline [OF mem.redis_server_axioms _ _ _ _ o, of 30000000]
    by (simp add: stateTTLSlack_def Milliseconds_def tdiv_nonneg empty_time)
qed

end
