(* ===== verification/Breaker.thy ===== *)
theory Breaker
  imports BreakerStore
begin

text \<open>
  The circuit breaker of \<open>internal/resilience/breaker.go\<close>, one provider and model's: the
  local state machine, the mirror of the shared verdict with its cache, and the operations
  that publish to a \<open>BreakerStore\<close>. A method takes the reading of the clock as its argument
  \<open>now\<close>, and the store, if there is one, as an option. The mutexes are not modelled: a
  method runs as one step.
\<close>

section \<open>Configuration and state\<close>

record BreakerConfig =
  FailureThreshold :: int
  Window :: duration
  CooldownBase :: duration
  CooldownMax :: duration
  SuccessThreshold :: int
  ProbeTimeout :: duration
  StateCacheTTL :: duration

datatype BreakerConfigError =
  BadFailureThreshold | BadWindow | BadCooldownBase | BadCooldownMax | BadSuccessThreshold
| BadProbeTimeout | BadStateCacheTTL

definition BreakerConfig_validate :: "BreakerConfig \<Rightarrow> BreakerConfigError option" where
  "BreakerConfig_validate c =
     (if FailureThreshold c \<le> 0 then Some BadFailureThreshold
      else if Window c \<le> 0 then Some BadWindow
      else if CooldownBase c \<le> 0 then Some BadCooldownBase
      else if CooldownMax c < CooldownBase c then Some BadCooldownMax
      else if SuccessThreshold c \<le> 0 then Some BadSuccessThreshold
      else if ProbeTimeout c \<le> 0 then Some BadProbeTimeout
      else if StateCacheTTL c \<le> 0 then Some BadStateCacheTTL
      else None)"

definition maxCooldownExponent :: int where
  "maxCooldownExponent = 20"

text \<open>\<open>bk_cachedAt\<close> is \<^term>\<open>None\<close> where the code holds the zero time.\<close>

record Breaker =
  bk_state :: State
  bk_failures :: "instant list"
  bk_successStreak :: int
  bk_probeInFlight :: bool
  bk_probeStartedAt :: instant
  bk_openedAt :: instant
  bk_cooldown :: duration
  bk_reopens :: int
  bk_unpublished :: bool
  bk_cached :: SharedState
  bk_cachedOK :: bool
  bk_cachedAt :: "instant option"

definition zero_SharedState :: SharedState where
  "zero_SharedState = \<lparr>ss_State = StateClosed, ss_Reopens = 0, ss_Successes = 0\<rparr>"

definition NewSharedBreaker :: "BreakerConfig \<Rightarrow> BreakerConfigError + Breaker" where
  "NewSharedBreaker cfg =
     (case BreakerConfig_validate cfg of
        Some e \<Rightarrow> Inl e
      | None \<Rightarrow> Inr \<lparr>bk_state = StateClosed, bk_failures = [], bk_successStreak = 0,
          bk_probeInFlight = False, bk_probeStartedAt = 0, bk_openedAt = 0,
          bk_cooldown = CooldownBase cfg, bk_reopens = 0, bk_unpublished = False,
          bk_cached = zero_SharedState, bk_cachedOK = False, bk_cachedAt = None\<rparr>)"

definition usesStore :: "'w BreakerStore option \<Rightarrow> Breaker \<Rightarrow> bool" where
  "usesStore store b \<longleftrightarrow> store \<noteq> None \<and> \<not> bk_unpublished b"

definition setState :: "instant \<Rightarrow> State \<Rightarrow> Breaker \<Rightarrow> Breaker" where
  "setState now next b =
     b\<lparr>bk_state := next, bk_openedAt := (if next = StateOpen then now else bk_openedAt b),
       bk_probeInFlight := False\<rparr>"

section \<open>Admission\<close>

definition claimProbe :: "BreakerConfig \<Rightarrow> instant \<Rightarrow> Breaker \<Rightarrow> bool \<times> Breaker" where
  "claimProbe cfg now b =
     (if bk_probeInFlight b \<and> now - bk_probeStartedAt b < ProbeTimeout cfg then (False, b)
      else (True, b\<lparr>bk_probeInFlight := True, bk_probeStartedAt := now\<rparr>))"

definition allowLocal :: "BreakerConfig \<Rightarrow> instant \<Rightarrow> Breaker \<Rightarrow> bool \<times> Breaker" where
  "allowLocal cfg now b =
     (let b1 = (if bk_state b = StateOpen \<and> now - bk_openedAt b \<ge> bk_cooldown b
                then setState now StateHalfOpen b else b) in
      case bk_state b1 of
        StateClosed \<Rightarrow> (True, b1)
      | StateHalfOpen \<Rightarrow> claimProbe cfg now b1
      | StateOpen \<Rightarrow> (False, b1))"

definition sharedState ::
  "BreakerConfig \<Rightarrow> 'w BreakerStore \<Rightarrow> instant \<Rightarrow> Breaker \<times> 'w \<Rightarrow> SharedState option \<times> Breaker \<times> 'w" where
  "sharedState cfg store now bw =
     (case bw of (b, w) \<Rightarrow>
      (let fresh = (case bk_cachedAt b of None \<Rightarrow> False | Some t \<Rightarrow> now - t < StateCacheTTL cfg) in
       if fresh then ((if bk_cachedOK b then Some (bk_cached b) else None), b, w)
       else (case bs_Load store w of
               (None, w') \<Rightarrow> (None, b\<lparr>bk_cachedAt := Some now, bk_cached := zero_SharedState, bk_cachedOK := False\<rparr>, w')
             | (Some s, w') \<Rightarrow> (Some s, b\<lparr>bk_cachedAt := Some now, bk_cached := s, bk_cachedOK := True\<rparr>, w'))))"

definition installShared :: "instant \<Rightarrow> SharedState \<Rightarrow> Breaker \<Rightarrow> Breaker" where
  "installShared now s b = b\<lparr>bk_cached := s, bk_cachedOK := True, bk_cachedAt := Some now\<rparr>"

definition invalidateShared :: "Breaker \<Rightarrow> Breaker" where
  "invalidateShared b = b\<lparr>bk_cachedAt := None\<rparr>"

definition claimSharedProbe :: "BreakerConfig \<Rightarrow> 'w BreakerStore \<Rightarrow> 'w \<Rightarrow> bool \<times> 'w" where
  "claimSharedProbe cfg store w =
     (case bs_ClaimProbe store (ProbeTimeout cfg) w of
        (None, w') \<Rightarrow> (False, w')
      | (Some ok, w') \<Rightarrow> (ok, w'))"

definition allowShared ::
  "BreakerConfig \<Rightarrow> 'w BreakerStore \<Rightarrow> instant \<Rightarrow> SharedState \<Rightarrow> Breaker \<times> 'w \<Rightarrow> bool \<times> Breaker \<times> 'w" where
  "allowShared cfg store now shared bw =
     (case bw of (b, w) \<Rightarrow>
        (let b1 = (if ss_State shared \<noteq> bk_state b then setState now (ss_State shared) b else b);
             b2 = b1\<lparr>bk_reopens := ss_Reopens shared, bk_successStreak := ss_Successes shared\<rparr> in
         case ss_State shared of
           StateClosed \<Rightarrow> (True, b2, w)
         | StateHalfOpen \<Rightarrow> (case claimSharedProbe cfg store w of (ok, w') \<Rightarrow> (ok, b2, w'))
         | StateOpen \<Rightarrow> (False, b2, w)))"

definition Allow ::
  "BreakerConfig \<Rightarrow> 'w BreakerStore option \<Rightarrow> instant \<Rightarrow> Breaker \<times> 'w \<Rightarrow> bool \<times> Breaker \<times> 'w" where
  "Allow cfg store now bw =
     (case store of
        Some S \<Rightarrow>
          (if usesStore store (fst bw) then
             (case sharedState cfg S now bw of
                (Some s, bw') \<Rightarrow> allowShared cfg S now s bw'
              | (None, b', w') \<Rightarrow> (case allowLocal cfg now b' of (ok, b'') \<Rightarrow> (ok, b'', w')))
           else (case allowLocal cfg now (fst bw) of (ok, b') \<Rightarrow> (ok, b', snd bw)))
      | None \<Rightarrow> (case allowLocal cfg now (fst bw) of (ok, b') \<Rightarrow> (ok, b', snd bw)))"

section \<open>Outcomes\<close>

definition releaseProbe :: "Breaker \<Rightarrow> Breaker" where
  "releaseProbe b = b\<lparr>bk_probeInFlight := False\<rparr>"

definition recordSuccessLocally ::
  "BreakerConfig \<Rightarrow> 'w BreakerStore option \<Rightarrow> instant \<Rightarrow> Breaker \<Rightarrow> bool \<times> Breaker" where
  "recordSuccessLocally cfg store now b0 =
     (let b = releaseProbe b0 in
      if bk_state b \<noteq> StateHalfOpen then (False, b)
      else if usesStore store b then (True, b)
      else
        (let b1 = b\<lparr>bk_successStreak := bk_successStreak b + 1\<rparr> in
         if bk_successStreak b1 \<ge> SuccessThreshold cfg
         then (False, setState now StateClosed (b1\<lparr>bk_reopens := 0, bk_cooldown := CooldownBase cfg\<rparr>))
         else (False, b1)))"

definition publishProbeSuccess ::
  "BreakerConfig \<Rightarrow> 'w BreakerStore \<Rightarrow> instant \<Rightarrow> Breaker \<times> 'w \<Rightarrow> Breaker \<times> 'w" where
  "publishProbeSuccess cfg store now bw =
     (case bw of (b, w) \<Rightarrow>
      (case bs_RecordProbeSuccess store (SuccessThreshold cfg) w of
         (None, w') \<Rightarrow> (invalidateShared b, w')
       | (Some shared, w') \<Rightarrow>
           (let b1 = installShared now shared b;
                b2 = b1\<lparr>bk_successStreak := ss_Successes shared\<rparr>;
                b3 = (if ss_State shared \<noteq> bk_state b2 then setState now (ss_State shared) b2 else b2);
                b4 = (if ss_State shared = StateClosed
                      then b3\<lparr>bk_reopens := 0, bk_cooldown := CooldownBase cfg, bk_unpublished := False\<rparr>
                      else b3)
            in (b4, w'))))"

definition RecordSuccess ::
  "BreakerConfig \<Rightarrow> 'w BreakerStore option \<Rightarrow> instant \<Rightarrow> Breaker \<times> 'w \<Rightarrow> Breaker \<times> 'w" where
  "RecordSuccess cfg store now bw =
     (case bw of (b, w) \<Rightarrow>
      (case recordSuccessLocally cfg store now b of
         (publish, b') \<Rightarrow>
           (case store of
              Some S \<Rightarrow> (if publish then publishProbeSuccess cfg S now (b', w) else (b', w))
            | None \<Rightarrow> (b', w))))"

fun pruneBefore :: "instant list \<Rightarrow> instant \<Rightarrow> instant list" where
  "pruneBefore [] cutoff = []"
| "pruneBefore (t # ts) cutoff = (if t < cutoff then pruneBefore ts cutoff else t # ts)"

definition nextCooldown :: "BreakerConfig \<Rightarrow> int \<Rightarrow> duration" where
  "nextCooldown cfg reopens =
     (let e0 = reopens - 1;
          e1 = (if e0 < 0 then 0 else e0);
          exponent = (if e1 > maxCooldownExponent then maxCooldownExponent else e1);
          d = i64 (CooldownBase cfg * 2 ^ nat exponent)
      in if d \<le> 0 \<or> d > CooldownMax cfg then CooldownMax cfg else d)"

definition open_breaker :: "BreakerConfig \<Rightarrow> instant \<Rightarrow> Breaker \<Rightarrow> Breaker" where
  "open_breaker cfg now b =
     setState now StateOpen
       (b\<lparr>bk_reopens := bk_reopens b + 1, bk_cooldown := nextCooldown cfg (bk_reopens b + 1),
          bk_successStreak := 0, bk_failures := []\<rparr>)"

text \<open>The result is the breaker and the episode to publish, if there is one.\<close>

definition recordFailureLocally ::
  "BreakerConfig \<Rightarrow> 'w BreakerStore option \<Rightarrow> instant \<Rightarrow> Breaker \<Rightarrow> (duration \<times> int) option \<times> Breaker" where
  "recordFailureLocally cfg store now b0 =
     (let b = releaseProbe b0;
          done = (\<lambda>b'. ((if usesStore store b' then Some (bk_cooldown b', bk_reopens b') else None), b')) in
      case bk_state b of
        StateHalfOpen \<Rightarrow> done (open_breaker cfg now b)
      | StateClosed \<Rightarrow>
          (let b1 = b\<lparr>bk_failures := pruneBefore (bk_failures b @ [now]) (now - Window cfg)\<rparr> in
           if int (length (bk_failures b1)) < FailureThreshold cfg then (None, b1)
           else done (open_breaker cfg now b1))
      | StateOpen \<Rightarrow> (None, b))"

definition publishOpen ::
  "'w BreakerStore \<Rightarrow> instant \<Rightarrow> duration \<Rightarrow> int \<Rightarrow> Breaker \<times> 'w \<Rightarrow> Breaker \<times> 'w" where
  "publishOpen store now cooldown reopens bw =
     (case bw of (b, w) \<Rightarrow>
      (case bs_Open store cooldown reopens w of
         (False, w') \<Rightarrow> (invalidateShared (b\<lparr>bk_unpublished := True\<rparr>), w')
       | (True, w') \<Rightarrow>
           ((installShared now \<lparr>ss_State = StateOpen, ss_Reopens = reopens, ss_Successes = 0\<rparr> b)
              \<lparr>bk_unpublished := False\<rparr>, w')))"

definition RecordFailure ::
  "BreakerConfig \<Rightarrow> 'w BreakerStore option \<Rightarrow> instant \<Rightarrow> Breaker \<times> 'w \<Rightarrow> Breaker \<times> 'w" where
  "RecordFailure cfg store now bw =
     (case bw of (b, w) \<Rightarrow>
      (case recordFailureLocally cfg store now b of
         (None, b') \<Rightarrow> (b', w)
       | (Some (cooldown, reopens), b') \<Rightarrow>
           (case store of
              Some S \<Rightarrow> publishOpen S now cooldown reopens (b', w)
            | None \<Rightarrow> (b', w))))"

text \<open>The flag of the result reports that the shared reset succeeded or was not needed.\<close>

definition BreakerReset ::
  "BreakerConfig \<Rightarrow> 'w BreakerStore option \<Rightarrow> instant \<Rightarrow> Breaker \<times> 'w \<Rightarrow> bool \<times> Breaker \<times> 'w" where
  "BreakerReset cfg store now bw =
     (case bw of (b, w) \<Rightarrow>
        (let (ok, b1, w') =
               (case store of
                  None \<Rightarrow> (True, b, w)
                | Some S \<Rightarrow> (case bs_Reset S w of
                    (ok, w') \<Rightarrow> (ok, installShared now zero_SharedState b, w')));
             b2 = b1\<lparr>bk_failures := [], bk_successStreak := 0, bk_reopens := 0,
                     bk_cooldown := CooldownBase cfg, bk_probeInFlight := False, bk_unpublished := False\<rparr>;
             b3 = (if bk_state b2 \<noteq> StateClosed then setState now StateClosed b2 else b2)
         in (ok, b3, w')))"

section \<open>Inspection\<close>

record BreakerSnapshot =
  sn_State :: State
  sn_Failures :: int
  sn_FailureThreshold :: int
  sn_SuccessStreak :: int
  sn_SuccessThreshold :: int
  sn_Reopens :: int
  sn_ProbeInFlight :: bool
  sn_Cooldown :: duration
  sn_CooldownRemaining :: duration

definition Inspect :: "BreakerConfig \<Rightarrow> instant \<Rightarrow> Breaker \<Rightarrow> BreakerSnapshot" where
  "Inspect cfg now b =
     (let cutoff = now - Window cfg;
          failures = int (length (filter (\<lambda>t. \<not> t < cutoff) (bk_failures b)));
          elapsed = now - bk_openedAt b;
          remaining = (if bk_state b = StateOpen \<and> elapsed < bk_cooldown b then bk_cooldown b - elapsed else 0)
      in \<lparr>sn_State = bk_state b, sn_Failures = failures, sn_FailureThreshold = FailureThreshold cfg,
          sn_SuccessStreak = bk_successStreak b, sn_SuccessThreshold = SuccessThreshold cfg,
          sn_Reopens = bk_reopens b, sn_ProbeInFlight = bk_probeInFlight b,
          sn_Cooldown = bk_cooldown b, sn_CooldownRemaining = remaining\<rparr>)"

section \<open>The abstract circuit\<close>

text \<open>
  What a breaker that runs on its own promises: shut with the recent failures, tripped until
  a deadline, or probing with at most one probe out until its deadline.
\<close>

datatype circuit = Shut "instant list" | Tripped instant int | Probing int "instant option" int

fun circuit_allow :: "BreakerConfig \<Rightarrow> instant \<Rightarrow> circuit \<Rightarrow> bool \<times> circuit" where
  "circuit_allow cfg now (Shut fs) = (True, Shut fs)"
| "circuit_allow cfg now (Tripped deadline n) =
     (if deadline \<le> now then (True, Probing 0 (Some (now + ProbeTimeout cfg)) n) else (False, Tripped deadline n))"
| "circuit_allow cfg now (Probing s p n) =
     (case p of
        None \<Rightarrow> (True, Probing s (Some (now + ProbeTimeout cfg)) n)
      | Some deadline \<Rightarrow>
          (if deadline \<le> now then (True, Probing s (Some (now + ProbeTimeout cfg)) n)
           else (False, Probing s p n)))"

fun circuit_success :: "BreakerConfig \<Rightarrow> circuit \<Rightarrow> circuit" where
  "circuit_success cfg (Probing s p n) =
     (if SuccessThreshold cfg \<le> s + 1 then Shut [] else Probing (s + 1) None n)"
| "circuit_success cfg c = c"

fun circuit_failure :: "BreakerConfig \<Rightarrow> instant \<Rightarrow> circuit \<Rightarrow> circuit" where
  "circuit_failure cfg now (Shut fs) =
     (let fs' = filter (\<lambda>t. now - Window cfg \<le> t) (fs @ [now]) in
      if int (length fs') < FailureThreshold cfg then Shut fs' else Tripped (now + nextCooldown cfg 1) 1)"
| "circuit_failure cfg now (Probing s p n) = Tripped (now + nextCooldown cfg (n + 1)) (n + 1)"
| "circuit_failure cfg now (Tripped deadline n) = Tripped deadline n"

definition circuit_of :: "BreakerConfig \<Rightarrow> Breaker \<Rightarrow> circuit" where
  "circuit_of cfg b =
     (case bk_state b of
        StateClosed \<Rightarrow> Shut (bk_failures b)
      | StateOpen \<Rightarrow> Tripped (bk_openedAt b + bk_cooldown b) (bk_reopens b)
      | StateHalfOpen \<Rightarrow>
          Probing (bk_successStreak b)
            (if bk_probeInFlight b then Some (bk_probeStartedAt b + ProbeTimeout cfg) else None) (bk_reopens b))"

text \<open>
  The invariant of every breaker, and what a breaker that never adopted a shared state keeps
  besides. \<open>now\<close> is any instant not before the last operation.
\<close>

definition breaker_wf :: "BreakerConfig \<Rightarrow> instant \<Rightarrow> Breaker \<Rightarrow> bool" where
  "breaker_wf cfg now b \<longleftrightarrow>
     sorted (bk_failures b) \<and> (\<forall>t \<in> set (bk_failures b). t \<le> now) \<and>
     int (length (bk_failures b)) < FailureThreshold cfg \<and>
     0 < bk_cooldown b \<and> bk_cooldown b \<le> CooldownMax cfg \<and>
     (bk_state b = StateOpen \<longrightarrow> bk_openedAt b \<le> now) \<and>
     (bk_probeInFlight b \<longrightarrow> bk_state b = StateHalfOpen \<and> bk_probeStartedAt b \<le> now)"

definition local_wf :: "Breaker \<Rightarrow> bool" where
  "local_wf b \<longleftrightarrow>
     (bk_state b = StateClosed \<longrightarrow> bk_reopens b = 0) \<and>
     (bk_state b \<noteq> StateClosed \<longrightarrow> bk_failures b = []) \<and>
     (bk_state b = StateOpen \<longrightarrow> bk_successStreak b = 0)"

lemmas breaker_defs =
  setState_def claimProbe_def allowLocal_def installShared_def invalidateShared_def releaseProbe_def
  recordSuccessLocally_def open_breaker_def recordFailureLocally_def usesStore_def Let_def

section \<open>Facts on the parts\<close>

lemma pruneBefore_filter: "sorted ts \<Longrightarrow> pruneBefore ts cutoff = filter (\<lambda>t. cutoff \<le> t) ts"
proof (induction ts)
  case (Cons t ts)
  then have "cutoff \<le> t \<Longrightarrow> filter (\<lambda>t. cutoff \<le> t) ts = ts" by (auto intro!: filter_True)
  then show ?case using Cons by simp
qed simp

lemma set_pruneBefore: "set (pruneBefore ts cutoff) \<subseteq> set ts"
  by (induction ts) auto

lemma sorted_pruneBefore: "sorted ts \<Longrightarrow> sorted (pruneBefore ts cutoff)"
  by (simp add: pruneBefore_filter sorted_wrt_filter)

lemma sorted_snoc: "sorted ts \<Longrightarrow> \<forall>t \<in> set ts. t \<le> now \<Longrightarrow> sorted (ts @ [now])"
  by (simp add: sorted_append)

lemma validate_None [simp]:
  "BreakerConfig_validate cfg = None \<longleftrightarrow>
     0 < FailureThreshold cfg \<and> 0 < Window cfg \<and> 0 < CooldownBase cfg \<and> CooldownBase cfg \<le> CooldownMax cfg \<and>
     0 < SuccessThreshold cfg \<and> 0 < ProbeTimeout cfg \<and> 0 < StateCacheTTL cfg"
  by (auto simp: BreakerConfig_validate_def)

lemma nextCooldown_range:
  "0 < CooldownMax cfg \<Longrightarrow> 0 < nextCooldown cfg n \<and> nextCooldown cfg n \<le> CooldownMax cfg"
  by (auto simp: nextCooldown_def Let_def)

lemma nextCooldown_eq:
  assumes "0 < CooldownBase cfg" "CooldownBase cfg < 2 ^ 43"
  shows "nextCooldown cfg n = min (CooldownMax cfg) (CooldownBase cfg * 2 ^ nat (min (n - 1) 20))"
proof -
  have e: "nat (if (if n - 1 < 0 then 0 else n - 1) > maxCooldownExponent then maxCooldownExponent
      else (if n - 1 < 0 then 0 else n - 1)) = nat (min (n - 1) 20)"
    by (auto simp: maxCooldownExponent_def min_def)
  have "(2 :: int) ^ nat (min (n - 1) 20) \<le> 2 ^ 20" by (intro power_increasing) (auto simp: nat_le_iff)
  then have "CooldownBase cfg * 2 ^ nat (min (n - 1) 20) \<le> CooldownBase cfg * 2 ^ 20"
    using assms by (intro mult_left_mono) simp_all
  moreover have "CooldownBase cfg * 2 ^ 20 < 2 ^ 43 * 2 ^ 20" using assms(2) by (rule mult_strict_right_mono) simp
  moreover have "(2 :: int) ^ 43 * 2 ^ 20 = 2 ^ 63" by simp
  ultimately have le: "CooldownBase cfg * 2 ^ nat (min (n - 1) 20) < 2 ^ 63" by linarith
  have pos: "0 < CooldownBase cfg * 2 ^ nat (min (n - 1) 20)" using assms by simp
  then have "i64 (CooldownBase cfg * 2 ^ nat (min (n - 1) 20)) = CooldownBase cfg * 2 ^ nat (min (n - 1) 20)"
    using le by (intro i64_id) simp_all
  then show ?thesis using pos unfolding nextCooldown_def Let_def e by (simp add: min_def)
qed

section \<open>The operations keep the invariant\<close>

lemma wf_mono: "breaker_wf cfg t b \<Longrightarrow> t \<le> now \<Longrightarrow> breaker_wf cfg now b"
  by (force simp: breaker_wf_def)

lemma wf_setState: "breaker_wf cfg now b \<Longrightarrow> breaker_wf cfg now (setState now next b)"
  by (simp add: breaker_wf_def setState_def)

lemma wf_streak [simp]:
  "breaker_wf cfg now (b\<lparr>bk_successStreak := n\<rparr>) = breaker_wf cfg now b"
  "breaker_wf cfg now (b\<lparr>bk_reopens := n\<rparr>) = breaker_wf cfg now b"
  "breaker_wf cfg now (b\<lparr>bk_unpublished := u\<rparr>) = breaker_wf cfg now b"
  "breaker_wf cfg now (b\<lparr>bk_cached := c\<rparr>) = breaker_wf cfg now b"
  "breaker_wf cfg now (b\<lparr>bk_cachedOK := u\<rparr>) = breaker_wf cfg now b"
  "breaker_wf cfg now (b\<lparr>bk_cachedAt := a\<rparr>) = breaker_wf cfg now b"
  by (simp_all add: breaker_wf_def)

lemma wf_release: "breaker_wf cfg now b \<Longrightarrow> breaker_wf cfg now (releaseProbe b)"
  by (simp add: breaker_wf_def releaseProbe_def)

lemma wf_cooldown:
  "breaker_wf cfg now b \<Longrightarrow> BreakerConfig_validate cfg = None \<Longrightarrow>
     breaker_wf cfg now (b\<lparr>bk_cooldown := CooldownBase cfg\<rparr>)"
  by (simp add: breaker_wf_def)

lemma wf_allowLocal: "breaker_wf cfg now b \<Longrightarrow> breaker_wf cfg now (snd (allowLocal cfg now b))"
  by (auto simp: breaker_wf_def allowLocal_def claimProbe_def setState_def Let_def split: State.splits)

lemma wf_open_breaker:
  "breaker_wf cfg now b \<Longrightarrow> BreakerConfig_validate cfg = None \<Longrightarrow> breaker_wf cfg now (open_breaker cfg now b)"
  using nextCooldown_range [of cfg "bk_reopens b + 1"] by (simp add: breaker_wf_def open_breaker_def setState_def)

lemma wf_pruned:
  "breaker_wf cfg now b \<Longrightarrow> int (length (pruneBefore (bk_failures b @ [now]) c)) < FailureThreshold cfg \<Longrightarrow>
     breaker_wf cfg now (b\<lparr>bk_failures := pruneBefore (bk_failures b @ [now]) c\<rparr>)"
  using set_pruneBefore [of "bk_failures b @ [now]" c] sorted_pruneBefore [OF sorted_snoc [of "bk_failures b" now], of c]
  by (auto simp: breaker_wf_def)

lemma open_breaker_failures: "open_breaker cfg now (b\<lparr>bk_failures := fs\<rparr>) = open_breaker cfg now b"
  by (simp add: open_breaker_def setState_def)

lemma wf_recordFailureLocally:
  assumes "breaker_wf cfg now b" "BreakerConfig_validate cfg = None"
  shows "breaker_wf cfg now (snd (recordFailureLocally cfg store now b))"
proof -
  have r: "breaker_wf cfg now (releaseProbe b)" using assms(1) by (rule wf_release)
  show ?thesis using wf_pruned [OF r] wf_open_breaker [OF r assms(2)]
    by (cases "bk_state (releaseProbe b)")
      (auto simp: recordFailureLocally_def Let_def open_breaker_failures r)
qed

lemma wf_recordSuccessLocally:
  assumes "breaker_wf cfg now b" "BreakerConfig_validate cfg = None"
  shows "breaker_wf cfg now (snd (recordSuccessLocally cfg store now b))"
proof -
  have "breaker_wf cfg now (releaseProbe b)" using assms(1) by (rule wf_release)
  then show ?thesis using assms
    by (auto simp: recordSuccessLocally_def Let_def intro!: wf_setState wf_cooldown)
qed

lemma wf_sharedState:
  "breaker_wf cfg now b \<Longrightarrow> sharedState cfg S now (b, w) = (x, b', w') \<Longrightarrow> breaker_wf cfg now b'"
  by (auto simp: sharedState_def Let_def split: if_splits prod.splits option.splits)

lemma wf_allowShared:
  "breaker_wf cfg now b \<Longrightarrow> breaker_wf cfg now (fst (snd (allowShared cfg S now s (b, w))))"
  by (auto simp: allowShared_def Let_def wf_setState split: if_splits prod.splits State.splits)

lemma wf_publishProbeSuccess:
  "breaker_wf cfg now b \<Longrightarrow> BreakerConfig_validate cfg = None \<Longrightarrow>
     breaker_wf cfg now (fst (publishProbeSuccess cfg S now (b, w)))"
  by (auto simp: publishProbeSuccess_def installShared_def invalidateShared_def Let_def
      intro!: wf_setState wf_cooldown split: prod.splits option.splits)

lemma wf_publishOpen:
  "breaker_wf cfg now b \<Longrightarrow> breaker_wf cfg now (fst (publishOpen S now c n (b, w)))"
  by (auto simp: publishOpen_def installShared_def invalidateShared_def split: prod.splits bool.splits)

text \<open>The whole interface of a breaker as events, and a run of them at increasing instants.\<close>

datatype breaker_event = AllowEv | SuccessEv | FailureEv | ResetEv

fun breaker_step ::
  "BreakerConfig \<Rightarrow> 'w BreakerStore option \<Rightarrow> instant \<times> breaker_event \<Rightarrow> Breaker \<times> 'w \<Rightarrow> Breaker \<times> 'w" where
  "breaker_step cfg store (now, AllowEv) bw = snd (Allow cfg store now bw)"
| "breaker_step cfg store (now, SuccessEv) bw = RecordSuccess cfg store now bw"
| "breaker_step cfg store (now, FailureEv) bw = RecordFailure cfg store now bw"
| "breaker_step cfg store (now, ResetEv) bw = snd (BreakerReset cfg store now bw)"

definition breaker_run where
  "breaker_run cfg store evs bw = fold (breaker_step cfg store) evs bw"

lemma wf_step:
  assumes "breaker_wf cfg now (fst bw)" "BreakerConfig_validate cfg = None"
  shows "breaker_wf cfg now (fst (breaker_step cfg store (now, e) bw))"
proof (cases e)
  case AllowEv
  have l: "breaker_wf cfg now b' \<Longrightarrow> allowLocal cfg now b' = (ok, b'') \<Longrightarrow> breaker_wf cfg now b''" for b' ok b''
    using wf_allowLocal [of cfg now b'] by simp
  show ?thesis using assms AllowEv
    by (cases bw) (auto simp: Allow_def split: option.splits prod.splits
        intro: l wf_sharedState wf_allowShared)
next
  case SuccessEv
  then show ?thesis using assms wf_recordSuccessLocally [OF assms, of store]
    by (cases bw) (auto simp: RecordSuccess_def split: option.splits prod.splits
        dest: wf_publishProbeSuccess [where cfg = cfg and now = now])
next
  case FailureEv
  then show ?thesis using assms wf_recordFailureLocally [OF assms, of store]
    by (cases bw) (auto simp: RecordFailure_def wf_publishOpen split: option.splits prod.splits)
next
  case ResetEv
  then show ?thesis using assms
    by (cases bw) (auto simp: BreakerReset_def installShared_def breaker_wf_def setState_def Let_def split: option.splits prod.splits)
qed

lemma wf_run:
  assumes "breaker_wf cfg t (fst bw)" "BreakerConfig_validate cfg = None" "sorted (t # map fst evs)"
  shows "breaker_wf cfg (last (t # map fst evs)) (fst (breaker_run cfg store evs bw))"
  using assms
proof (induction evs arbitrary: t bw)
  case Nil
  then show ?case by (simp add: breaker_run_def)
next
  case (Cons e evs)
  obtain now ev where e: "e = (now, ev)" by fastforce
  have "breaker_wf cfg now (fst bw)" using Cons.prems wf_mono [of cfg t] by (simp add: e)
  then have "breaker_wf cfg now (fst (breaker_step cfg store (now, ev) bw))" using Cons.prems by (intro wf_step)
  then show ?case using Cons.IH [of now "breaker_step cfg store (now, ev) bw"] Cons.prems
    by (simp add: e breaker_run_def)
qed

section \<open>A breaker on its own\<close>

lemma not_using_None [simp]: "\<not> usesStore None b"
  by (simp add: usesStore_def)

lemma Allow_local: "\<not> usesStore store b \<Longrightarrow>
  Allow cfg store now (b, w) = (fst (allowLocal cfg now b), snd (allowLocal cfg now b), w)"
  by (auto simp: Allow_def split: option.splits prod.splits)

lemma RecordSuccess_local: "\<not> usesStore store b \<Longrightarrow>
  RecordSuccess cfg store now (b, w) = (snd (recordSuccessLocally cfg store now b), w)"
  by (auto simp: RecordSuccess_def recordSuccessLocally_def usesStore_def releaseProbe_def Let_def
      split: option.splits prod.splits)

lemma RecordFailure_local: "\<not> usesStore store b \<Longrightarrow>
  RecordFailure cfg store now (b, w) = (snd (recordFailureLocally cfg store now b), w)"
  by (cases "bk_state b")
    (auto simp: RecordFailure_def recordFailureLocally_def usesStore_def releaseProbe_def open_breaker_def
      setState_def Let_def split: option.splits prod.splits)

lemma allow_circuit:
  assumes "\<not> usesStore store b" "breaker_wf cfg now b" "local_wf b"
  shows "fst (Allow cfg store now (b, w)) = fst (circuit_allow cfg now (circuit_of cfg b)) \<and>
    circuit_of cfg (fst (snd (Allow cfg store now (b, w)))) = snd (circuit_allow cfg now (circuit_of cfg b)) \<and>
    local_wf (fst (snd (Allow cfg store now (b, w))))"
  using assms unfolding Allow_local [OF assms(1)]
  by (cases "bk_state b") (auto simp: circuit_of_def local_wf_def allowLocal_def claimProbe_def setState_def Let_def)

lemma success_circuit:
  assumes "\<not> usesStore store b" "local_wf b"
  shows "circuit_of cfg (fst (RecordSuccess cfg store now (b, w))) = circuit_success cfg (circuit_of cfg b) \<and>
    local_wf (fst (RecordSuccess cfg store now (b, w)))"
  using assms unfolding RecordSuccess_local [OF assms(1)]
  by (cases "bk_state b")
    (auto simp: circuit_of_def local_wf_def recordSuccessLocally_def releaseProbe_def setState_def usesStore_def Let_def)

lemma failure_circuit:
  assumes "\<not> usesStore store b" "breaker_wf cfg now b" "local_wf b"
  shows "circuit_of cfg (fst (RecordFailure cfg store now (b, w))) = circuit_failure cfg now (circuit_of cfg b) \<and>
    local_wf (fst (RecordFailure cfg store now (b, w)))"
proof -
  have "pruneBefore (bk_failures b @ [now]) (now - Window cfg) =
      filter (\<lambda>t. now - Window cfg \<le> t) (bk_failures b @ [now])"
    using assms(2) by (intro pruneBefore_filter sorted_snoc) (simp_all add: breaker_wf_def)
  then show ?thesis
    using assms unfolding RecordFailure_local [OF assms(1)]
    by (cases "bk_state b")
      (simp_all add: circuit_of_def local_wf_def recordFailureLocally_def releaseProbe_def open_breaker_def
        setState_def usesStore_def Let_def)
qed

text \<open>No window that ends at a failure holds as many failures as the threshold.\<close>

definition quiet :: "BreakerConfig \<Rightarrow> instant list \<Rightarrow> bool" where
  "quiet cfg ts \<longleftrightarrow>
     (\<forall>i < length ts. int (length (filter (\<lambda>t. ts ! i - Window cfg \<le> t) (take (Suc i) ts))) < FailureThreshold cfg)"

lemma quiet_snoc:
  "quiet cfg (ts @ [t]) \<longleftrightarrow>
     quiet cfg ts \<and> int (length (filter (\<lambda>x. t - Window cfg \<le> x) (ts @ [t]))) < FailureThreshold cfg"
  by (auto simp: quiet_def nth_append less_Suc_eq)

lemma circuit_of_failures:
  "sorted ts \<Longrightarrow>
     (if quiet cfg ts
      then fold (circuit_failure cfg) ts (Shut []) = Shut (filter (\<lambda>x. ts \<noteq> [] \<and> last ts - Window cfg \<le> x) ts)
      else (\<exists>d n. fold (circuit_failure cfg) ts (Shut []) = Tripped d n))"
proof (induction ts rule: rev_induct)
  case Nil
  then show ?case by (simp add: quiet_def)
next
  case (snoc t ts)
  have le: "x \<le> t" if "x \<in> set ts" for x using snoc.prems that by (simp add: sorted_append)
  have "last ts \<le> t" if "ts \<noteq> []" using le that by simp
  then have f: "filter (\<lambda>x. t - Window cfg \<le> x) (filter (\<lambda>x. ts \<noteq> [] \<and> last ts - Window cfg \<le> x) ts @ [t]) =
      filter (\<lambda>x. t - Window cfg \<le> x) (ts @ [t])"
    by (cases "ts = []") (auto simp: intro!: filter_cong)
  have "sorted ts" using snoc.prems by (simp add: sorted_append)
  then show ?case using snoc.IH f
    by (cases "quiet cfg ts") (auto simp: quiet_snoc Let_def simp del: filter_append)
qed

lemma failures_circuit:
  assumes "BreakerConfig_validate cfg = None" "sorted (t0 # ts)" "breaker_wf cfg t0 b" "local_wf b"
  shows "circuit_of cfg (fst (fold (RecordFailure cfg None) ts (b, w))) = fold (circuit_failure cfg) ts (circuit_of cfg b)"
  using assms(2-4)
proof (induction ts arbitrary: t0 b)
  case (Cons t ts)
  have wf: "breaker_wf cfg t b" using Cons.prems wf_mono [of cfg t0 b t] by simp
  obtain b' where b': "RecordFailure cfg None t (b, w) = (b', w)" by (simp add: RecordFailure_local)
  have "breaker_wf cfg t b'" using wf_step [of cfg t "(b, w)" None FailureEv] wf assms(1) b' by simp
  then show ?case
    using Cons.IH [of t b'] Cons.prems failure_circuit [of None b cfg t w] wf b' by simp
qed simp

lemma circuit_of_closed: "bk_state b = StateClosed \<longleftrightarrow> (\<exists>fs. circuit_of cfg b = Shut fs)"
  by (cases "bk_state b") (simp_all add: circuit_of_def)

lemma new_breaker:
  assumes "NewSharedBreaker cfg = Inr b"
  shows "BreakerConfig_validate cfg = None" "breaker_wf cfg t b" "local_wf b" "circuit_of cfg b = Shut []"
    "\<not> bk_unpublished b"
  using assms by (auto simp: NewSharedBreaker_def breaker_wf_def local_wf_def circuit_of_def split: option.splits)

section \<open>Properties of the breaker\<close>

text \<open>A configuration of five failures in a minute, for the witnesses.\<close>

definition cfg5 :: BreakerConfig where
  "cfg5 = \<lparr>FailureThreshold = 5, Window = minute, CooldownBase = 10 * second, CooldownMax = 2 * minute,
     SuccessThreshold = 2, ProbeTimeout = 30 * second, StateCacheTTL = 500 * millisecond\<rparr>"

lemma cfg5_valid: "BreakerConfig_validate cfg5 = None"
  by (simp add: cfg5_def)

definition b5 :: Breaker where
  "b5 = \<lparr>bk_state = StateClosed, bk_failures = [], bk_successStreak = 0,
     bk_probeInFlight = False, bk_probeStartedAt = 0, bk_openedAt = 0,
     bk_cooldown = CooldownBase cfg5, bk_reopens = 0, bk_unpublished = False,
     bk_cached = zero_SharedState, bk_cachedOK = False, bk_cachedAt = None\<rparr>"

lemma b5_new: "NewSharedBreaker cfg5 = Inr b5"
  using cfg5_valid unfolding NewSharedBreaker_def b5_def by (simp split: option.splits)

text \<open>
  C7. A breaker without a store refines the abstract circuit: admission, success and failure
  act on the circuit it stands for exactly as the circuit says, and keep what the
  correspondence rests on.
\<close>

theorem breaker_refines_circuit:
  assumes "BreakerConfig_validate cfg = None" "breaker_wf cfg now b" "local_wf b"
    and "Allow cfg None now (b, w) = (ok, ba, wa)"
    and "RecordSuccess cfg None now (b, w) = (bs, ws)" "RecordFailure cfg None now (b, w) = (bf, wx)"
  shows "circuit_allow cfg now (circuit_of cfg b) = (ok, circuit_of cfg ba) \<and>
    circuit_success cfg (circuit_of cfg b) = circuit_of cfg bs \<and>
    circuit_failure cfg now (circuit_of cfg b) = circuit_of cfg bf \<and>
    (\<forall>b' \<in> {ba, bs, bf}. breaker_wf cfg now b' \<and> local_wf b')"
  using allow_circuit [OF not_using_None assms(2,3), of w] success_circuit [OF not_using_None assms(3), of cfg now w]
    failure_circuit [OF not_using_None assms(2,3), of w] assms(4-6)
    wf_step [of cfg now "(b, w)" None AllowEv] wf_step [of cfg now "(b, w)" None SuccessEv]
    wf_step [of cfg now "(b, w)" None FailureEv] assms(1,2)
  by (simp add: prod_eq_iff)

theorem breaker_refines_circuit_witness:
  "\<exists>ok ba wa. Allow cfg5 None 7 (b5, ()) = (ok, ba, wa) \<and> circuit_allow cfg5 7 (circuit_of cfg5 b5) = (ok, circuit_of cfg5 ba)"
proof -
  obtain ok ba wa where a: "Allow cfg5 None 7 (b5, ()) = (ok, ba, wa)" by (rule prod_cases3)
  obtain bs ws where s: "RecordSuccess cfg5 None 7 (b5, ()) = (bs, ws)" by (rule prod.exhaust)
  obtain bf wx where f: "RecordFailure cfg5 None 7 (b5, ()) = (bf, wx)" by (rule prod.exhaust)
  show ?thesis
    using breaker_refines_circuit [OF cfg5_valid new_breaker(2) [OF b5_new] new_breaker(3) [OF b5_new] a s f]
    by (intro exI conjI) (rule a, simp)
qed

text \<open>
  C19. A fresh breaker trips exactly when a window fills: after failures at any increasing
  instants it is still closed if and only if no rolling window ending at a failure holds as
  many failures as the threshold.
\<close>

theorem trips_iff_window_fills:
  assumes "NewSharedBreaker cfg = Inr b" "sorted ts"
  shows "bk_state (fst (fold (RecordFailure cfg None) ts (b, w))) = StateClosed \<longleftrightarrow>
    (\<forall>i < length ts. int (length (filter (\<lambda>t. ts ! i - Window cfg \<le> t) (take (Suc i) ts))) < FailureThreshold cfg)"
proof -
  have s: "sorted ((case ts of [] \<Rightarrow> 0 | t # _ \<Rightarrow> t) # ts)" using assms(2) by (cases ts) simp_all
  note new = new_breaker [OF assms(1)]
  have "circuit_of cfg (fst (fold (RecordFailure cfg None) ts (b, w))) = fold (circuit_failure cfg) ts (Shut [])"
    using failures_circuit [OF new(1) s new(2,3)] new(4) by simp
  then show ?thesis
    using circuit_of_failures [OF assms(2), of cfg] unfolding circuit_of_closed [of _ cfg] quiet_def [symmetric]
    by (auto split: if_splits)
qed

theorem trips_iff_window_fills_witness:
  "bk_state (fst (fold (RecordFailure cfg5 None) [0, 10, 20, 30, 40] (b5, ()))) \<noteq> StateClosed"
proof -
  have "\<not> quiet cfg5 [0, 10, 20, 30, 40]" unfolding quiet_def not_all by (rule exI [of _ 4]) (simp add: cfg5_def)
  then show ?thesis
    using trips_iff_window_fills [OF b5_new, of "[0, 10, 20, 30, 40]" "()"] by (simp add: quiet_def)
qed

text \<open>
  C20. The invariant holds for any breaker, shared or not, through any sequence of calls at
  increasing instants and whatever the store answers: the failure window is in order, never
  full and never in the future, the cooldown lies between zero and its maximum, and a local
  probe is only ever out while the breaker is half-open.
\<close>

theorem breaker_invariant:
  assumes "NewSharedBreaker cfg = Inr b" "sorted (map fst evs)"
  shows "breaker_wf cfg (last (0 # map fst evs)) (fst (breaker_run cfg store evs (b, w)))"
proof (cases evs)
  case Nil
  then show ?thesis using new_breaker(2) [OF assms(1)] by (simp add: breaker_run_def)
next
  case (Cons e es)
  then have "sorted (fst e # map fst evs)" using assms(2) by simp
  from wf_run [OF _ new_breaker(1) [OF assms(1)] this, of "(b, w)" store] show ?thesis
    using new_breaker(2) [OF assms(1)] Cons by simp
qed

theorem breaker_invariant_witness:
  "breaker_wf cfg5 90 (fst (breaker_run cfg5 (Some (RedisStore mem_redis gpt4o ''a''))
     [(0, AllowEv), (50, FailureEv), (60, AllowEv), (90, SuccessEv)] (b5, empty_mem, [Lost])))"
  using breaker_invariant [OF b5_new, of "[(0, AllowEv), (50, FailureEv), (60, AllowEv), (90, SuccessEv)]"
      "Some (RedisStore mem_redis gpt4o ''a'')" "(empty_mem, [Lost])"]
  by simp



text \<open>
  The cooldown doubles from episode to episode: the n-th episode in a row lasts the base
  times two to the n-1, at most twenty doublings and never above the maximum.
\<close>

theorem cooldown_doubles:
  assumes "BreakerConfig_validate cfg = None" "CooldownBase cfg < 2 ^ 43" "breaker_wf cfg now b"
    and "bk_state b = StateHalfOpen" "RecordFailure cfg store now (b, w) = (b', w')" "0 \<le> bk_reopens b"
  shows "bk_state b' = StateOpen \<and> bk_openedAt b' = now \<and>
    bk_cooldown b' = min (CooldownMax cfg) (CooldownBase cfg * 2 ^ nat (min (bk_reopens b) 20))"
proof -
  have "bk_cooldown b' = nextCooldown cfg (bk_reopens b + 1) \<and> bk_state b' = StateOpen \<and> bk_openedAt b' = now"
    using assms(4,5)
    by (auto simp: RecordFailure_def recordFailureLocally_def releaseProbe_def open_breaker_def setState_def
        publishOpen_def installShared_def invalidateShared_def Let_def
        split: option.splits prod.splits if_splits bool.splits)
  then show ?thesis using nextCooldown_eq [of cfg "bk_reopens b + 1"] assms(1,2,6) by simp
qed

theorem cooldown_doubles_witness:
  "bk_cooldown (fst (RecordFailure cfg5 None 100 (b5\<lparr>bk_state := StateHalfOpen, bk_reopens := 3\<rparr>, ()))) = 80 * second"
proof -
  obtain b' w' where b: "RecordFailure cfg5 None 100 (b5\<lparr>bk_state := StateHalfOpen, bk_reopens := 3\<rparr>, ()) = (b', w')"
    by (rule prod.exhaust)
  then show ?thesis
    using cooldown_doubles [OF cfg5_valid _ _ _ b] by (simp add: cfg5_def b5_def breaker_wf_def)
qed

lemma unpublished_step:
  assumes "bk_unpublished b" "e \<noteq> ResetEv"
  shows "\<exists>b'. breaker_step cfg store (now, e) (b, w) = (b', w) \<and> bk_unpublished b'"
proof -
  have n: "\<not> usesStore store b" using assms by (simp add: usesStore_def)
  show ?thesis
  proof (cases e)
    case AllowEv
    then show ?thesis using assms n
      by (auto simp: Allow_local allowLocal_def claimProbe_def setState_def Let_def split: State.splits)
  next
    case SuccessEv
    then show ?thesis using assms n
      by (auto simp: RecordSuccess_local recordSuccessLocally_def releaseProbe_def setState_def Let_def usesStore_def)
  next
    case FailureEv
    then show ?thesis using assms n
      by (cases "bk_state b") (auto simp: RecordFailure_local recordFailureLocally_def releaseProbe_def
          open_breaker_def setState_def Let_def)
  qed (use assms in simp)
qed

text \<open>
  C37. A breaker that failed to publish an episode never talks to its store again: no sequence
  of admissions, successes and failures reads or writes the shared state, and only a manual
  reset ends it. A local close does not let the replica rejoin the fleet.
\<close>

theorem unpublished_never_rejoins:
  assumes "bk_unpublished b" "ResetEv \<notin> snd ` set evs"
  shows "\<exists>b'. breaker_run cfg store evs (b, w) = (b', w) \<and> bk_unpublished b'"
  using assms
proof (induction evs arbitrary: b)
  case (Cons e evs)
  obtain now ev where e: "e = (now, ev)" by fastforce
  then obtain b' where "breaker_step cfg store (now, ev) (b, w) = (b', w)" "bk_unpublished b'"
    using unpublished_step [of b ev cfg store now w] Cons.prems by auto
  then show ?case using Cons.IH [of b'] Cons.prems by (simp add: e breaker_run_def)
qed (simp add: breaker_run_def)

theorem unpublished_never_rejoins_witness:
  "\<exists>b'. breaker_run cfg5 (Some (RedisStore mem_redis gpt4o ''a''))
      [(0, AllowEv), (1, SuccessEv), (2, AllowEv), (3, SuccessEv), (4, FailureEv)]
      (b5\<lparr>bk_state := StateHalfOpen, bk_unpublished := True\<rparr>, empty_mem, []) = (b', empty_mem, []) \<and> bk_unpublished b'"
  by (rule unpublished_never_rejoins) simp_all



end
