(* ===== verification/Resilience.thy ===== *)
theory Resilience
  imports Health Breaker
begin

text \<open>
  Retries (\<open>internal/resilience/retry.go\<close>), the order of a fallback chain
  (\<open>internal/resilience/fallback.go\<close>) and the registry of breakers
  (\<open>internal/resilience/breaker_registry.go\<close>). The world \<open>'w\<close> stands for what a provider
  call, a sleep or a random draw may change.
\<close>

section \<open>Errors of the request path\<close>

text \<open>
  Go's error values as far as the request path tells them apart: a provider's classified
  error, the sentinel for an open breaker, a refusal of the budget with team, model, spend and cap,
  and anything else.
\<close>

datatype CallError =
    ProviderErr PError
  | BreakerOpenErr
  | BudgetDeniedErr string string int int
  | OtherErr string

fun asProviderError :: "CallError \<Rightarrow> PError option" where
  "asProviderError (ProviderErr e) = Some e"
| "asProviderError _ = None"

section \<open>Retries\<close>

record RetryConfig =
  MaxAttempts :: int
  BaseDelay :: duration
  MaxTotalAttempts :: int

datatype RetryConfigError = BadMaxAttempts | BadBaseDelay | TotalBelowMaxAttempts

definition NewConfig :: "int \<Rightarrow> duration \<Rightarrow> int \<Rightarrow> RetryConfigError + RetryConfig" where
  "NewConfig maxAttempts baseDelay maxTotalAttempts =
     (if maxAttempts < 1 then Inl BadMaxAttempts
      else if baseDelay \<le> 0 then Inl BadBaseDelay
      else if maxTotalAttempts < maxAttempts then Inl TotalBelowMaxAttempts
      else Inr \<lparr>MaxAttempts = maxAttempts, BaseDelay = baseDelay, MaxTotalAttempts = maxTotalAttempts\<rparr>)"

definition ShouldFallback :: "CallError \<Rightarrow> bool" where
  "ShouldFallback err =
     (case asProviderError err of
        None \<Rightarrow> True
      | Some e \<Rightarrow> \<not> (pe_Kind e = KindInvalidRequest \<or> pe_Kind e = KindContentPolicy))"

definition maxBackoffExponent :: int where
  "maxBackoffExponent = 20"

text \<open>\<open>rnd upper\<close> draws a number below \<open>upper\<close>, as \<open>rand.Int64N\<close> does.\<close>

definition fullJitter :: "(int \<Rightarrow> 'w \<Rightarrow> int \<times> 'w) \<Rightarrow> duration \<Rightarrow> int \<Rightarrow> 'w \<Rightarrow> duration \<times> 'w" where
  "fullJitter rnd base exponent w =
     (let e0 = (if exponent < 0 then 0 else exponent);
          e1 = (if e0 > maxBackoffExponent then maxBackoffExponent else e0);
          upper = i64 (base * 2 ^ nat e1)
      in if upper \<le> 0 then (base, w) else rnd upper w)"

definition backoffDelay :: "(int \<Rightarrow> 'w \<Rightarrow> int \<times> 'w) \<Rightarrow> duration \<Rightarrow> int \<Rightarrow> PError \<Rightarrow> 'w \<Rightarrow> duration \<times> 'w" where
  "backoffDelay rnd base n provErr w =
     (if pe_RetryAfter provErr > 0 then (pe_RetryAfter provErr, w) else fullJitter rnd base (n - 1) w)"

text \<open>
  What an attempt sees of the outside: a call to it, a sleep that reports whether the caller's
  context ended first, and random draws. Results are optional where Go has a zero value.
\<close>

record ('a, 'w) retry_env =
  re_attempt :: "int \<Rightarrow> 'w \<Rightarrow> ('a option \<times> CallError option) \<times> 'w"
  re_sleep :: "duration \<Rightarrow> 'w \<Rightarrow> bool \<times> 'w"
  re_rand :: "int \<Rightarrow> 'w \<Rightarrow> int \<times> 'w"

function do_from ::
  "RetryConfig \<Rightarrow> ('a, 'w) retry_env \<Rightarrow> int \<Rightarrow> 'a option \<times> CallError option \<times> int \<Rightarrow> 'w \<Rightarrow>
   ('a option \<times> CallError option \<times> int) \<times> 'w" where
  "do_from cfg env n acc w =
     (if n \<le> MaxAttempts cfg then
        (case re_attempt env n w of
           ((result, err), w1) \<Rightarrow>
             (case err of
                None \<Rightarrow> ((result, None, n), w1)
              | Some e \<Rightarrow>
                  (if n = MaxAttempts cfg then ((result, err, n), w1)
                   else
                     (case asProviderError e of
                        None \<Rightarrow> ((result, err, n), w1)
                      | Some pe \<Rightarrow>
                          (if \<not> pe_Retryable pe then ((result, err, n), w1)
                           else
                             (case backoffDelay (re_rand env) (BaseDelay cfg) n pe w1 of
                                (delay, w2) \<Rightarrow>
                                  (case re_sleep env delay w2 of
                                     (over, w3) \<Rightarrow>
                                       (if over then ((result, err, n), w3)
                                        else do_from cfg env (n + 1) (result, err, n) w3))))))))
      else (acc, w))"
  by pat_completeness auto
termination
  by (relation "measure (\<lambda>(cfg, env, n, acc, w). nat (MaxAttempts cfg + 1 - n))") auto

declare do_from.simps [simp del]

definition Do ::
  "RetryConfig \<Rightarrow> ('a, 'w) retry_env \<Rightarrow> 'w \<Rightarrow> ('a option \<times> CallError option \<times> int) \<times> 'w" where
  "Do cfg env w = do_from cfg env 1 (None, None, 0) w"

section \<open>The order of a chain\<close>

record Candidate =
  cn_Provider :: string
  cn_Model :: string

record ChainInput =
  ci_Requested :: Candidate
  ci_Tier :: "Candidate list"
  ci_StatusOf :: "(string \<Rightarrow> Status) option"
  ci_Allowed :: "(string \<Rightarrow> string \<Rightarrow> bool) option"

text \<open>The map of candidates seen so far has the candidates in \<open>ordered\<close> as its keys.\<close>

definition chain_add :: "Candidate \<Rightarrow> Candidate list \<Rightarrow> Candidate list" where
  "chain_add c ordered =
     (if cn_Provider c = [] \<or> cn_Model c = [] then ordered
      else if c \<in> set ordered then ordered
      else ordered @ [c])"

definition permitted :: "ChainInput \<Rightarrow> Candidate list" where
  "permitted inp =
     filter (\<lambda>c. case ci_Allowed inp of None \<Rightarrow> True | Some allowed \<Rightarrow> allowed (cn_Provider c) (cn_Model c))
       (fold chain_add (ci_Tier inp) (chain_add (ci_Requested inp) []))"

definition status_of :: "ChainInput \<Rightarrow> string \<Rightarrow> Status" where
  "status_of inp = (case ci_StatusOf inp of None \<Rightarrow> (\<lambda>_. StatusHealthy) | Some f \<Rightarrow> f)"

definition BuildChain :: "ChainInput \<Rightarrow> Candidate list" where
  "BuildChain inp =
     (let ps = permitted inp in
      if ps = [] then []
      else
        (let chain = concat (map (\<lambda>band. filter (\<lambda>c. status_of inp (cn_Provider c) = band) ps)
                               [StatusHealthy, StatusDegraded])
         in if chain = [] then ps else chain))"

section \<open>The registry of breakers\<close>

text \<open>
  Go's map from labels to breakers, as the list of its entries in an arbitrary order; every
  breaker has the store its labels give it, all of them on the same world.
\<close>

record BreakerRegistry =
  br_breakers :: "(Labels \<times> Breaker) list"
  br_cfg :: BreakerConfig

type_synonym 'w newStore = "(Labels \<Rightarrow> 'w BreakerStore) option"

definition store_for :: "'w newStore \<Rightarrow> Labels \<Rightarrow> 'w BreakerStore option" where
  "store_for newStore labels = (case newStore of None \<Rightarrow> None | Some f \<Rightarrow> Some (f labels))"

definition NewBreakerRegistry :: "BreakerConfig \<Rightarrow> BreakerConfigError + BreakerRegistry" where
  "NewBreakerRegistry cfg =
     (case BreakerConfig_validate cfg of
        Some e \<Rightarrow> Inl e
      | None \<Rightarrow> Inr \<lparr>br_breakers = [], br_cfg = cfg\<rparr>)"

definition For :: "Labels \<Rightarrow> BreakerRegistry \<Rightarrow> Breaker option \<times> BreakerRegistry" where
  "For labels r =
     (case map_of (br_breakers r) labels of
        Some b \<Rightarrow> (Some b, r)
      | None \<Rightarrow>
          (case NewSharedBreaker (br_cfg r) of
             Inl _ \<Rightarrow> (None, r)
           | Inr b \<Rightarrow> (Some b, r\<lparr>br_breakers := br_breakers r @ [(labels, b)]\<rparr>)))"

text \<open>A call on the breaker that \<open>For\<close> returned: Go shares the pointer, here it is put back.\<close>

definition put_breaker :: "Labels \<Rightarrow> Breaker \<Rightarrow> BreakerRegistry \<Rightarrow> BreakerRegistry" where
  "put_breaker labels b r =
     r\<lparr>br_breakers := map (\<lambda>(l, b'). if l = labels then (l, b) else (l, b')) (br_breakers r)\<rparr>"

definition AnyOpen :: "BreakerRegistry \<Rightarrow> string \<Rightarrow> bool" where
  "AnyOpen r providerName \<longleftrightarrow>
     list_ex (\<lambda>(labels, b). lb_Provider labels = providerName \<and> bk_state b = StateOpen) (br_breakers r)"

fun reset_entries ::
  "BreakerConfig \<Rightarrow> 'w newStore \<Rightarrow> instant \<Rightarrow> string \<Rightarrow> (Labels \<times> Breaker) list \<Rightarrow> 'w \<Rightarrow>
   (int \<times> bool) \<times> (Labels \<times> Breaker) list \<times> 'w" where
  "reset_entries cfg newStore now providerName [] w = ((0, True), [], w)"
| "reset_entries cfg newStore now providerName ((labels, b) # es) w =
     (if lb_Provider labels = providerName then
        (case BreakerReset cfg (store_for newStore labels) now (b, w) of
           (ok, b', w') \<Rightarrow>
             (case reset_entries cfg newStore now providerName es w' of
                ((n, oks), es', w'') \<Rightarrow> ((n + 1, ok \<and> oks), (labels, b') # es', w'')))
      else
        (case reset_entries cfg newStore now providerName es w of
           (res, es', w') \<Rightarrow> (res, (labels, b) # es', w')))"

definition Registry_Reset ::
  "'w newStore \<Rightarrow> instant \<Rightarrow> string \<Rightarrow> BreakerRegistry \<times> 'w \<Rightarrow> (int \<times> bool) \<times> BreakerRegistry \<times> 'w" where
  "Registry_Reset newStore now providerName rw =
     (case rw of (r, w) \<Rightarrow>
        (case reset_entries (br_cfg r) newStore now providerName (br_breakers r) w of
           (res, es, w') \<Rightarrow> (res, r\<lparr>br_breakers := es\<rparr>, w')))"

definition Registry_Snapshots :: "instant \<Rightarrow> BreakerRegistry \<Rightarrow> (Labels \<times> BreakerSnapshot) list" where
  "Registry_Snapshots now r = map (\<lambda>(labels, b). (labels, Inspect (br_cfg r) now b)) (br_breakers r)"

section \<open>Facts on retries\<close>

text \<open>The error an attempt is repeated for, if it is.\<close>

definition again :: "RetryConfig \<Rightarrow> int \<Rightarrow> CallError option \<Rightarrow> PError option" where
  "again cfg n err =
     (case err of
        None \<Rightarrow> None
      | Some e \<Rightarrow>
          (if n = MaxAttempts cfg then None
           else (case asProviderError e of
                   None \<Rightarrow> None
                 | Some pe \<Rightarrow> if pe_Retryable pe then Some pe else None)))"

lemma do_from_unfold:
  assumes "n \<le> MaxAttempts cfg" "re_attempt env n w = ((r, e), w1)"
  shows "do_from cfg env n acc w =
    (case again cfg n e of
       None \<Rightarrow> ((r, e, n), w1)
     | Some pe \<Rightarrow>
         (case backoffDelay (re_rand env) (BaseDelay cfg) n pe w1 of
            (d, w2) \<Rightarrow>
              (case re_sleep env d w2 of
                 (over, w3) \<Rightarrow> if over then ((r, e, n), w3) else do_from cfg env (n + 1) (r, e, n) w3)))"
  using assms by (subst do_from.simps) (auto simp: again_def split: option.splits)

lemma again_less: "again cfg n e = Some pe \<Longrightarrow> n \<le> MaxAttempts cfg \<Longrightarrow> n + 1 \<le> MaxAttempts cfg"
  by (auto simp: again_def split: option.splits if_splits)

text \<open>Induction over the attempts left: what holds when the loop stops and passes back holds.\<close>

lemma do_from_rule:
  assumes "n \<le> MaxAttempts cfg" "I n w"
    and stop: "\<And>n w r e w1. I n w \<Longrightarrow> n \<le> MaxAttempts cfg \<Longrightarrow> re_attempt env n w = ((r, e), w1) \<Longrightarrow>
      again cfg n e = None \<Longrightarrow> Q ((r, e, n), w1)"
    and over: "\<And>n w r e w1 pe d w2 w3. I n w \<Longrightarrow> n \<le> MaxAttempts cfg \<Longrightarrow> re_attempt env n w = ((r, e), w1) \<Longrightarrow>
      again cfg n e = Some pe \<Longrightarrow> backoffDelay (re_rand env) (BaseDelay cfg) n pe w1 = (d, w2) \<Longrightarrow>
      re_sleep env d w2 = (True, w3) \<Longrightarrow> Q ((r, e, n), w3)"
    and step: "\<And>n w r e w1 pe d w2 w3. I n w \<Longrightarrow> n \<le> MaxAttempts cfg \<Longrightarrow> re_attempt env n w = ((r, e), w1) \<Longrightarrow>
      again cfg n e = Some pe \<Longrightarrow> backoffDelay (re_rand env) (BaseDelay cfg) n pe w1 = (d, w2) \<Longrightarrow>
      re_sleep env d w2 = (False, w3) \<Longrightarrow> I (n + 1) w3"
  shows "Q (do_from cfg env n acc w)"
  using assms(1,2)
proof (induction "nat (MaxAttempts cfg - n)" arbitrary: n acc w)
  case 0
  obtain r e w1 where a: "re_attempt env n w = ((r, e), w1)" by (metis prod.exhaust)
  have "again cfg n e = None" using again_less [of cfg n e] 0 by (cases "again cfg n e") auto
  then show ?case using stop [OF 0(3,2) a] by (simp add: do_from_unfold [OF 0(2) a])
next
  case (Suc k)
  obtain r e w1 where a: "re_attempt env n w = ((r, e), w1)" by (metis prod.exhaust)
  show ?case
  proof (cases "again cfg n e")
    case None
    then show ?thesis using stop [OF Suc(4,3) a] by (simp add: do_from_unfold [OF Suc(3) a])
  next
    case (Some pe)
    obtain d w2 where b: "backoffDelay (re_rand env) (BaseDelay cfg) n pe w1 = (d, w2)" by (rule prod.exhaust)
    obtain ov w3 where s: "re_sleep env d w2 = (ov, w3)" by (rule prod.exhaust)
    have "Q (do_from cfg env (n + 1) (r, e, n) w3)" if "\<not> ov"
      using Suc(1) [of "n + 1" w3 "(r, e, n)"] Suc(2) again_less [OF Some Suc(3)]
        step [OF Suc(4,3) a Some b] s that by simp
    then show ?thesis
      using over [OF Suc(4,3) a Some b] s by (cases ov) (simp_all add: do_from_unfold [OF Suc(3) a] Some b)
  qed
qed

lemma Do_attempts:
  assumes "1 \<le> MaxAttempts cfg" "Do cfg env w = ((r, e, k), w')"
  shows "1 \<le> k \<and> k \<le> MaxAttempts cfg"
proof -
  have "(\<lambda>((r, e, k), w). 1 \<le> k \<and> k \<le> MaxAttempts cfg) (do_from cfg env 1 (None, None, 0) w)"
    by (rule do_from_rule [where I = "\<lambda>n w. 1 \<le> n", OF assms(1)]) auto
  then show ?thesis using assms(2) by (simp add: Do_def)
qed

lemma rand_inv:
  assumes "\<And>u w. P w \<Longrightarrow> P (snd (rnd u w))" "P w"
  shows "P (snd (backoffDelay rnd base n pe w))"
  using assms by (simp add: backoffDelay_def fullJitter_def Let_def)

lemma Do_inv:
  assumes "1 \<le> MaxAttempts cfg"
    and at: "\<And>n w. P w \<Longrightarrow> P (snd (re_attempt env n w))" and sl: "\<And>d w. P w \<Longrightarrow> P (snd (re_sleep env d w))"
    and rn: "\<And>u w. P w \<Longrightarrow> P (snd (re_rand env u w))" and "P w"
  shows "P (snd (Do cfg env w))"
  unfolding Do_def
proof (rule do_from_rule [where I = "\<lambda>n w. P w" and Q = "\<lambda>x. P (snd x)", OF assms(1,5)])
  show "P (snd ((r, e, n), w1))" if "P w" "re_attempt env n w = ((r, e), w1)" for n w r e w1
    using at [OF that(1), of n] that(2) by simp
  show "P w3" if "P w" "re_attempt env n w = ((r, e), w1)"
    "backoffDelay (re_rand env) (BaseDelay cfg) n pe w1 = (d, w2)" "re_sleep env d w2 = (ov, w3)"
    for n w r e w1 pe d w2 ov w3
    using at [OF that(1), of n] rand_inv [where P = P and rnd = "re_rand env", of w1 "BaseDelay cfg" n pe] rn sl [of w2 d] that
    by simp
  then show "P (snd ((r, e, n), w3))" if "P w" "re_attempt env n w = ((r, e), w1)"
    "backoffDelay (re_rand env) (BaseDelay cfg) n pe w1 = (d, w2)" "re_sleep env d w2 = (True, w3)"
    for n w r e w1 pe d w2 w3 using that by simp
qed

text \<open>
  A provider that plays back a script: the outcome of each attempt, and for each sleep whether
  the caller's context ends during it. The delays slept are kept.
\<close>

type_synonym 'a script = "('a option \<times> CallError option) list \<times> bool list \<times> duration list"

definition scripted :: "('a, 'a script) retry_env" where
  "scripted =
     \<lparr>re_attempt = (\<lambda>n (os, cs, ds). case os of [] \<Rightarrow> ((None, None), os, cs, ds) | a # os' \<Rightarrow> (a, os', cs, ds)),
      re_sleep = (\<lambda>d (os, cs, ds). case cs of [] \<Rightarrow> (False, os, cs, ds @ [d]) | c # cs' \<Rightarrow> (c, os, cs', ds @ [d])),
      re_rand = (\<lambda>u w. (u - 1, w))\<rparr>"

fun goes_on :: "('a option \<times> CallError option) \<times> bool \<Rightarrow> bool" where
  "goes_on ((_, Some (ProviderErr e)), c) = (pe_Retryable e \<and> \<not> c)"
| "goes_on _ = False"

lemma scripted_sims:
  "m < length os \<Longrightarrow> re_attempt scripted n (drop m os, cs, ds) = (os ! m, drop (Suc m) os, cs, ds)"
  "m < length cs \<Longrightarrow> re_sleep scripted d (os', drop m cs, ds) = (cs ! m, os', drop (Suc m) cs, ds @ [d])"
  "snd (backoffDelay (re_rand scripted) base n pe w) = w"
  by (simp_all add: scripted_def Cons_nth_drop_Suc [symmetric] backoffDelay_def fullJitter_def Let_def)

lemma again_goes_on:
  "again cfg n e = None \<longleftrightarrow> n = MaxAttempts cfg \<or> \<not> goes_on ((r, e), False)"
  by (cases "((r, e), False)" rule: goes_on.cases) (auto simp: again_def)

lemma again_over: "again cfg n e = Some pe \<Longrightarrow> goes_on ((r, e), c) \<longleftrightarrow> \<not> c"
  by (cases "((r, e), c)" rule: goes_on.cases) (auto simp: again_def split: if_splits)

lemma goes_on_mono: "goes_on (x, c) \<Longrightarrow> goes_on (x, False)"
  by (cases "(x, c)" rule: goes_on.cases) auto

lemma shifted_fits:
  assumes "0 < (d :: int)" "d < 2 ^ 43" "k \<le> 20"
  shows "i64 (d * 2 ^ k) = d * 2 ^ k"
proof -
  have "d * 2 ^ k \<le> d * 2 ^ 20" using assms by (intro mult_left_mono power_increasing) auto
  moreover have "d * 2 ^ 20 < 2 ^ 43 * 2 ^ 20" using assms(2) by (rule mult_strict_right_mono) simp
  moreover have "(2 :: int) ^ 43 * 2 ^ 20 = 2 ^ 63" by simp
  ultimately have "d * 2 ^ k < 2 ^ 63" by linarith
  moreover have "0 < d * 2 ^ k" using assms(1) by simp
  ultimately show ?thesis by (intro i64_id) simp_all
qed

section \<open>Properties of retries\<close>

text \<open>
  C26. The retry loop stops exactly where it should: with a script of outcomes it makes one
  attempt more than there are leading retryable failures whose sleep was not cut short, never
  more than the configured maximum, and returns the outcome of the last attempt.
\<close>

theorem Do_stops:
  assumes "1 \<le> MaxAttempts cfg" "MaxAttempts cfg \<le> int (length os)" "length os = length cs"
  defines "k \<equiv> length (takeWhile goes_on (take (nat (MaxAttempts cfg) - 1) (zip os cs)))"
  shows "fst (Do cfg scripted (os, cs, [])) = (fst (os ! k), snd (os ! k), int k + 1) \<and>
    fst (snd (Do cfg scripted (os, cs, []))) = drop (Suc k) os \<and> int k < MaxAttempts cfg"
proof -
  let ?zs = "take (nat (MaxAttempts cfg) - 1) (zip os cs)"
  let ?I = "\<lambda>n w. 1 \<le> n \<and> (\<exists>ds. w = (drop (nat n - 1) os, drop (nat n - 1) cs, ds)) \<and>
    (\<forall>i < nat n - 1. goes_on (os ! i, cs ! i))"
  let ?Q = "\<lambda>(res, os', w'). res = (fst (os ! k), snd (os ! k), int k + 1) \<and> os' = drop (Suc k) os \<and>
    int k < MaxAttempts cfg"
  have k: "k = nat n - 1" if "1 \<le> n" "n \<le> MaxAttempts cfg" "\<forall>i < nat n - 1. goes_on (os ! i, cs ! i)"
    "n = MaxAttempts cfg \<or> \<not> goes_on (os ! (nat n - 1), cs ! (nat n - 1))" for n
  proof -
    have "takeWhile goes_on ?zs = take (nat n - 1) ?zs"
      using that assms(2,3) by (intro takeWhile_eq_take_P_nth) auto
    then show ?thesis using that assms(2,3) unfolding k_def by simp
  qed
  have at: "os ! m = (r, e) \<and> m < length cs \<and> (\<exists>ds. w1 = (drop (Suc m) os, drop m cs, ds))"
    if "?I n w" "n \<le> MaxAttempts cfg" "re_attempt scripted n w = ((r, e), w1)" "m = nat n - 1" for n w r e w1 m
    using that assms(2,3) by (auto simp: scripted_sims(1))
  have sl: "cs ! m = c \<and> (\<exists>ds. w3 = (drop (Suc m) os, drop (Suc m) cs, ds))"
    if "w1 = (drop (Suc m) os, drop m cs, ds)" "m < length cs"
      "backoffDelay (re_rand scripted) b n pe w1 = (d, w2)" "re_sleep scripted d w2 = (c, w3)"
    for n w1 w2 w3 m ds b pe d c
    using that scripted_sims(2) [of m cs d "drop (Suc m) os" ds] scripted_sims(3) [of b n pe w1] by auto
  have "?Q (do_from cfg scripted 1 (None, None, 0) (os, cs, []))"
  proof (rule do_from_rule [where I = ?I, OF assms(1)], goal_cases init stop over step)
    case init
    then show ?case by simp
  next
    case (stop n w r e w1)
    note a = at [OF stop(1-3) refl]
    have "n = MaxAttempts cfg \<or> \<not> goes_on (os ! (nat n - 1), cs ! (nat n - 1))"
      using stop(4) a goes_on_mono again_goes_on [of cfg n e r] by metis
    then have "k = nat n - 1" using k [of n] stop(1,2) by blast
    then show ?case using a stop(1,2) by auto
  next
    case (over n w r e w1 pe d w2 w3)
    note a = at [OF over(1-3) refl]
    then obtain ds where w1: "w1 = (drop (Suc (nat n - 1)) os, drop (nat n - 1) cs, ds)" by blast
    note b = sl [OF w1 _ over(5,6)]
    have "\<not> goes_on (os ! (nat n - 1), cs ! (nat n - 1))" using a b again_over [OF over(4), of r True] by simp
    then have "k = nat n - 1" using k [of n] over(1,2) by blast
    then show ?case using a b over(1,2) by auto
  next
    case (step n w r e w1 pe d w2 w3)
    note a = at [OF step(1-3) refl]
    then obtain ds where w1: "w1 = (drop (Suc (nat n - 1)) os, drop (nat n - 1) cs, ds)" by blast
    note b = sl [OF w1 _ step(5,6)]
    have "goes_on (os ! (nat n - 1), cs ! (nat n - 1))" using a b again_over [OF step(4), of r False] by simp
    moreover obtain m where m: "nat n = Suc m" using step(1) by (cases "nat n") auto
    moreover have "nat (n + 1) = Suc (Suc m)" using m by simp
    ultimately show ?case using step(1) a b by (auto simp: less_Suc_eq)
  qed
  then show ?thesis by (simp add: Do_def split: prod.splits)
qed

definition throttled :: PError where
  "throttled = \<lparr>pe_Kind = KindRateLimited, pe_Provider = ''groq'', pe_Model = ''m'', pe_StatusCode = 429,
     pe_Retryable = True, pe_RetryAfter = 0, pe_Message = [], pe_Err = None\<rparr>"

definition rcfg :: RetryConfig where
  "rcfg = \<lparr>MaxAttempts = 3, BaseDelay = 50 * millisecond, MaxTotalAttempts = 4\<rparr>"

theorem Do_stops_witness:
  "fst (Do rcfg scripted ([(None, Some (ProviderErr throttled)), (Some True, None), (None, None)], [False, False, False], [])) =
     (Some True, None, 2)"
  using Do_stops [of rcfg "[(None, Some (ProviderErr throttled)), (Some True, None), (None, None)]" "[False, False, False]"]
  by (simp add: rcfg_def throttled_def)

text \<open>
  Backoff is bounded and never negative: a stated Retry-After is honoured as it is, and
  otherwise the delay before attempt n+1 lies below the base times two to the n-1, with at
  most twenty doublings, as long as the base is short of 2 to the 43 nanoseconds.
\<close>

theorem backoff_bounded:
  assumes "\<And>u w. 0 < u \<Longrightarrow> 0 \<le> fst (rnd u w) \<and> fst (rnd u w) < u" "0 < base" "base < 2 ^ 43"
  shows "if 0 < pe_RetryAfter pe then fst (backoffDelay rnd base n pe w) = pe_RetryAfter pe
    else 0 \<le> fst (backoffDelay rnd base n pe w) \<and>
      fst (backoffDelay rnd base n pe w) < base * 2 ^ nat (min (n - 1) 20)"
proof -
  have e: "nat (if (if n - 1 < 0 then 0 else n - 1) > maxBackoffExponent then maxBackoffExponent
      else (if n - 1 < 0 then 0 else n - 1)) = nat (min (n - 1) 20)"
    by (auto simp: maxBackoffExponent_def min_def)
  have "i64 (base * 2 ^ nat (min (n - 1) 20)) = base * 2 ^ nat (min (n - 1) 20)"
    using assms(2,3) by (intro shifted_fits) auto
  moreover have "0 < base * 2 ^ nat (min (n - 1) 20)" using assms(2) by simp
  ultimately show ?thesis
    using assms(1) [of "base * 2 ^ nat (min (n - 1) 20)" w]
    unfolding backoffDelay_def fullJitter_def Let_def e by simp
qed

theorem backoff_bounded_witness:
  "fst (backoffDelay (\<lambda>u w. (u - 1, w)) (50 * millisecond) 2 throttled ()) < 100 * millisecond"
  using backoff_bounded [where rnd = "\<lambda>u w. (u - 1, w)" and base = "50 * millisecond" and pe = throttled and n = 2 and w = "()"]
  by (simp add: throttled_def)

text \<open>
  C25. The fallback chain is the permitted candidates and nothing else, each once: the healthy
  and degraded ones in that order and otherwise as declared, all of them if every one is down,
  and none only if the team may use none. A healthy permitted request comes first.
\<close>

definition chain_candidate :: "ChainInput \<Rightarrow> Candidate \<Rightarrow> bool" where
  "chain_candidate inp c \<longleftrightarrow>
     (c = ci_Requested inp \<or> c \<in> set (ci_Tier inp)) \<and> cn_Provider c \<noteq> [] \<and> cn_Model c \<noteq> [] \<and>
     (case ci_Allowed inp of None \<Rightarrow> True | Some allowed \<Rightarrow> allowed (cn_Provider c) (cn_Model c))"

fun Status_rank :: "Status \<Rightarrow> nat" where
  "Status_rank StatusHealthy = 0"
| "Status_rank StatusDegraded = 1"
| "Status_rank StatusDown = 2"

lemma chain_add_fold:
  "distinct xs \<Longrightarrow> distinct (fold chain_add cs xs)"
  "set (fold chain_add cs xs) = set xs \<union> {c \<in> set cs. cn_Provider c \<noteq> [] \<and> cn_Model c \<noteq> []}"
  "\<exists>ys. fold chain_add cs xs = xs @ ys"
proof -
  show "distinct xs \<Longrightarrow> distinct (fold chain_add cs xs)"
    by (induction cs arbitrary: xs) (auto simp: chain_add_def)
  show "set (fold chain_add cs xs) = set xs \<union> {c \<in> set cs. cn_Provider c \<noteq> [] \<and> cn_Model c \<noteq> []}"
    by (induction cs arbitrary: xs) (auto simp: chain_add_def)
  show "\<exists>ys. fold chain_add cs xs = xs @ ys"
  proof (induction cs arbitrary: xs)
    case (Cons c cs)
    obtain zs where "chain_add c xs = xs @ zs" by (metis append_Nil2 chain_add_def)
    then show ?case using Cons.IH [of "xs @ zs"] by auto
  qed simp
qed

lemma permitted_set: "set (permitted inp) = {c. chain_candidate inp c}" "distinct (permitted inp)"
  by (auto simp: permitted_def chain_candidate_def chain_add_fold chain_add_def)

lemma two_bands:
  assumes "\<forall>x \<in> set xs. f x = 0 \<or> f x = (1 :: nat)"
  shows "sort_key f xs = filter (\<lambda>x. f x = 0) xs @ filter (\<lambda>x. f x = 1) xs"
  using assms
proof (induction xs)
  case (Cons x xs)
  have ins: "insort_key f x (as @ bs) = (if f x = 0 then x # as @ bs else as @ x # bs)"
    if "\<forall>a \<in> set as. f a = 0" "\<forall>b \<in> set bs. f b = 1" "f x = 0 \<or> f x = 1" for as bs
  proof -
    have "insort_key f x bs = x # bs" using that(2,3) by (cases bs) auto
    then show ?thesis using that by (induction as) auto
  qed
  have IH: "sort_key f xs = filter (\<lambda>x. f x = 0) xs @ filter (\<lambda>x. f x = 1) xs"
    using Cons.IH Cons.prems by simp
  have x: "f x = 0 \<or> f x = 1" using Cons.prems by simp
  have "sort_key f (x # xs) = insort_key f x (filter (\<lambda>x. f x = 0) xs @ filter (\<lambda>x. f x = 1) xs)"
    by (simp only: sort_key_simps IH)
  also have "\<dots> = (if f x = 0 then x # filter (\<lambda>x. f x = 0) xs @ filter (\<lambda>x. f x = 1) xs
      else filter (\<lambda>x. f x = 0) xs @ x # filter (\<lambda>x. f x = 1) xs)"
    using x by (intro ins) simp_all
  finally show ?case using x by auto
qed simp

theorem BuildChain_order:
  defines "live \<equiv> \<lambda>inp. filter (\<lambda>c. status_of inp (cn_Provider c) \<noteq> StatusDown) (permitted inp)"
  shows "BuildChain inp = (if live inp = [] then permitted inp
           else sort_key (\<lambda>c. Status_rank (status_of inp (cn_Provider c))) (live inp)) \<and>
    distinct (BuildChain inp) \<and> (\<forall>c \<in> set (BuildChain inp). chain_candidate inp c) \<and>
    (BuildChain inp = [] \<longleftrightarrow> (\<nexists>c. chain_candidate inp c)) \<and>
    (chain_candidate inp (ci_Requested inp) \<and> status_of inp (cn_Provider (ci_Requested inp)) = StatusHealthy \<longrightarrow>
       hd (BuildChain inp) = ci_Requested inp)"
proof -
  let ?s = "\<lambda>c. status_of inp (cn_Provider c)"
  have band: "filter (\<lambda>c. Status_rank (?s c) = 0) (live inp) = filter (\<lambda>c. ?s c = StatusHealthy) (permitted inp)"
    "filter (\<lambda>c. Status_rank (?s c) = 1) (live inp) = filter (\<lambda>c. ?s c = StatusDegraded) (permitted inp)"
    unfolding live_def filter_filter by (intro filter_cong refl; case_tac "?s x"; simp)+
  have chain: "concat (map (\<lambda>band. filter (\<lambda>c. ?s c = band) (permitted inp)) [StatusHealthy, StatusDegraded]) =
      sort_key (\<lambda>c. Status_rank (?s c)) (live inp)"
  proof -
    have "\<forall>c \<in> set (live inp). Status_rank (?s c) = 0 \<or> Status_rank (?s c) = 1"
    proof
      fix c assume "c \<in> set (live inp)"
      then show "Status_rank (?s c) = 0 \<or> Status_rank (?s c) = 1" by (cases "?s c") (simp_all add: live_def)
    qed
    from two_bands [OF this] show ?thesis unfolding band by simp
  qed
  have ne: "permitted inp = [] \<Longrightarrow> live inp = []" by (simp add: live_def)
  have nil: "sort_key (\<lambda>c. Status_rank (?s c)) (live inp) = [] \<longleftrightarrow> live inp = []"
    by (metis length_0_conv length_sort)
  have eq: "BuildChain inp = (if live inp = [] then permitted inp else sort_key (\<lambda>c. Status_rank (?s c)) (live inp))"
    unfolding BuildChain_def Let_def chain nil using ne by simp
  have "set (BuildChain inp) \<subseteq> {c. chain_candidate inp c}" "distinct (BuildChain inp)"
    using permitted_set [of inp] by (auto simp: eq live_def)
  moreover have "BuildChain inp = [] \<longleftrightarrow> (\<nexists>c. chain_candidate inp c)"
  proof -
    have "BuildChain inp = [] \<longleftrightarrow> permitted inp = []" using ne nil by (auto simp: eq)
    then show ?thesis using permitted_set(1) [of inp] by (metis (mono_tags) Collect_empty_eq set_empty)
  qed
  moreover have "hd (BuildChain inp) = ci_Requested inp"
    if req: "chain_candidate inp (ci_Requested inp)" "?s (ci_Requested inp) = StatusHealthy"
  proof -
    obtain ys where "fold chain_add (ci_Tier inp) [ci_Requested inp] = ci_Requested inp # ys"
      using chain_add_fold(3) [of "ci_Tier inp" "[ci_Requested inp]"] by auto
    then obtain zs where "permitted inp = ci_Requested inp # zs"
      using req(1) by (auto simp: permitted_def chain_candidate_def chain_add_def)
    then show ?thesis using req(2) by (simp add: BuildChain_def Let_def)
  qed
  ultimately show ?thesis using eq by blast
qed

definition two_tier :: ChainInput where
  "two_tier = \<lparr>ci_Requested = \<lparr>cn_Provider = ''a'', cn_Model = ''m''\<rparr>,
     ci_Tier = [\<lparr>cn_Provider = ''a'', cn_Model = ''m''\<rparr>, \<lparr>cn_Provider = ''b'', cn_Model = ''n''\<rparr>],
     ci_StatusOf = None, ci_Allowed = Some (\<lambda>p m. p = ''a'')\<rparr>"

theorem BuildChain_order_witness: "hd (BuildChain two_tier) = \<lparr>cn_Provider = ''a'', cn_Model = ''m''\<rparr>"
proof -
  have "chain_candidate two_tier (ci_Requested two_tier)"
    "status_of two_tier (cn_Provider (ci_Requested two_tier)) = StatusHealthy"
    "ci_Requested two_tier = \<lparr>cn_Provider = ''a'', cn_Model = ''m''\<rparr>"
    by (simp_all add: two_tier_def chain_candidate_def status_of_def)
  then show ?thesis using BuildChain_order [of two_tier] by metis
qed

section \<open>Properties of the registry\<close>

lemma reset_entries_spec:
  assumes "reset_entries cfg newStore now p es w = ((n, ok), es', w')"
  shows "n = int (length (filter (\<lambda>(l, b). lb_Provider l = p) es)) \<and>
    filter (\<lambda>(l, b). lb_Provider l \<noteq> p) es' = filter (\<lambda>(l, b). lb_Provider l \<noteq> p) es \<and>
    (\<forall>(l, b) \<in> set es'. lb_Provider l = p \<longrightarrow> bk_state b = StateClosed \<and> bk_failures b = [] \<and> bk_reopens b = 0) \<and>
    (\<forall>l. lb_Provider l \<noteq> p \<longrightarrow> map_of es' l = map_of es l)"
  using assms
proof (induction es arbitrary: w n ok es' w')
  case (Cons e es)
  obtain l b where e: "e = (l, b)" by (rule prod.exhaust)
  show ?case
  proof (cases "lb_Provider l = p")
    case True
    obtain ok1 b1 w1 where r: "BreakerReset cfg (store_for newStore l) now (b, w) = (ok1, b1, w1)" by (rule prod_cases3)
    obtain n2 ok2 es2 w2 where rs: "reset_entries cfg newStore now p es w1 = ((n2, ok2), es2, w2)" by (metis prod.exhaust)
    have "bk_state b1 = StateClosed \<and> bk_failures b1 = [] \<and> bk_reopens b1 = 0"
      using r by (auto simp: BreakerReset_def setState_def Let_def split: option.splits prod.splits if_splits)
    then show ?thesis using Cons.IH [OF rs] Cons.prems True e r rs by auto
  next
    case False
    obtain n2 ok2 es2 w2 where rs: "reset_entries cfg newStore now p es w = ((n2, ok2), es2, w2)" by (metis prod.exhaust)
    then show ?thesis using Cons.IH [OF rs] Cons.prems False e by auto
  qed
qed simp

text \<open>
  A manual reset does what the endpoint promises, whatever the stores answer: it reports
  how many breakers the provider has, each of them ends closed with its history gone, no
  breaker of the provider is open any more, and no other provider's breaker changes.
\<close>

theorem Registry_Reset_closes:
  assumes "Registry_Reset newStore now p (r, w) = ((n, ok), r', w')"
  shows "n = int (length (filter (\<lambda>(l, b). lb_Provider l = p) (br_breakers r))) \<and>
    \<not> AnyOpen r' p \<and> (\<forall>q. q \<noteq> p \<longrightarrow> AnyOpen r' q = AnyOpen r q) \<and>
    (\<forall>l. lb_Provider l \<noteq> p \<longrightarrow> map_of (br_breakers r') l = map_of (br_breakers r) l)"
proof -
  obtain es where rs: "reset_entries (br_cfg r) newStore now p (br_breakers r) w = ((n, ok), es, w')" "br_breakers r' = es"
    using assms by (auto simp: Registry_Reset_def split: prod.splits)
  note spec = reset_entries_spec [OF rs(1)]
  have "AnyOpen x q \<longleftrightarrow> list_ex (\<lambda>(l, b). lb_Provider l = q \<and> bk_state b = StateOpen)
      (filter (\<lambda>(l, b). lb_Provider l \<noteq> p) (br_breakers x))" if "q \<noteq> p" for x q
    using that by (auto simp: AnyOpen_def list_ex_iff)
  then have "\<forall>q. q \<noteq> p \<longrightarrow> AnyOpen r' q = AnyOpen r q" using spec rs(2) by simp
  moreover have "\<not> AnyOpen r' p" using spec rs(2) by (fastforce simp: AnyOpen_def list_ex_iff)
  ultimately show ?thesis using spec rs(2) by blast
qed

definition tripped :: BreakerRegistry where
  "tripped = \<lparr>br_breakers = [(\<lparr>lb_Provider = ''groq'', lb_Model = ''m''\<rparr>, b5\<lparr>bk_state := StateOpen\<rparr>)], br_cfg = cfg5\<rparr>"

theorem Registry_Reset_closes_witness:
  "AnyOpen tripped ''groq'' \<and> \<not> AnyOpen (fst (snd (Registry_Reset None 0 ''groq'' (tripped, ())))) ''groq''"
proof -
  obtain n ok r' w' where r: "Registry_Reset None 0 ''groq'' (tripped, ()) = ((n, ok), r', w')" by (metis prod.exhaust)
  show ?thesis using Registry_Reset_closes [OF r] r by (simp add: AnyOpen_def tripped_def)
qed

end
