(* ===== verification/Router.thy ===== *)
theory Router
  imports Provider
begin

text \<open>
  The complexity classifier (\<open>internal/router/classify.go\<close>) and the routing policy
  (\<open>internal/router/policy.go\<close>). Scores are rationals; \<open>lc\<close> is the lower case of a code
  point, as in Unicode's tables.
\<close>

section \<open>The classifier\<close>

datatype Complexity = Simple | Complex

fun Complexity_String :: "Complexity \<Rightarrow> string" where
  "Complexity_String Complex = ''complex''"
| "Complexity_String Simple = ''simple''"

type_synonym Lexicon = "runes list"

record Weights =
  wt_Length :: rat
  wt_Reasoning :: rat
  wt_Constraints :: rat
  wt_Context :: rat
  wt_Format :: rat
  wt_Simple :: rat

record Scales =
  sc_LengthTokens :: int
  sc_ReasoningMatches :: int
  sc_ConstraintMatches :: int
  sc_FormatMatches :: int

record ClassifierConfig =
  cc_Threshold :: rat
  cc_Weights :: Weights
  cc_Scales :: Scales
  cc_Reasoning :: Lexicon
  cc_Constraints :: Lexicon
  cc_Format :: Lexicon
  cc_Simple :: Lexicon

record Decision =
  dc_Level :: Complexity
  dc_Score :: rat
  dc_Signals :: "string list"

fun join :: "'a list \<Rightarrow> 'a list list \<Rightarrow> 'a list" where
  "join sep [] = []"
| "join sep [x] = x"
| "join sep (x # y # xs) = x @ sep @ join sep (y # xs)"

definition Reason :: "Decision \<Rightarrow> string" where
  "Reason d = join '' '' (dc_Signals d)"

fun prompt_step :: "Message \<Rightarrow> runes \<times> int \<Rightarrow> runes \<times> int" where
  "prompt_step m (b, turns) =
     (let turns' = (if msg_Role m \<noteq> RoleSystem then turns + 1 else turns) in
      if msg_Role m = RoleAssistant then (b, turns') else (b @ msg_Content m @ [10], turns'))"

definition promptText :: "Message list \<Rightarrow> runes \<times> int \<times> bool" where
  "promptText msgs = (case fold prompt_step msgs ([], 0) of (b, turns) \<Rightarrow> (b, turns, contains b [96, 96, 96]))"

definition router_estimateTokens :: "Message list \<Rightarrow> int" where
  "router_estimateTokens msgs = sum_list (map (\<lambda>m. int ((byte_len (msg_Content m) + 3) div 4) + 4) msgs)"

definition countMatches :: "runes \<Rightarrow> Lexicon \<Rightarrow> int" where
  "countMatches lowered lexicon = int (length (filter (\<lambda>p. contains lowered p) lexicon))"

fun split_on :: "'a \<Rightarrow> 'a list \<Rightarrow> 'a list list" where
  "split_on s [] = [[]]"
| "split_on s (x # xs) =
     (if x = s then [] # split_on s xs
      else (case split_on s xs of [] \<Rightarrow> [[x]] | l # ls \<Rightarrow> (x # l) # ls))"

text \<open>
  A line counts by its first two bytes, which are code points when they match; its length is
  measured in bytes.
\<close>

fun is_list_item :: "runes \<Rightarrow> bool" where
  "is_list_item (a # b # _) =
     ((a = 45 \<or> a = 42) \<and> b = 32 \<or> 49 \<le> a \<and> a \<le> 57 \<and> (b = 46 \<or> b = 41))"
| "is_list_item _ = False"

definition countListItems :: "runes \<Rightarrow> int" where
  "countListItems txt =
     int (length (filter (\<lambda>line. let t = TrimSpace line in \<not> byte_len t < 2 \<and> is_list_item t) (split_on 10 txt)))"

definition saturate :: "rat \<Rightarrow> rat \<Rightarrow> rat" where
  "saturate v scale = (if scale \<le> 0 \<or> v \<le> 0 then 0 else min (v / scale) 1)"

definition context_signal :: "bool \<Rightarrow> int \<Rightarrow> rat" where
  "context_signal hasCode turns = (if hasCode then 1 else if turns > 1 then 1 / 2 else 0)"

definition Classify :: "(rune \<Rightarrow> rune) \<Rightarrow> ClassifierConfig \<Rightarrow> Request \<Rightarrow> Decision" where
  "Classify lc cfg req =
     (let (scanned, turns, hasCode) = promptText (rq_Messages req);
          lowered = map lc scanned;
          tokens = router_estimateTokens (rq_Messages req);
          reasoning = countMatches lowered (cc_Reasoning cfg);
          constraints = countMatches lowered (cc_Constraints cfg) + countListItems scanned;
          format = countMatches lowered (cc_Format cfg);
          simple = countMatches lowered (cc_Simple cfg);
          ctx = context_signal hasCode turns;
          w = cc_Weights cfg; s = cc_Scales cfg;
          score = wt_Length w * saturate (of_int tokens) (of_int (sc_LengthTokens s)) +
            wt_Reasoning w * saturate (of_int reasoning) (of_int (sc_ReasoningMatches s)) +
            wt_Constraints w * saturate (of_int constraints) (of_int (sc_ConstraintMatches s)) +
            wt_Context w * ctx +
            wt_Format w * saturate (of_int format) (of_int (sc_FormatMatches s)) +
            (if simple > 0 then wt_Simple w else 0);
          signals = [''tokens='' @ show_int tokens] @
            (if reasoning > 0 then [''reasoning='' @ show_int reasoning] else []) @
            (if constraints > 0 then [''constraints='' @ show_int constraints] else []) @
            (if ctx > 0 then [''context='' @ fmt_fixed 1 ctx] else []) @
            (if format > 0 then [''format='' @ show_int format] else []) @
            (if simple > 0 then [''lookup''] else []) @
            [''score='' @ fmt_fixed 2 score]
      in \<lparr>dc_Level = (if score \<ge> cc_Threshold cfg then Complex else Simple), dc_Score = score,
          dc_Signals = signals\<rparr>)"

section \<open>The policy\<close>

definition AutoModel :: string where
  "AutoModel = ''auto''"

record Policy =
  po_Simple :: string
  po_Complex :: string

definition Tier :: "Policy \<Rightarrow> Complexity \<Rightarrow> string" where
  "Tier p c = (if c = Complex then po_Complex p else po_Simple p)"

definition Escalate :: "Policy \<Rightarrow> string \<Rightarrow> string option" where
  "Escalate p tier =
     (if tier = po_Simple p \<and> po_Complex p \<noteq> [] \<and> po_Complex p \<noteq> po_Simple p then Some (po_Complex p) else None)"

record Plan =
  pl_Tier :: string
  pl_Level :: Complexity
  pl_Pinned :: bool
  pl_Reason :: string

record Router =
  ro_classifier :: ClassifierConfig
  ro_policy :: Policy

definition Options :: "Router option \<Rightarrow> string list" where
  "Options r = (case r of None \<Rightarrow> [] | Some r \<Rightarrow> [AutoModel, po_Simple (ro_policy r), po_Complex (ro_policy r)])"

definition Routes :: "Router \<Rightarrow> string \<Rightarrow> bool" where
  "Routes r model \<longleftrightarrow>
     model = AutoModel \<or> model \<noteq> [] \<and> (model = po_Simple (ro_policy r) \<or> model = po_Complex (ro_policy r))"

definition levelOf :: "Router \<Rightarrow> string \<Rightarrow> Complexity" where
  "levelOf r tier = (if tier = po_Complex (ro_policy r) then Complex else Simple)"

definition Router_Plan :: "(rune \<Rightarrow> rune) \<Rightarrow> Router \<Rightarrow> string \<Rightarrow> Request \<Rightarrow> Plan option" where
  "Router_Plan lc r model req =
     (if \<not> Routes r model then None
      else if model \<noteq> AutoModel
      then Some \<lparr>pl_Tier = model, pl_Level = levelOf r model, pl_Pinned = True,
                 pl_Reason = ''tier='' @ model @ '' pinned''\<rparr>
      else (let d = Classify lc (ro_classifier r) req in
            Some \<lparr>pl_Tier = Tier (ro_policy r) (dc_Level d), pl_Level = dc_Level d, pl_Pinned = False,
                  pl_Reason = Reason d\<rparr>))"

section \<open>Facts and properties\<close>

lemma saturate_unit: "0 \<le> saturate v scale \<and> saturate v scale \<le> 1"
  by (simp add: saturate_def)

lemma saturate_mono: "v \<le> v' \<Longrightarrow> saturate v scale \<le> saturate v' scale"
  by (auto simp: saturate_def min_def divide_right_mono)

lemma weighted_unit: "0 \<le> w \<Longrightarrow> 0 \<le> x \<Longrightarrow> x \<le> 1 \<Longrightarrow> 0 \<le> w * x \<and> w * x \<le> (w :: rat)"
  by (simp add: mult_left_le)

text \<open>
  No feature can run away with the score: with non-negative weights apart from the one for
  lookups, a prompt of any length and content scores between the lookup weight, if that is
  negative, and the sum of the weights, and is complex exactly when the score reaches the
  threshold. So a threshold above the sum sends everything to the simple tier.
\<close>

theorem score_bounded:
  assumes "w = cc_Weights cfg"
    and "0 \<le> wt_Length w" "0 \<le> wt_Reasoning w" "0 \<le> wt_Constraints w" "0 \<le> wt_Context w" "0 \<le> wt_Format w"
  shows "min 0 (wt_Simple w) \<le> dc_Score (Classify lc cfg req) \<and>
    dc_Score (Classify lc cfg req) \<le> wt_Length w + wt_Reasoning w + wt_Constraints w + wt_Context w + wt_Format w +
      max 0 (wt_Simple w) \<and>
    (dc_Level (Classify lc cfg req) = Complex \<longleftrightarrow> cc_Threshold cfg \<le> dc_Score (Classify lc cfg req))"
proof -
  obtain scanned turns hasCode where p: "promptText (rq_Messages req) = (scanned, turns, hasCode)" by (rule prod_cases3)
  have ctx: "0 \<le> context_signal hasCode turns" "context_signal hasCode turns \<le> 1" by (simp_all add: context_signal_def)
  have sat: "0 \<le> saturate v s" "saturate v s \<le> 1" for v s using saturate_unit by auto
  note parts = weighted_unit [OF assms(2) sat] weighted_unit [OF assms(3) sat] weighted_unit [OF assms(4) sat]
    weighted_unit [OF assms(5) ctx] weighted_unit [OF assms(6) sat]
  have bounds: "min 0 s \<le> a + b + c + d + e + f \<and> a + b + c + d + e + f \<le> A + B + C + D + E + max 0 s"
    if "0 \<le> a \<and> a \<le> A" "0 \<le> b \<and> b \<le> B" "0 \<le> c \<and> c \<le> C" "0 \<le> d \<and> d \<le> D" "0 \<le> e \<and> e \<le> E" "f = s \<or> f = 0"
    for a b c d e f A B C D E s :: rat using that by linarith
  have "min 0 (wt_Simple w) \<le> dc_Score (Classify lc cfg req) \<and>
    dc_Score (Classify lc cfg req) \<le> wt_Length w + wt_Reasoning w + wt_Constraints w + wt_Context w + wt_Format w +
      max 0 (wt_Simple w)"
    unfolding Classify_def Let_def p prod.case Decision.simps
    using parts by (intro bounds) (auto simp: assms(1))
  moreover have "dc_Level (Classify lc cfg req) = Complex \<longleftrightarrow> cc_Threshold cfg \<le> dc_Score (Classify lc cfg req)"
    unfolding Classify_def Let_def p prod.case by simp
  ultimately show ?thesis by blast
qed

definition clf :: ClassifierConfig where
  "clf = \<lparr>cc_Threshold = 1 / 2,
     cc_Weights = \<lparr>wt_Length = 1 / 4, wt_Reasoning = 1 / 4, wt_Constraints = 1 / 4, wt_Context = 1 / 4, wt_Format = 0,
       wt_Simple = - 1 / 2\<rparr>,
     cc_Scales = \<lparr>sc_LengthTokens = 100, sc_ReasoningMatches = 2, sc_ConstraintMatches = 2, sc_FormatMatches = 1\<rparr>,
     cc_Reasoning = [], cc_Constraints = [], cc_Format = [], cc_Simple = []\<rparr>"

theorem score_bounded_witness:
  "dc_Score (Classify (\<lambda>c. c) clf (pingRequest ''m'')) \<le> 1 \<and> - 1 / 2 \<le> dc_Score (Classify (\<lambda>c. c) clf (pingRequest ''m''))"
  using score_bounded [of "cc_Weights clf" clf "\<lambda>c. c" "pingRequest ''m''"] by (simp add: clf_def)

end
