(* ===== verification/Config.thy ===== *)
theory Config
  imports Provider Budget Resilience Router Auth "HOL-Library.Char_ord" "HOL-Library.List_Lexorder"
begin

text \<open>
  The provider configuration: its validation (\<open>internal/config/providers.go\<close>), the bundle a
  reload swaps in (\<open>cmd/gateway/reload.go\<close>) and the check of the routing policy
  (\<open>cmd/gateway/main.go\<close>). The YAML library is not part of the repository, so a file is given
  as its contents, None where reading fails, and \<open>unmarshal\<close> decodes them. \<open>ParseDuration\<close> reads
  a duration and \<open>env\<close> is the process environment, where an unset variable reads as empty.
  Prices are rationals, as the file writes them, instead of 64-bit floats.
\<close>

section \<open>The file\<close>

record modelEntry =
  me_Name :: string
  me_InputPer1MU :: rat
  me_OutputPer1MU :: rat

record providerEntry =
  pn_Name :: string
  pn_Type :: string
  pn_Enabled :: "bool option"
  pn_BaseURL :: string
  pn_APIKeyEnv :: string
  pn_Timeout :: string
  pn_DefaultMaxTokens :: int
  pn_PingModel :: string
  pn_Models :: "modelEntry list"

record tierEntry =
  te_Provider :: string
  te_Model :: string

text \<open>A YAML mapping is the list of its pairs.\<close>

record providersFile =
  pf_Providers :: "providerEntry list"
  pf_Tiers :: "(string \<times> tierEntry list) list"

record ModelPricing =
  mp_InputPer1M :: int
  mp_OutputPer1M :: int

record ProvidersConfig =
  pv_Configs :: "ProviderConfig list"
  pv_Pricing :: "(string \<times> ModelPricing) list"
  pv_Tiers :: "(string \<times> tierEntry list) list"

text \<open>Errors carry the entry's label, or the tier, and what is wrong with it.\<close>

datatype LoadError =
    ConfigUnreadable | ConfigMalformed | NoProvidersDefined | DuplicateProviderName string | EntryNameRequired string | EntryBaseURLRequired string
  | EntryBadMaxTokens string | EntryNoModels string | EntryTypeRequired string | EntryUnknownType string string
  | EntryTimeoutRequired string | EntryTimeoutSyntax string string | EntryTimeoutNotPositive string duration
  | ModelUnnamed string nat | ModelTwice string string
  | NegativePrice string string | PingModelUnknown string string | KeyEnvRequired string | KeyUnset string string
  | ModelSharedBy string string string | AllDisabled
  | TierUnnamed | TierWithoutEntries string | TierEntryIncomplete string nat | TierModelUnknown string string
  | TierModelElsewhere string string string | TierModelTwice string string | ModelInTwoTiers string string string

section \<open>One entry\<close>

definition enabled :: "providerEntry \<Rightarrow> bool" where
  "enabled e = (pn_Enabled e = None \<or> pn_Enabled e = Some True)"

definition microsPerUSD :: rat where
  "microsPerUSD = 1000000"

text \<open>\<open>math.Round\<close> rounds half away from zero.\<close>

definition math_Round :: "rat \<Rightarrow> int" where
  "math_Round x = (if x < 0 then - \<lfloor>- x + 1 / 2\<rfloor> else \<lfloor>x + 1 / 2\<rfloor>)"

definition usdToMicros :: "rat \<Rightarrow> int" where
  "usdToMicros usd = math_Round (usd * microsPerUSD)"

definition resolveAPIKey :: "(string \<Rightarrow> string) \<Rightarrow> string \<Rightarrow> string \<Rightarrow> string \<Rightarrow> LoadError + string" where
  "resolveAPIKey env label providerType envVar =
     (if providerType = ''ollama'' then Inr []
      else if envVar = [] then Inl (KeyEnvRequired label)
      else if env envVar = [] then Inl (KeyUnset label envVar)
      else Inr (env envVar))"

fun resolve_models :: "string \<Rightarrow> nat \<Rightarrow> modelEntry list \<Rightarrow> (string \<times> ModelPricing) list \<Rightarrow>
    LoadError + (string \<times> ModelPricing) list" where
  "resolve_models label j [] seen = Inr seen"
| "resolve_models label j (m # ms) seen =
     (if me_Name m = [] then Inl (ModelUnnamed label j)
      else if me_Name m \<in> fst ` set seen then Inl (ModelTwice label (me_Name m))
      else if me_InputPer1MU m < 0 \<or> me_OutputPer1MU m < 0 then Inl (NegativePrice label (me_Name m))
      else resolve_models label (j + 1) ms
        (seen @ [(me_Name m, \<lparr>mp_InputPer1M = usdToMicros (me_InputPer1MU m),
                             mp_OutputPer1M = usdToMicros (me_OutputPer1MU m)\<rparr>)]))"

definition known_types :: "string list" where
  "known_types = [''openai-compatible'', ''anthropic'', ''gemini'', ''ollama'']"

definition resolve_entry ::
  "(string \<Rightarrow> duration option) \<Rightarrow> (string \<Rightarrow> string) \<Rightarrow> string \<Rightarrow> providerEntry \<Rightarrow>
   LoadError + ProviderConfig \<times> (string \<times> ModelPricing) list" where
  "resolve_entry ParseDuration env label e =
     (if pn_Name e = [] then Inl (EntryNameRequired label)
      else if pn_BaseURL e = [] then Inl (EntryBaseURLRequired label)
      else if pn_DefaultMaxTokens e \<le> 0 then Inl (EntryBadMaxTokens label)
      else if pn_Models e = [] then Inl (EntryNoModels label)
      else if pn_Type e = [] then Inl (EntryTypeRequired label)
      else if pn_Type e \<notin> set known_types then Inl (EntryUnknownType label (pn_Type e))
      else if pn_Timeout e = [] then Inl (EntryTimeoutRequired label)
      else
        (case ParseDuration (pn_Timeout e) of
           None \<Rightarrow> Inl (EntryTimeoutSyntax label (pn_Timeout e))
         | Some timeout \<Rightarrow>
             (if timeout \<le> 0 then Inl (EntryTimeoutNotPositive label timeout)
              else
                (case resolve_models label 0 (pn_Models e) [] of
                   Inl err \<Rightarrow> Inl err
                 | Inr pricing \<Rightarrow>
                     (if pn_PingModel e \<noteq> [] \<and> pn_PingModel e \<notin> fst ` set pricing
                      then Inl (PingModelUnknown label (pn_PingModel e))
                      else
                        (case (if enabled e then resolveAPIKey env label (pn_Type e) (pn_APIKeyEnv e) else Inr []) of
                           Inl err \<Rightarrow> Inl err
                         | Inr apiKey \<Rightarrow>
                             Inr (\<lparr>pc_Name = pn_Name e, pc_Type = pn_Type e, pc_BaseURL = pn_BaseURL e,
                                   pc_APIKey = apiKey, pc_Timeout = timeout, pc_Models = map fst pricing,
                                   pc_DefaultMaxTokens = pn_DefaultMaxTokens e, pc_PingModel = pn_PingModel e\<rparr>,
                                  pricing)))))))"

section \<open>All entries\<close>

record load_state =
  ls_seenNames :: "string list"
  ls_modelOwner :: "(string \<times> string) list"
  ls_modelProvider :: "(string \<times> string) list"
  ls_providerEnabled :: "(string \<times> bool) list"
  ls_Configs :: "ProviderConfig list"
  ls_Pricing :: "(string \<times> ModelPricing) list"

definition entry_label :: "nat \<Rightarrow> providerEntry \<Rightarrow> string" where
  "entry_label i e = (if pn_Name e = [] then ''providers['' @ show_nat i @ '']'' else pn_Name e)"

text \<open>
  A model listed under two entries. The code ranges over a map, so it may report any of several;
  the model reports the first of the file.
\<close>

definition shared_model :: "(string \<times> string) list \<Rightarrow> (string \<times> ModelPricing) list \<Rightarrow> string option" where
  "shared_model owner pricing = find (\<lambda>m. map_of owner m \<noteq> None) (map fst pricing)"

text \<open>The state after an accepted entry.\<close>

definition load_next :: "providerEntry \<Rightarrow> string \<Rightarrow> ProviderConfig \<Rightarrow> (string \<times> ModelPricing) list \<Rightarrow> load_state \<Rightarrow> load_state" where
  "load_next e label cfg pricing st =
     (let st1 = st\<lparr>ls_seenNames := pn_Name e # ls_seenNames st,
                   ls_modelOwner := map (\<lambda>p. (fst p, label)) pricing @ ls_modelOwner st,
                   ls_modelProvider := map (\<lambda>p. (fst p, pn_Name e)) pricing @ ls_modelProvider st,
                   ls_providerEnabled := (pn_Name e, enabled e) # ls_providerEnabled st\<rparr>
      in if enabled e
         then st1\<lparr>ls_Configs := ls_Configs st1 @ [cfg], ls_Pricing := ls_Pricing st1 @ pricing\<rparr>
         else st1)"

fun load_entries ::
  "(string \<Rightarrow> duration option) \<Rightarrow> (string \<Rightarrow> string) \<Rightarrow> nat \<Rightarrow> providerEntry list \<Rightarrow> load_state \<Rightarrow>
   LoadError + load_state" where
  "load_entries PD env i [] st = Inr st"
| "load_entries PD env i (e # es) st =
     (let label = entry_label i e in
      if pn_Name e \<in> set (ls_seenNames st) \<and> pn_Name e \<noteq> [] then Inl (DuplicateProviderName (pn_Name e))
      else
        (case resolve_entry PD env label e of
           Inl err \<Rightarrow> Inl err
         | Inr (cfg, pricing) \<Rightarrow>
             (case shared_model (ls_modelOwner st) pricing of
                Some m \<Rightarrow> Inl (ModelSharedBy m (the (map_of (ls_modelOwner st) m)) label)
              | None \<Rightarrow>
                  load_entries PD env (i + 1) es (load_next e label cfg pricing st))))"

section \<open>Tiers\<close>

fun resolve_tier_entries ::
  "string \<Rightarrow> (string \<times> string) list \<Rightarrow> (string \<times> bool) list \<Rightarrow> nat \<Rightarrow> tierEntry list \<Rightarrow> (string \<times> string) list \<Rightarrow>
   LoadError + tierEntry list \<times> (string \<times> string) list" where
  "resolve_tier_entries name modelProvider enab i [] tierOf = Inr ([], tierOf)"
| "resolve_tier_entries name modelProvider enab i (e # es) tierOf =
     (if te_Provider e = [] \<or> te_Model e = [] then Inl (TierEntryIncomplete name i)
      else
        (case map_of modelProvider (te_Model e) of
           None \<Rightarrow> Inl (TierModelUnknown name (te_Model e))
         | Some owner \<Rightarrow>
             (if owner \<noteq> te_Provider e then Inl (TierModelElsewhere name (te_Model e) owner)
              else
                (case map_of tierOf (te_Model e) of
                   Some other \<Rightarrow>
                     (if other = name then Inl (TierModelTwice name (te_Model e))
                      else Inl (ModelInTwoTiers (te_Model e) other name))
                 | None \<Rightarrow>
                     (case resolve_tier_entries name modelProvider enab (i + 1) es ((te_Model e, name) # tierOf) of
                        Inl err \<Rightarrow> Inl err
                      | Inr (resolved, tierOf') \<Rightarrow>
                          Inr (if map_of enab (te_Provider e) = Some True then e # resolved else resolved, tierOf'))))))"

fun resolve_tiers ::
  "(string \<times> string) list \<Rightarrow> (string \<times> bool) list \<Rightarrow> (string \<times> tierEntry list) list \<Rightarrow> (string \<times> string) list \<Rightarrow>
   LoadError + (string \<times> tierEntry list) list" where
  "resolve_tiers modelProvider enab [] tierOf = Inr []"
| "resolve_tiers modelProvider enab ((name, entries) # ts) tierOf =
     (if name = [] then Inl TierUnnamed
      else if entries = [] then Inl (TierWithoutEntries name)
      else
        (case resolve_tier_entries name modelProvider enab 0 entries tierOf of
           Inl err \<Rightarrow> Inl err
         | Inr (resolved, tierOf') \<Rightarrow>
             (case resolve_tiers modelProvider enab ts tierOf' of
                Inl err \<Rightarrow> Inl err
              | Inr out \<Rightarrow> Inr ((name, resolved) # out))))"

definition resolveTiers ::
  "(string \<times> tierEntry list) list \<Rightarrow> (string \<times> string) list \<Rightarrow> (string \<times> bool) list \<Rightarrow>
   LoadError + (string \<times> tierEntry list) list" where
  "resolveTiers raw modelProvider enab =
     (if raw = [] then Inr [] else resolve_tiers modelProvider enab (sort_key fst raw) [])"

definition load_file ::
  "(string \<Rightarrow> duration option) \<Rightarrow> (string \<Rightarrow> string) \<Rightarrow> providersFile \<Rightarrow> LoadError + ProvidersConfig" where
  "load_file ParseDuration env file =
     (if pf_Providers file = [] then Inl NoProvidersDefined
      else
        (case load_entries ParseDuration env 0 (pf_Providers file)
            \<lparr>ls_seenNames = [], ls_modelOwner = [], ls_modelProvider = [], ls_providerEnabled = [], ls_Configs = [],
             ls_Pricing = []\<rparr> of
           Inl err \<Rightarrow> Inl err
         | Inr st \<Rightarrow>
             (if ls_Configs st = [] then Inl AllDisabled
              else
                (case resolveTiers (pf_Tiers file) (ls_modelProvider st) (ls_providerEnabled st) of
                   Inl err \<Rightarrow> Inl err
                 | Inr tiers \<Rightarrow>
                     Inr \<lparr>pv_Configs = ls_Configs st, pv_Pricing = ls_Pricing st, pv_Tiers = tiers\<rparr>))))"

definition LoadProviders ::
  "(string \<Rightarrow> providersFile option) \<Rightarrow> (string \<Rightarrow> duration option) \<Rightarrow> (string \<Rightarrow> string) \<Rightarrow> string option \<Rightarrow>
   LoadError + ProvidersConfig" where
  "LoadProviders unmarshal ParseDuration env contents =
     (case contents of
        None \<Rightarrow> Inl ConfigUnreadable
      | Some raw \<Rightarrow>
          (case unmarshal raw of
             None \<Rightarrow> Inl ConfigMalformed
           | Some file \<Rightarrow> load_file ParseDuration env file))"

section \<open>The live configuration\<close>

record liveConfig =
  lv_registry :: ProviderRegistry
  lv_calc :: Calculator
  lv_tiers :: "(string \<times> Candidate list) list"
  lv_tierNames :: "(string \<times> Candidate list) list"
  lv_configHash :: string

definition configHash :: "string option \<Rightarrow> string option" where
  "configHash contents = map_option (\<lambda>b. EncodeToString (Sum256 b)) contents"

definition tier_candidates :: "tierEntry list \<Rightarrow> Candidate list" where
  "tier_candidates entries = map (\<lambda>e. \<lparr>cn_Provider = te_Provider e, cn_Model = te_Model e\<rparr>) entries"

text \<open>
  The code ranges over a map; a model is in one tier at most, so the order of the tiers does
  not matter to the index.
\<close>

definition indexTiers ::
  "(string \<times> tierEntry list) list \<Rightarrow> (string \<times> Candidate list) list \<times> (string \<times> Candidate list) list" where
  "indexTiers tiers =
     (concat (map (\<lambda>(name, entries). map (\<lambda>c. (cn_Model c, tier_candidates entries)) (tier_candidates entries)) tiers),
      map (\<lambda>(name, entries). (name, tier_candidates entries)) tiers)"

definition price_table :: "(string \<times> ModelPricing) list \<Rightarrow> (string \<times> Pricing) list" where
  "price_table ps = map (\<lambda>(m, p). (m, \<lparr>InputPer1M = mp_InputPer1M p, OutputPer1M = mp_OutputPer1M p\<rparr>)) ps"

datatype LiveError = HashFailed | LoadFailed LoadError | RegistryFailed RegistryError

text \<open>The file is read twice: for its hash, then for its contents.\<close>

definition loadLiveConfig ::
  "(string \<Rightarrow> providersFile option) \<Rightarrow> (string \<Rightarrow> duration option) \<Rightarrow> (string \<Rightarrow> string) \<Rightarrow> string option \<Rightarrow> string option \<Rightarrow>
   LiveError + liveConfig \<times> nat" where
  "loadLiveConfig unmarshal ParseDuration env first_read second_read =
     (case configHash first_read of
        None \<Rightarrow> Inl HashFailed
      | Some hash \<Rightarrow>
          (case LoadProviders unmarshal ParseDuration env second_read of
             Inl e \<Rightarrow> Inl (LoadFailed e)
           | Inr providers \<Rightarrow>
               (case NewRegistry (pv_Configs providers) of
                  Inl e \<Rightarrow> Inl (RegistryFailed e)
                | Inr registry \<Rightarrow>
                    (case indexTiers (pv_Tiers providers) of
                       (byModel, byName) \<Rightarrow>
                         Inr (\<lparr>lv_registry = registry, lv_calc = map_of (price_table (pv_Pricing providers)),
                               lv_tiers = byModel, lv_tierNames = byName, lv_configHash = hash\<rparr>,
                              length (pv_Configs providers))))))"

text \<open>The team store is served by another component; here it is the list of its teams.\<close>

record configStore =
  cs_current :: liveConfig
  cs_teams :: "Team list"

definition newConfigStore :: "liveConfig \<Rightarrow> Team list \<Rightarrow> configStore" where
  "newConfigStore initial teams = \<lparr>cs_current = initial, cs_teams = teams\<rparr>"

definition store_ForModel :: "configStore \<Rightarrow> string \<Rightarrow> Adapter option" where
  "store_ForModel s model = ForModel (lv_registry (cs_current s)) model"

definition store_DefaultMaxTokensFor :: "configStore \<Rightarrow> string \<Rightarrow> int option" where
  "store_DefaultMaxTokensFor s model = DefaultMaxTokensFor (lv_registry (cs_current s)) model"

text \<open>A nil slice is the empty list.\<close>

definition TierFor :: "configStore \<Rightarrow> string \<Rightarrow> Candidate list" where
  "TierFor s model = (case map_of (lv_tiers (cs_current s)) model of None \<Rightarrow> [] | Some cs \<Rightarrow> cs)"

definition TierNamed :: "configStore \<Rightarrow> string \<Rightarrow> Candidate list" where
  "TierNamed s name = (case map_of (lv_tierNames (cs_current s)) name of None \<Rightarrow> [] | Some cs \<Rightarrow> cs)"

definition store_Cost :: "configStore \<Rightarrow> string \<Rightarrow> int \<Rightarrow> int \<Rightarrow> BudgetError + int" where
  "store_Cost s model inputTokens outputTokens = Cost (lv_calc (cs_current s)) model inputTokens outputTokens"

definition store_Configs :: "configStore \<Rightarrow> ProviderConfig list" where
  "store_Configs s = Configs (lv_registry (cs_current s))"

definition ConfigHash :: "configStore \<Rightarrow> string" where
  "ConfigHash s = lv_configHash (cs_current s)"

record ReloadSummary =
  rl_Providers :: nat
  rl_Teams :: nat

definition reload ::
  "(string \<Rightarrow> providersFile option) \<Rightarrow> (string \<Rightarrow> duration option) \<Rightarrow> (string \<Rightarrow> string) \<Rightarrow> string option \<Rightarrow> string option \<Rightarrow>
   configStore \<Rightarrow> (LiveError + ReloadSummary) \<times> configStore" where
  "reload unmarshal ParseDuration env first_read second_read s =
     (case loadLiveConfig unmarshal ParseDuration env first_read second_read of
        Inl e \<Rightarrow> (Inl e, s)
      | Inr (next, providerCount) \<Rightarrow>
          (Inr \<lparr>rl_Providers = providerCount, rl_Teams = length (cs_teams s)\<rparr>, s\<lparr>cs_current := next\<rparr>))"

datatype PolicyError = TierNotDeclared string | KeywordCollision string

definition validateRoutingPolicy :: "configStore \<Rightarrow> Policy \<Rightarrow> PolicyError option" where
  "validateRoutingPolicy s p =
     (case find (\<lambda>t. TierNamed s t = []) [po_Simple p, po_Complex p] of
        Some t \<Rightarrow> Some (TierNotDeclared t)
      | None \<Rightarrow>
          (case find (\<lambda>m. store_ForModel s m \<noteq> None) [AutoModel, po_Simple p, po_Complex p] of
             Some m \<Rightarrow> Some (KeywordCollision m)
           | None \<Rightarrow> None))"

section \<open>What loading establishes\<close>

lemma math_Round_nonneg: "0 \<le> x \<Longrightarrow> 0 \<le> math_Round x"
  by (simp add: math_Round_def)

definition price_ok :: "ModelPricing \<Rightarrow> bool" where
  "price_ok p \<longleftrightarrow> 0 \<le> mp_InputPer1M p \<and> 0 \<le> mp_OutputPer1M p"

lemma resolve_models_Inr:
  "resolve_models label j ms seen = Inr pricing \<Longrightarrow>
     map fst pricing = map fst seen @ map me_Name ms \<and>
     (distinct (map fst seen) \<longrightarrow> distinct (map fst pricing)) \<and>
     (list_all (price_ok \<circ> snd) seen \<longrightarrow> list_all (price_ok \<circ> snd) pricing)"
proof (induction label j ms seen rule: resolve_models.induct)
  case (2 label j m ms seen)
  let ?e = "(me_Name m, \<lparr>mp_InputPer1M = usdToMicros (me_InputPer1MU m), mp_OutputPer1M = usdToMicros (me_OutputPer1MU m)\<rparr>)"
  have g: "me_Name m \<noteq> []" "me_Name m \<notin> fst ` set seen" "\<not> (me_InputPer1MU m < 0 \<or> me_OutputPer1MU m < 0)"
    "resolve_models label (j + 1) ms (seen @ [?e]) = Inr pricing"
    using 2(2) by (auto split: if_splits)
  have "price_ok (snd ?e)"
    using g(3) by (auto simp: price_ok_def usdToMicros_def microsPerUSD_def intro!: math_Round_nonneg)
  then have "list_all (price_ok \<circ> snd) (seen @ [?e]) = list_all (price_ok \<circ> snd) seen" by simp
  moreover have "distinct (map fst (seen @ [?e])) = distinct (map fst seen)" using g(2) by simp
  moreover have "map fst (seen @ [?e]) @ map me_Name ms = map fst seen @ map me_Name (m # ms)" by simp
  ultimately show ?case using 2(1) [OF g] by metis
qed simp

text \<open>What a resolved entry is, whether it is enabled or not.\<close>

lemma resolve_entry_Inr:
  assumes "resolve_entry PD env label e = Inr (cfg, pricing)"
  shows "pc_Name cfg = pn_Name e" "validateConfig cfg = None" "\<exists>p. newAdapter cfg = Inr p"
    "pc_Models cfg = map fst pricing" "distinct (map fst pricing)" "list_all (price_ok \<circ> snd) pricing"
proof -
  obtain timeout apiKey where
    g: "pn_Name e \<noteq> []" "pn_BaseURL e \<noteq> []" "0 < pn_DefaultMaxTokens e" "pn_Models e \<noteq> []"
      "pn_Type e \<in> set known_types" "0 < timeout"
    and m: "resolve_models label 0 (pn_Models e) [] = Inr pricing"
    and c: "cfg = \<lparr>pc_Name = pn_Name e, pc_Type = pn_Type e, pc_BaseURL = pn_BaseURL e, pc_APIKey = apiKey,
        pc_Timeout = timeout, pc_Models = map fst pricing, pc_DefaultMaxTokens = pn_DefaultMaxTokens e,
        pc_PingModel = pn_PingModel e\<rparr>"
    using assms unfolding resolve_entry_def by (auto split: if_splits option.splits sum.splits)
  note r = resolve_models_Inr [OF m, simplified]
  then have "length pricing = length (pn_Models e)" by (metis length_map)
  then have "pricing \<noteq> []" using g(4) by auto
  then show v: "validateConfig cfg = None" using g c by (simp add: validateConfig_def)
  then show "\<exists>p. newAdapter cfg = Inr p" using g(5) c by (auto simp: newAdapter_def newBase_def known_types_def)
  show "pc_Name cfg = pn_Name e" "pc_Models cfg = map fst pricing" using c by simp_all
  show "distinct (map fst pricing)" "list_all (price_ok \<circ> snd) pricing" using r by blast+
qed

definition load_inv :: "load_state \<Rightarrow> bool" where
  "load_inv st \<longleftrightarrow>
     distinct (map pc_Name (ls_Configs st)) \<and> pc_Name ` set (ls_Configs st) \<subseteq> set (ls_seenNames st) \<and>
     (\<forall>cfg \<in> set (ls_Configs st). \<exists>p. newAdapter cfg = Inr p) \<and>
     map fst (ls_Pricing st) = concat (map pc_Models (ls_Configs st)) \<and>
     distinct (map fst (ls_Pricing st)) \<and> list_all (price_ok \<circ> snd) (ls_Pricing st) \<and>
     fst ` set (ls_Pricing st) \<subseteq> fst ` set (ls_modelOwner st) \<and>
     fst ` set (ls_providerEnabled st) \<subseteq> set (ls_seenNames st) \<and>
     snd ` set (ls_modelProvider st) \<subseteq> fst ` set (ls_providerEnabled st) \<and>
     (\<forall>m n. (m, n) \<in> set (ls_modelProvider st) \<longrightarrow> map_of (ls_providerEnabled st) n = Some True \<longrightarrow>
        (\<exists>cfg \<in> set (ls_Configs st). pc_Name cfg = n \<and> m \<in> set (pc_Models cfg)))"

lemma load_invD:
  assumes "load_inv st"
  shows "distinct (map pc_Name (ls_Configs st))" "pc_Name ` set (ls_Configs st) \<subseteq> set (ls_seenNames st)"
    "\<forall>cfg \<in> set (ls_Configs st). \<exists>p. newAdapter cfg = Inr p"
    "map fst (ls_Pricing st) = concat (map pc_Models (ls_Configs st))" "distinct (map fst (ls_Pricing st))"
    "list_all (price_ok \<circ> snd) (ls_Pricing st)" "fst ` set (ls_Pricing st) \<subseteq> fst ` set (ls_modelOwner st)"
    "fst ` set (ls_providerEnabled st) \<subseteq> set (ls_seenNames st)"
    "snd ` set (ls_modelProvider st) \<subseteq> fst ` set (ls_providerEnabled st)"
    "\<forall>m n. (m, n) \<in> set (ls_modelProvider st) \<longrightarrow> map_of (ls_providerEnabled st) n = Some True \<longrightarrow>
        (\<exists>cfg \<in> set (ls_Configs st). pc_Name cfg = n \<and> m \<in> set (pc_Models cfg))"
  using assms unfolding load_inv_def by - (elim conjE; assumption)+

lemma shared_model_None: "shared_model owner pricing = None \<longleftrightarrow> fst ` set owner \<inter> fst ` set pricing = {}"
  by (force simp: shared_model_def find_None_iff map_of_eq_None_iff)

lemma load_inv_next:
  assumes inv: "load_inv st" and res: "resolve_entry PD env label e = Inr (cfg, pricing)"
    and new: "pn_Name e \<notin> set (ls_seenNames st)" and free: "shared_model (ls_modelOwner st) pricing = None"
  shows "load_inv (load_next e label cfg pricing st)"
proof -
  note d = load_invD [OF inv] and r = resolve_entry_Inr [OF res]
  have away: "fst ` set (ls_Pricing st) \<inter> fst ` set pricing = {}" using free d(7) unfolding shared_model_None by blast
  have name: "pn_Name e \<notin> pc_Name ` set (ls_Configs st)" using new d(2) by auto
  have old: "n \<noteq> pn_Name e" if "(m, n) \<in> set (ls_modelProvider st)" for m n using that d(8,9) new by force
  let ?st = "load_next e label cfg pricing st"
  have "\<exists>cfg \<in> set (ls_Configs ?st). pc_Name cfg = n \<and> m \<in> set (pc_Models cfg)"
    if "(m, n) \<in> set (ls_modelProvider ?st)" "map_of (ls_providerEnabled ?st) n = Some True" for m n
    using that old [of m n] d(10) r(1,4) by (auto simp: load_next_def Let_def split: if_splits)
  moreover have "distinct (map pc_Name (ls_Configs ?st))" "pc_Name ` set (ls_Configs ?st) \<subseteq> set (ls_seenNames ?st)"
    "\<forall>cfg \<in> set (ls_Configs ?st). \<exists>p. newAdapter cfg = Inr p"
    "map fst (ls_Pricing ?st) = concat (map pc_Models (ls_Configs ?st))" "list_all (price_ok \<circ> snd) (ls_Pricing ?st)"
    "fst ` set (ls_Pricing ?st) \<subseteq> fst ` set (ls_modelOwner ?st)"
    "fst ` set (ls_providerEnabled ?st) \<subseteq> set (ls_seenNames ?st)"
    "snd ` set (ls_modelProvider ?st) \<subseteq> fst ` set (ls_providerEnabled ?st)"
    using d r name by (auto simp: load_next_def Let_def image_Un image_image)
  moreover have "distinct (map fst (ls_Pricing ?st))" using d(5) r(5) away by (simp add: load_next_def Let_def)
  ultimately show ?thesis unfolding load_inv_def by blast
qed

lemma load_entries_inv:
  "load_entries PD env i es st = Inr st' \<Longrightarrow> load_inv st \<Longrightarrow> load_inv st'"
proof (induction PD env i es st rule: load_entries.induct)
  case (2 PD env i e es st)
  let ?l = "entry_label i e"
  obtain cfg pricing where res: "resolve_entry PD env ?l e = Inr (cfg, pricing)"
    and free: "shared_model (ls_modelOwner st) pricing = None"
    and dup: "\<not> (pn_Name e \<in> set (ls_seenNames st) \<and> pn_Name e \<noteq> [])"
    and go: "load_entries PD env (i + 1) es (load_next e ?l cfg pricing st) = Inr st'"
    using 2(2) by (auto simp: Let_def split: if_splits sum.splits option.splits prod.splits)
  have "pn_Name e \<noteq> []" using res by (auto simp: resolve_entry_def split: if_splits)
  then have "load_inv (load_next e ?l cfg pricing st)" using load_inv_next [OF 2(3) res _ free] dup by blast
  then show ?case using 2(1) [OF refl dup res refl free] go by simp
qed simp

section \<open>Building the registry cannot fail\<close>

lemma index_models_total:
  "distinct ms \<Longrightarrow> set ms \<inter> fst ` set (rg_byModel r) = {} \<Longrightarrow> \<exists>r'. index_models cfg p ms r = Inr r'"
proof (induction cfg p ms r rule: index_models.induct)
  case (2 cfg p model ms r)
  then have "map_of (rg_byModel r) model = None" by (simp add: map_of_eq_None_iff)
  then show ?case using 2 by auto
qed simp

lemma add_configs_total:
  "distinct (map fst (rg_byName r) @ map pc_Name cfgs) \<Longrightarrow>
   distinct (map fst (rg_byModel r) @ concat (map pc_Models cfgs)) \<Longrightarrow>
   \<forall>cfg \<in> set cfgs. \<exists>p. newAdapter cfg = Inr p \<Longrightarrow> \<exists>r'. add_configs cfgs r = Inr r'"
proof (induction cfgs arbitrary: r)
  case (Cons cfg cfgs)
  obtain p where p: "newAdapter cfg = Inr p" using Cons.prems(3) by auto
  have new: "map_of (rg_byName r) (pc_Name cfg) = None" using Cons.prems(1) by (simp add: map_of_eq_None_iff)
  have "set (pc_Models cfg) \<inter> fst ` set (rg_byModel r) = {}" "distinct (pc_Models cfg)" using Cons.prems(2) by auto
  then obtain r1 where r1: "index_models cfg p (pc_Models cfg) r = Inr r1" using index_models_total by blast
  note i = index_models_Inr [OF r1]
  let ?r2 = "r1\<lparr>rg_byName := rg_byName r1 @ [(pc_Name cfg, p)], rg_order := rg_order r1 @ [p], rg_configs := rg_configs r1 @ [cfg]\<rparr>"
  have "distinct (map fst (rg_byName ?r2) @ map pc_Name cfgs)" using Cons.prems(1) i by auto
  moreover have "map fst (rg_byModel ?r2) = map fst (rg_byModel r) @ pc_Models cfg" using i by (simp add: o_def)
  then have "distinct (map fst (rg_byModel ?r2) @ concat (map pc_Models cfgs))" using Cons.prems(2) by simp
  ultimately obtain r' where "add_configs cfgs ?r2 = Inr r'" using Cons.IH [of ?r2] Cons.prems(3) by auto
  then show ?case using p new r1 by simp
qed simp

lemma load_inv_registry:
  assumes "load_inv st" "ls_Configs st \<noteq> []"
  shows "\<exists>r. NewRegistry (ls_Configs st) = Inr r"
  using add_configs_total [of emptyRegistry "ls_Configs st"] load_invD(1,3-5) [OF assms(1)] assms(2)
  by (simp add: NewRegistry_def emptyRegistry_def)

section \<open>Tiers name what is served\<close>

lemma resolve_tier_entries_Inr:
  "resolve_tier_entries name mp enab i es tierOf = Inr (resolved, tierOf') \<Longrightarrow>
     (\<forall>e \<in> set resolved. map_of mp (te_Model e) = Some (te_Provider e) \<and> map_of enab (te_Provider e) = Some True) \<and>
     distinct (map te_Model resolved) \<and> te_Model ` set resolved \<inter> fst ` set tierOf = {} \<and>
     fst ` set tierOf \<union> te_Model ` set resolved \<subseteq> fst ` set tierOf'"
proof (induction name mp enab i es tierOf arbitrary: resolved rule: resolve_tier_entries.induct)
  case (2 name mp enab i e es tierOf)
  obtain rs where g: "\<not> (te_Provider e = [] \<or> te_Model e = [])" "map_of mp (te_Model e) = Some (te_Provider e)"
    "map_of tierOf (te_Model e) = None"
    and go: "resolve_tier_entries name mp enab (i + 1) es ((te_Model e, name) # tierOf) = Inr (rs, tierOf')"
    and out: "resolved = (if map_of enab (te_Provider e) = Some True then e # rs else rs)"
    using 2(2) by (auto split: if_splits option.splits sum.splits prod.splits)
  have ih: "(\<forall>e \<in> set rs. map_of mp (te_Model e) = Some (te_Provider e) \<and> map_of enab (te_Provider e) = Some True)"
    "distinct (map te_Model rs)" "te_Model ` set rs \<inter> fst ` set ((te_Model e, name) # tierOf) = {}"
    "fst ` set ((te_Model e, name) # tierOf) \<union> te_Model ` set rs \<subseteq> fst ` set tierOf'"
    using 2(1) [OF g(1,2) _ g(3) go] by auto
  have "te_Model e \<notin> fst ` set tierOf" using g(3) by (simp add: map_of_eq_None_iff)
  moreover have "te_Model e \<notin> te_Model ` set rs" "te_Model ` set rs \<inter> fst ` set tierOf = {}" using ih(3) by auto
  ultimately show ?case using ih(1,2,4) g(2) out by (cases "map_of enab (te_Provider e) = Some True") auto
qed simp

lemma resolve_tiers_Inr:
  "resolve_tiers mp enab ts tierOf = Inr out \<Longrightarrow>
     (\<forall>t \<in> set out. \<forall>e \<in> set (snd t). map_of mp (te_Model e) = Some (te_Provider e) \<and>
        map_of enab (te_Provider e) = Some True) \<and>
     distinct (map te_Model (concat (map snd out))) \<and>
     te_Model ` set (concat (map snd out)) \<inter> fst ` set tierOf = {}"
proof (induction mp enab ts tierOf arbitrary: out rule: resolve_tiers.induct)
  case (2 mp enab name es ts tierOf)
  obtain rs tierOf' rest where g: "name \<noteq> []" "es \<noteq> []"
    and one: "resolve_tier_entries name mp enab 0 es tierOf = Inr (rs, tierOf')"
    and go: "resolve_tiers mp enab ts tierOf' = Inr rest" and out: "out = (name, rs) # rest"
    using 2(2) by (auto split: if_splits sum.splits prod.splits)
  note ih = 2(1) [OF g one refl go] and e = resolve_tier_entries_Inr [OF one]
  have "te_Model ` set rs \<inter> te_Model ` set (concat (map snd rest)) = {}"
    "te_Model ` set (concat (map snd rest)) \<inter> fst ` set tierOf = {}" using ih e by blast+
  then show ?case using ih e out by (simp add: Int_Un_distrib2 image_Un)
qed simp

lemma resolveTiers_Inr:
  assumes "resolveTiers raw mp enab = Inr out"
  shows "\<And>t e. t \<in> set out \<Longrightarrow> e \<in> set (snd t) \<Longrightarrow>
      map_of mp (te_Model e) = Some (te_Provider e) \<and> map_of enab (te_Provider e) = Some True"
    "distinct (map te_Model (concat (map snd out)))"
  using assms resolve_tiers_Inr [of mp enab "sort_key fst raw" "[]" out]
  by (auto simp: resolveTiers_def split: if_splits)

section \<open>A live configuration is coherent\<close>

definition loaded :: "ProvidersConfig \<Rightarrow> liveConfig \<Rightarrow> bool" where
  "loaded P lv \<longleftrightarrow>
     (\<exists>st. load_inv st \<and> pv_Configs P = ls_Configs st \<and> pv_Pricing P = ls_Pricing st \<and>
        (\<exists>raw. resolveTiers raw (ls_modelProvider st) (ls_providerEnabled st) = Inr (pv_Tiers P))) \<and>
     NewRegistry (pv_Configs P) = Inr (lv_registry lv) \<and> lv_calc lv = map_of (price_table (pv_Pricing P)) \<and>
     (lv_tiers lv, lv_tierNames lv) = indexTiers (pv_Tiers P)"

lemma load_file_Inr:
  assumes "load_file PD env file = Inr P"
  shows "\<exists>st. load_inv st \<and> ls_Configs st \<noteq> [] \<and> pv_Configs P = ls_Configs st \<and> pv_Pricing P = ls_Pricing st \<and>
    resolveTiers (pf_Tiers file) (ls_modelProvider st) (ls_providerEnabled st) = Inr (pv_Tiers P)"
proof -
  let ?i = "\<lparr>ls_seenNames = [], ls_modelOwner = [], ls_modelProvider = [], ls_providerEnabled = [], ls_Configs = [], ls_Pricing = []\<rparr>"
  have "load_inv ?i" by (simp add: load_inv_def)
  moreover obtain st tiers where st: "load_entries PD env 0 (pf_Providers file) ?i = Inr st" "ls_Configs st \<noteq> []"
    "resolveTiers (pf_Tiers file) (ls_modelProvider st) (ls_providerEnabled st) = Inr tiers"
    "P = \<lparr>pv_Configs = ls_Configs st, pv_Pricing = ls_Pricing st, pv_Tiers = tiers\<rparr>"
    using assms unfolding load_file_def by (auto split: if_splits sum.splits)
  ultimately show ?thesis using load_entries_inv [OF st(1)] by auto
qed

lemma LoadProviders_Inr:
  assumes "LoadProviders u PD env c = Inr P"
  shows "\<exists>file. load_file PD env file = Inr P"
  using assms by (auto simp: LoadProviders_def split: option.splits)

lemma loadLiveConfig_loaded:
  assumes "loadLiveConfig u PD env c c' = Inr (lv, n)"
  shows "\<exists>P. loaded P lv"
proof -
  obtain P reg where P: "LoadProviders u PD env c' = Inr P" "NewRegistry (pv_Configs P) = Inr reg"
    and lv: "lv_registry lv = reg" "lv_calc lv = map_of (price_table (pv_Pricing P))"
      "(lv_tiers lv, lv_tierNames lv) = indexTiers (pv_Tiers P)"
    using assms unfolding loadLiveConfig_def by (auto split: option.splits sum.splits prod.splits)
  obtain f where "load_file PD env f = Inr P" using LoadProviders_Inr [OF P(1)] by blast
  from load_file_Inr [OF this] show ?thesis using P(2) lv unfolding loaded_def by (intro exI [of _ P]) auto
qed

lemma registry_never_fails: "loadLiveConfig u PD env c c' \<noteq> Inl (RegistryFailed e)"
proof
  assume "loadLiveConfig u PD env c c' = Inl (RegistryFailed e)"
  then obtain P where P: "LoadProviders u PD env c' = Inr P" "NewRegistry (pv_Configs P) = Inl e"
    unfolding loadLiveConfig_def by (auto split: option.splits sum.splits prod.splits)
  obtain f where "load_file PD env f = Inr P" using LoadProviders_Inr [OF P(1)] by blast
  from load_file_Inr [OF this] obtain st where "load_inv st" "ls_Configs st \<noteq> []" "pv_Configs P = ls_Configs st" by blast
  then show False using load_inv_registry P(2) by force
qed

text \<open>Any number of reloads, each of them with the two reads of the file it makes.\<close>

fun reloads ::
  "(string \<Rightarrow> providersFile option) \<Rightarrow> (string \<Rightarrow> duration option) \<Rightarrow> (string \<Rightarrow> string) \<Rightarrow>
   (string option \<times> string option) list \<Rightarrow> configStore \<Rightarrow> configStore" where
  "reloads u PD env [] s = s"
| "reloads u PD env ((c, c') # rs) s = reloads u PD env rs (snd (reload u PD env c c' s))"

lemma reloads_loaded:
  "\<exists>P. loaded P (cs_current s) \<Longrightarrow> \<exists>P. loaded P (cs_current (reloads u PD env rs s))"
proof (induction u PD env rs s rule: reloads.induct)
  case (2 u PD env c c' rs s)
  have "\<exists>P. loaded P (cs_current (snd (reload u PD env c c' s)))"
    using 2(2) loadLiveConfig_loaded [of u PD env c c'] by (auto simp: reload_def split: sum.splits)
  then show ?case using 2(1) by simp
qed simp

lemma running_loaded:
  assumes "loadLiveConfig u PD env c c' = Inr (lv, n)"
  obtains P where "loaded P (cs_current (reloads u PD env rs (newConfigStore lv teams)))"
  using reloads_loaded [of "newConfigStore lv teams" u PD env rs] loadLiveConfig_loaded [OF assms]
  by (auto simp: newConfigStore_def)

lemma loaded_price:
  assumes "loaded P lv"
  shows "ForModel (lv_registry lv) m \<noteq> None \<longleftrightarrow> lv_calc lv m \<noteq> None"
    and "lv_calc lv m = Some pr \<Longrightarrow> 0 \<le> InputPer1M pr \<and> 0 \<le> OutputPer1M pr"
proof -
  obtain st where st: "load_inv st" "pv_Configs P = ls_Configs st" "pv_Pricing P = ls_Pricing st"
    and reg: "NewRegistry (pv_Configs P) = Inr (lv_registry lv)" and calc: "lv_calc lv = map_of (price_table (pv_Pricing P))"
    using assms unfolding loaded_def by blast
  note d = load_invD [OF st(1)]
  have "ForModel (lv_registry lv) m \<noteq> None \<longleftrightarrow> (\<exists>cfg \<in> set (ls_Configs st). m \<in> set (pc_Models cfg))"
    using registry_lookup [OF NewRegistry_Inr [OF reg], of m] d(3) st(2) unfolding ForModel_def by (metis not_None_eq)
  also have "\<dots> \<longleftrightarrow> m \<in> fst ` set (pv_Pricing P)" using arg_cong [OF d(4), of set] st(3) by simp
  also have "\<dots> \<longleftrightarrow> lv_calc lv m \<noteq> None" by (simp add: calc price_table_def map_of_map map_of_eq_None_iff)
  finally show "ForModel (lv_registry lv) m \<noteq> None \<longleftrightarrow> lv_calc lv m \<noteq> None" .
  have "price_ok q" if "map_of (pv_Pricing P) m = Some q" for q
    using d(6) map_of_SomeD [OF that] st(3) by (auto simp: list_all_iff)
  then show "lv_calc lv m = Some pr \<Longrightarrow> 0 \<le> InputPer1M pr \<and> 0 \<le> OutputPer1M pr"
    by (auto simp: calc price_table_def map_of_map price_ok_def)
qed

lemma loaded_serves:
  assumes "loaded P lv" "t \<in> set (pv_Tiers P)" "e \<in> set (snd t)"
  shows "\<exists>p. ForModel (lv_registry lv) (te_Model e) = Some p \<and> adapter_Name p = te_Provider e"
proof -
  obtain st raw where st: "load_inv st" "pv_Configs P = ls_Configs st"
    and t: "resolveTiers raw (ls_modelProvider st) (ls_providerEnabled st) = Inr (pv_Tiers P)"
    and reg: "NewRegistry (pv_Configs P) = Inr (lv_registry lv)"
    using assms(1) unfolding loaded_def by blast
  note d = load_invD [OF st(1)]
  from resolveTiers_Inr(1) [OF t assms(2,3)] obtain cfg where
    cfg: "cfg \<in> set (ls_Configs st)" "pc_Name cfg = te_Provider e" "te_Model e \<in> set (pc_Models cfg)"
    using d(10) map_of_SomeD by metis
  moreover obtain p where "newAdapter cfg = Inr p" using d(3) cfg(1) by blast
  ultimately show ?thesis using registry_lookup [OF NewRegistry_Inr [OF reg], of "te_Model e" p] newAdapter_cfg(1) st(2)
    by (auto simp: ForModel_def adapter_Name_def)
qed

lemma loaded_tier_models: "loaded P lv \<Longrightarrow> distinct (map te_Model (concat (map snd (pv_Tiers P))))"
  unfolding loaded_def using resolveTiers_Inr(2) by blast

lemma concat_same_block:
  assumes "distinct (map f (concat (map snd ts)))" "a \<in> set ts" "b \<in> set ts"
    "v \<in> f ` set (snd a)" "v \<in> f ` set (snd b)"
  shows "a = b"
  using assms
proof (induction ts)
  case (Cons t ts)
  have "f ` set (snd t) \<inter> f ` set (concat (map snd ts)) = {}" using Cons.prems(1) by simp
  moreover have "v \<in> f ` set (concat (map snd ts))" if "c \<in> set ts" "v \<in> f ` set (snd c)" for c using that by auto
  ultimately show ?case using Cons by auto
qed simp

lemma find_SomeD:
  assumes "find Q xs = Some x"
  shows "x \<in> set xs" "Q x"
  using assms by (auto simp: find_Some_iff)

lemma distinct_concat_block: "distinct (map f (concat (map snd ts))) \<Longrightarrow> a \<in> set ts \<Longrightarrow> distinct (map f (snd a))"
  by (induction ts) auto

lemma loaded_TierNamed:
  assumes "loaded P (cs_current s)"
  shows "TierNamed s t = (case map_of (pv_Tiers P) t of None \<Rightarrow> [] | Some es \<Rightarrow> tier_candidates es)"
  using assms by (simp add: TierNamed_def loaded_def indexTiers_def map_of_map split: option.splits)


lemma loaded_tier_block:
  assumes "loaded P (cs_current s)" "v \<in> cn_Model ` set (TierNamed s t)"
  shows "\<exists>es. map_of (pv_Tiers P) t = Some es \<and> v \<in> te_Model ` set es"
  using assms(2) by (cases "map_of (pv_Tiers P) t") (auto simp: loaded_TierNamed [OF assms(1)] tier_candidates_def)

lemma loaded_TierFor:
  assumes "loaded P (cs_current s)"
  shows "TierFor s m =
    (case find (\<lambda>t. m \<in> te_Model ` set (snd t)) (pv_Tiers P) of None \<Rightarrow> [] | Some t \<Rightarrow> tier_candidates (snd t))"
proof -
  have "map_of (concat (map (\<lambda>(name, es). map (\<lambda>c. (cn_Model c, tier_candidates es)) (tier_candidates es)) ts)) m =
      map_option (\<lambda>t. tier_candidates (snd t)) (find (\<lambda>t. m \<in> te_Model ` set (snd t)) ts)" for ts
  proof (induction ts)
    case (Cons t ts)
    have "map_of (map (\<lambda>c. (cn_Model c, v)) (tier_candidates es)) m =
        (if m \<in> te_Model ` set es then Some v else None)" for v :: "Candidate list" and es
      by (induction es) (auto simp: tier_candidates_def)
    then show ?case using Cons by (cases t) (simp add: map_add_def)
  qed simp
  note index = this
  have byModel: "lv_tiers (cs_current s) = concat (map (\<lambda>(name, es). map (\<lambda>c. (cn_Model c, tier_candidates es)) (tier_candidates es)) (pv_Tiers P))"
    using assms by (simp add: loaded_def indexTiers_def)
  have "map_of (lv_tiers (cs_current s)) m =
      map_option (\<lambda>t. tier_candidates (snd t)) (find (\<lambda>t. m \<in> te_Model ` set (snd t)) (pv_Tiers P))"
    unfolding byModel by (rule index)
  then show ?thesis by (cases "find (\<lambda>t. m \<in> te_Model ` set (snd t)) (pv_Tiers P)") (simp_all add: TierFor_def)
qed

lemma loaded_tiers_agree:
  assumes l: "loaded P (cs_current s)" and m: "m \<in> cn_Model ` set (TierNamed s t)"
  shows "TierFor s m = TierNamed s t"
proof -
  obtain es where es: "map_of (pv_Tiers P) t = Some es" "m \<in> te_Model ` set es" using loaded_tier_block [OF assms] by blast
  then have in_: "(t, es) \<in> set (pv_Tiers P)" by (blast dest: map_of_SomeD)
  then obtain u where u: "find (\<lambda>t. m \<in> te_Model ` set (snd t)) (pv_Tiers P) = Some u"
    using es(2) by (cases "find (\<lambda>t. m \<in> te_Model ` set (snd t)) (pv_Tiers P)") (auto simp: find_None_iff)
  note u' = find_SomeD [OF u]
  then have "snd u = es"
    using concat_same_block [OF loaded_tier_models [OF l] u'(1) in_ u'(2)] es(2) by simp
  then show ?thesis using u es by (simp add: loaded_TierFor [OF l] loaded_TierNamed [OF l])
qed

lemma loaded_candidate:
  assumes l: "loaded P (cs_current s)" and cand: "cand \<in> set (TierNamed s t) \<union> set (TierFor s m)"
  shows "\<exists>p. store_ForModel s (cn_Model cand) = Some p \<and> adapter_Name p = cn_Provider cand"
proof -
  have "\<exists>u \<in> set (pv_Tiers P). cand \<in> set (tier_candidates (snd u))"
  proof (cases "cand \<in> set (TierNamed s t)")
    case True
    then show ?thesis using map_of_SomeD [of "pv_Tiers P" t]
      by (cases "map_of (pv_Tiers P) t") (force simp: loaded_TierNamed [OF l])+
  next
    case False
    then show ?thesis using cand
      by (cases "find (\<lambda>t. m \<in> te_Model ` set (snd t)) (pv_Tiers P)")
        (auto simp: loaded_TierFor [OF l] dest: find_SomeD)
  qed
  then obtain u e where "u \<in> set (pv_Tiers P)" "e \<in> set (snd u)" "cn_Model cand = te_Model e" "cn_Provider cand = te_Provider e"
    by (auto simp: tier_candidates_def)
  then show ?thesis using loaded_serves [OF l, of u e] by (simp add: store_ForModel_def)
qed

section \<open>Properties of a live configuration\<close>


text \<open>
  C23. In every running configuration the tiers name what is served: each candidate of a tier
  resolves to the provider the tier names for it, so a fallback chain never holds a dead
  link; no model is in two tiers or twice in one; and the index by model gives exactly the
  tier the model is listed in.
\<close>

theorem tiers_resolve:
  assumes "loadLiveConfig u PD env c c' = Inr (lv, n)" and "s = reloads u PD env rs (newConfigStore lv teams)"
  shows "(\<forall>cand \<in> set (TierNamed s t) \<union> set (TierFor s m).
      \<exists>p. store_ForModel s (cn_Model cand) = Some p \<and> adapter_Name p = cn_Provider cand) \<and>
    distinct (map cn_Model (TierNamed s t)) \<and>
    (t \<noteq> t' \<longrightarrow> cn_Model ` set (TierNamed s t) \<inter> cn_Model ` set (TierNamed s t') = {}) \<and>
    (m \<in> cn_Model ` set (TierNamed s t) \<longrightarrow> TierFor s m = TierNamed s t) \<and>
    (TierFor s m \<noteq> [] \<longrightarrow> m \<in> cn_Model ` set (TierFor s m))"
proof -
  obtain P where l: "loaded P (cs_current s)" using running_loaded [OF assms(1)] assms(2) by metis
  note name = loaded_TierNamed [OF l] and byModel = loaded_TierFor [OF l]
  have apart: "cn_Model ` set (TierNamed s t) \<inter> cn_Model ` set (TierNamed s t') = {}" if "t \<noteq> t'"
  proof (rule ccontr)
    assume "cn_Model ` set (TierNamed s t) \<inter> cn_Model ` set (TierNamed s t') \<noteq> {}"
    then obtain v es es' where "(t, es) \<in> set (pv_Tiers P)" "v \<in> te_Model ` set es"
      "(t', es') \<in> set (pv_Tiers P)" "v \<in> te_Model ` set es'"
      using loaded_tier_block [OF l] map_of_SomeD by (metis disjoint_iff)
    then show False using concat_same_block [OF loaded_tier_models [OF l], of "(t, es)" "(t', es')" v] \<open>t \<noteq> t'\<close> by simp
  qed
  have once: "distinct (map cn_Model (TierNamed s t))"
  proof (cases "map_of (pv_Tiers P) t")
    case (Some es)
    then have "distinct (map te_Model es)" using loaded_tier_models [OF l] map_of_SomeD [OF Some]
      by (metis distinct_concat_block snd_conv)
    then show ?thesis using Some by (simp add: name tier_candidates_def o_def)
  qed (simp add: name)
  have own: "m \<in> cn_Model ` set (TierFor s m)" if "TierFor s m \<noteq> []"
  proof (cases "find (\<lambda>t. m \<in> te_Model ` set (snd t)) (pv_Tiers P)")
    case (Some u)
    then show ?thesis using find_SomeD(2) [OF Some] by (simp add: byModel tier_candidates_def image_image)
  qed (use that in \<open>simp add: byModel\<close>)
  show ?thesis
    using apart once own loaded_tiers_agree [OF l, of m t] loaded_candidate [OF l, of _ t m] by simp
qed


definition demo_entry :: "string \<Rightarrow> bool option \<Rightarrow> string list \<Rightarrow> providerEntry" where
  "demo_entry name on models =
     \<lparr>pn_Name = name, pn_Type = ''ollama'', pn_Enabled = on, pn_BaseURL = ''http://x'', pn_APIKeyEnv = [], pn_Timeout = ''30s'',
      pn_DefaultMaxTokens = 512, pn_PingModel = [],
      pn_Models = map (\<lambda>m. \<lparr>me_Name = m, me_InputPer1MU = 3 / 20, me_OutputPer1MU = 3 / 5\<rparr>) models\<rparr>"

definition demo_file :: "string \<Rightarrow> providersFile option" where
  "demo_file raw = Some \<lparr>pf_Providers = [demo_entry ''groq'' None [''llama'', ''mixtral''], demo_entry ''spare'' (Some False) [''big'']],
     pf_Tiers = (if raw = ''v1''
       then [(''smart'', [\<lparr>te_Provider = ''spare'', te_Model = ''big''\<rparr>, \<lparr>te_Provider = ''groq'', te_Model = ''mixtral''\<rparr>]),
             (''fast'', [\<lparr>te_Provider = ''groq'', te_Model = ''llama''\<rparr>])]
       else [])\<rparr>"

definition demo_live :: "string \<Rightarrow> liveConfig" where
  "demo_live raw =
     fst (projr (loadLiveConfig demo_file (\<lambda>_. Some second) (\<lambda>_. []) (Some raw) (Some raw)))"

lemmas demo_eval = loadLiveConfig_def configHash_def LoadProviders_def load_file_def demo_file_def demo_entry_def
  entry_label_def resolve_entry_def known_types_def enabled_def resolveAPIKey_def usdToMicros_def microsPerUSD_def
  math_Round_def shared_model_def resolveTiers_def NewRegistry_def emptyRegistry_def newAdapter_def newBase_def
  validateConfig_def indexTiers_def tier_candidates_def price_table_def less_char_def less_eq_char_def load_next_def

lemma demo_loads: "loadLiveConfig demo_file (\<lambda>_. Some second) (\<lambda>_. []) (Some ''v1'') (Some ''v1'') = Inr (demo_live ''v1'', 1)"
  unfolding demo_live_def by (simp add: demo_eval Let_def)

lemma demo_reloads: "loadLiveConfig demo_file (\<lambda>_. Some second) (\<lambda>_. []) (Some ''v2'') (Some ''v2'') = Inr (demo_live ''v2'', 1)"
  unfolding demo_live_def by (simp add: demo_eval Let_def)

lemma demo_live_eval:
  "TierNamed (newConfigStore (demo_live ''v1'') []) ''smart'' = [\<lparr>cn_Provider = ''groq'', cn_Model = ''mixtral''\<rparr>]"
  "TierNamed (newConfigStore (demo_live ''v1'') []) ''fast'' = [\<lparr>cn_Provider = ''groq'', cn_Model = ''llama''\<rparr>]"
  "TierNamed (newConfigStore (demo_live ''v2'') []) ''fast'' = []"
  "store_ForModel (newConfigStore (demo_live ''v1'') []) m = None \<longleftrightarrow> m \<notin> {''llama'', ''mixtral''}"
  by (simp_all add: TierNamed_def newConfigStore_def store_ForModel_def ForModel_def demo_live_def demo_eval Let_def)


theorem tiers_resolve_witness:
  "(\<exists>p. store_ForModel (newConfigStore (demo_live ''v1'') []) ''mixtral'' = Some p \<and> adapter_Name p = ''groq'') \<and>
   TierFor (newConfigStore (demo_live ''v1'') []) ''llama'' = TierNamed (newConfigStore (demo_live ''v1'') []) ''fast'' \<and>
   cn_Model ` set (TierNamed (newConfigStore (demo_live ''v1'') []) ''smart'') \<inter>
     cn_Model ` set (TierNamed (newConfigStore (demo_live ''v1'') []) ''fast'') = {}"
proof -
  let ?s = "newConfigStore (demo_live ''v1'') []"
  have s: "?s = reloads demo_file (\<lambda>_. Some second) (\<lambda>_. []) [] (newConfigStore (demo_live ''v1'') [])" by simp
  show ?thesis
    using tiers_resolve [OF demo_loads s, of "''smart''" "''llama''" "''fast''"]
      tiers_resolve [OF demo_loads s, of "''fast''" "''llama''" "''smart''"]
    by (simp add: demo_live_eval)
qed

text \<open>
  The routing policy is checked against the configuration the gateway starts with only: a
  reload may remove a tier the policy names and is accepted.
\<close>

lemma reload_skips_routing_policy:
  fixes p :: Policy
  assumes "po_Simple p = ''fast''" "po_Complex p = ''smart''"
  shows "validateRoutingPolicy (newConfigStore (demo_live ''v1'') []) p = None \<and>
    reload demo_file (\<lambda>_. Some second) (\<lambda>_. []) (Some ''v2'') (Some ''v2'') (newConfigStore (demo_live ''v1'') []) =
      (Inr \<lparr>rl_Providers = 1, rl_Teams = 0\<rparr>, newConfigStore (demo_live ''v2'') []) \<and>
    validateRoutingPolicy (newConfigStore (demo_live ''v2'') []) p = Some (TierNotDeclared ''fast'')"
proof (intro conjI)
  show "validateRoutingPolicy (newConfigStore (demo_live ''v1'') []) p = None"
    using assms demo_live_eval(4) by (simp add: validateRoutingPolicy_def demo_live_eval(1,2) AutoModel_def)
  show "validateRoutingPolicy (newConfigStore (demo_live ''v2'') []) p = Some (TierNotDeclared ''fast'')"
    using assms by (simp add: validateRoutingPolicy_def demo_live_eval)
qed (simp add: reload_def demo_reloads newConfigStore_def)

end
