(* ===== verification/Wire.thy ===== *)
theory Wire
  imports Provider Sha256
begin

text \<open>
  The public API: requests and responses in the chat-completions schema with their validation
  and token estimates (\<open>internal/proxy/wire.go\<close>), and the error envelope
  (\<open>internal/proxy/errors.go\<close>). A reply is its status, headers and body as a value; encoding it
  as JSON is left to the standard library, and a JSON value is given where the code decodes one.
\<close>

section \<open>Requests\<close>

datatype json = JNull | JBool bool | JNum rat | JStr runes | JArr "json list" | JObj "(runes \<times> json) list"

record chatMessage =
  cm_Role :: string
  cm_Content :: runes

record chatRequest =
  cr_Model :: string
  cr_Messages :: "chatMessage list"
  cr_Temperature :: "float32 option"
  cr_MaxTokens :: int
  cr_Stream :: bool
  cr_Stop :: "runes list"

text \<open>
  \<open>UnmarshalJSON\<close> of the stop sequences. An element null of an array leaves the empty string,
  as \<open>encoding/json\<close> does for a string.
\<close>

fun stop_element :: "json \<Rightarrow> runes option" where
  "stop_element (JStr s) = Some s"
| "stop_element JNull = Some []"
| "stop_element _ = None"

fun stop_elements :: "json list \<Rightarrow> runes list option" where
  "stop_elements [] = Some []"
| "stop_elements (j # js) =
     (case (stop_element j, stop_elements js) of (Some s, Some ss) \<Rightarrow> Some (s # ss) | _ \<Rightarrow> None)"

fun stopSequences_UnmarshalJSON :: "json \<Rightarrow> runes list option" where
  "stopSequences_UnmarshalJSON JNull = Some []"
| "stopSequences_UnmarshalJSON (JStr s) = Some [s]"
| "stopSequences_UnmarshalJSON (JArr js) = stop_elements js"
| "stopSequences_UnmarshalJSON _ = None"

datatype RequestError =
    ModelRequired | NoMessages | RoleRequired nat | UnknownRole nat string
  | NegativeMaxTokens | BadTemperature float32

fun check_roles :: "nat \<Rightarrow> chatMessage list \<Rightarrow> RequestError option" where
  "check_roles i [] = None"
| "check_roles i (m # ms) =
     (if cm_Role m = RoleSystem \<or> cm_Role m = RoleUser \<or> cm_Role m = RoleAssistant then check_roles (i + 1) ms
      else if cm_Role m = [] then Some (RoleRequired i)
      else Some (UnknownRole i (cm_Role m)))"

definition chatRequest_validate :: "chatRequest \<Rightarrow> RequestError option" where
  "chatRequest_validate r =
     (if cr_Model r = [] then Some ModelRequired
      else if cr_Messages r = [] then Some NoMessages
      else
        (case check_roles 0 (cr_Messages r) of
           Some e \<Rightarrow> Some e
         | None \<Rightarrow>
             (if cr_MaxTokens r < 0 then Some NegativeMaxTokens
              else
                (case cr_Temperature r of
                   None \<Rightarrow> None
                 | Some t \<Rightarrow> if f32_value t < 0 \<or> f32_value t > 2 then Some (BadTemperature t) else None))))"

definition charsPerToken :: int where
  "charsPerToken = 4"

definition perMessageTokenOverhead :: int where
  "perMessageTokenOverhead = 4"

definition estimateInputTokens :: "chatRequest \<Rightarrow> int" where
  "estimateInputTokens r =
     fold (\<lambda>m t. t + tdiv (int (byte_len (cm_Content m)) + charsPerToken - 1) charsPerToken + perMessageTokenOverhead)
       (cr_Messages r) 0"

definition estimateOutputCeiling :: "chatRequest \<Rightarrow> int \<Rightarrow> int" where
  "estimateOutputCeiling r defaultMaxTokens = (if cr_MaxTokens r > 0 then cr_MaxTokens r else defaultMaxTokens)"

text \<open>The sum is Go's 64-bit sum: \<open>max_tokens\<close> has no upper bound on the wire.\<close>

definition estimateTokens :: "chatRequest \<Rightarrow> int \<Rightarrow> int" where
  "estimateTokens r defaultMaxTokens = i64 (estimateInputTokens r + estimateOutputCeiling r defaultMaxTokens)"

definition toProviderRequest :: "chatRequest \<Rightarrow> Request" where
  "toProviderRequest r =
     \<lparr>rq_Model = cr_Model r,
      rq_Messages = map (\<lambda>m. \<lparr>msg_Role = cm_Role m, msg_Content = cm_Content m\<rparr>) (cr_Messages r),
      rq_Temperature = cr_Temperature r, rq_MaxTokens = cr_MaxTokens r, rq_Stream = cr_Stream r, rq_Stop = cr_Stop r\<rparr>"

section \<open>Responses\<close>

record usageDTO =
  ud_PromptTokens :: int
  ud_CompletionTokens :: int
  ud_TotalTokens :: int

record chatChoice =
  ch_Index :: int
  ch_Message :: chatMessage
  ch_FinishReason :: string

record chatResponse =
  cp_ID :: string
  cp_Object :: string
  cp_Created :: int
  cp_Model :: string
  cp_Choices :: "chatChoice list"
  cp_Usage :: usageDTO

definition chatCompletionID :: "string \<Rightarrow> string" where
  "chatCompletionID requestID = ''chatcmpl-'' @ requestID"

definition wireFinishReason :: "FinishReason \<Rightarrow> string" where
  "wireFinishReason r =
     (case r of FinishLength \<Rightarrow> ''length'' | FinishContentFilter \<Rightarrow> ''content_filter'' | _ \<Rightarrow> ''stop'')"

definition toChatResponse :: "string \<Rightarrow> int \<Rightarrow> Response \<Rightarrow> chatResponse" where
  "toChatResponse rid created resp =
     \<lparr>cp_ID = chatCompletionID rid, cp_Object = ''chat.completion'', cp_Created = created, cp_Model = rs_Model resp,
      cp_Choices = [\<lparr>ch_Index = 0, ch_Message = \<lparr>cm_Role = RoleAssistant, cm_Content = rs_Content resp\<rparr>,
                     ch_FinishReason = wireFinishReason (rs_FinishReason resp)\<rparr>],
      cp_Usage = \<lparr>ud_PromptTokens = us_InputTokens (rs_Usage resp), ud_CompletionTokens = us_OutputTokens (rs_Usage resp),
                  ud_TotalTokens = i64 (us_InputTokens (rs_Usage resp) + us_OutputTokens (rs_Usage resp))\<rparr>\<rparr>"

text \<open>In a chunk, an absent role or content is the empty string, which the encoding omits.\<close>

record chatChunkDelta =
  cd_Role :: string
  cd_Content :: runes

record chatChunkChoice =
  ck_Index :: int
  ck_Delta :: chatChunkDelta
  ck_Finish :: "string option"

record chatChunkResponse =
  cc_ID :: string
  cc_Object :: string
  cc_Created :: int
  cc_Model :: string
  cc_Choices :: "chatChunkChoice list"

definition toChatChunk :: "string \<Rightarrow> int \<Rightarrow> string \<Rightarrow> Chunk \<Rightarrow> bool \<Rightarrow> chatChunkResponse" where
  "toChatChunk cid created model chunk includeRole =
     \<lparr>cc_ID = cid, cc_Object = ''chat.completion.chunk'', cc_Created = created, cc_Model = model,
      cc_Choices = [\<lparr>ck_Index = 0,
        ck_Delta = \<lparr>cd_Role = (if includeRole then RoleAssistant else []), cd_Content = ck_Content chunk\<rparr>,
        ck_Finish = (if ck_FinishReason chunk \<noteq> FinishNone then Some (wireFinishReason (ck_FinishReason chunk)) else None)\<rparr>]\<rparr>"

section \<open>Errors\<close>

record attemptDetail =
  ad_Provider :: string
  ad_Model :: string
  ad_Attempts :: int
  ad_Type :: string
  ad_Message :: runes

record errorDetail =
  ed_Message :: runes
  ed_Type :: string
  ed_Code :: string
  ed_Attempts :: "attemptDetail list"

definition statusForKind :: "Kind \<Rightarrow> int" where
  "statusForKind k =
     (case k of
        KindRateLimited \<Rightarrow> 429
      | KindTimeout \<Rightarrow> 504
      | KindInvalidRequest \<Rightarrow> 400
      | KindContentPolicy \<Rightarrow> 400
      | _ \<Rightarrow> 502)"

text \<open>
  \<open>%q\<close> and \<open>strconv.Quote\<close>. Bytes from 128 on are taken to belong to printable UTF-8, which is
  kept as it is.
\<close>

definition quote_char :: "char \<Rightarrow> string" where
  "quote_char c =
     (let n = of_char c :: nat; bs = CHR 0x5C in
      if n = 34 \<or> n = 92 then [bs, c]
      else if n = 7 then bs # ''a'' else if n = 8 then bs # ''b'' else if n = 12 then bs # ''f''
      else if n = 10 then bs # ''n'' else if n = 13 then bs # ''r'' else if n = 9 then bs # ''t''
      else if n = 11 then bs # ''v''
      else if n < 32 \<or> n = 127 then bs # ''x'' @ EncodeToString [n]
      else [c])"

definition quote :: "string \<Rightarrow> string" where
  "quote s = [CHR 0x22] @ concat (map quote_char s) @ [CHR 0x22]"

text \<open>What the client gets: a JSON reply, or a stream of events.\<close>

datatype sse_event = SSEChunk chatChunkResponse | SSEError errorDetail | SSEDone

datatype reply_body = ErrorBody errorDetail | ChatBody chatResponse | StreamBody "sse_event list"

record http_reply =
  rp_Status :: int
  rp_Headers :: "(string \<times> string) list"
  rp_Body :: reply_body

definition writeError :: "int \<Rightarrow> string \<Rightarrow> runes \<Rightarrow> http_reply" where
  "writeError status errType message =
     \<lparr>rp_Status = status, rp_Headers = [(''Content-Type'', ''application/json'')],
      rp_Body = ErrorBody \<lparr>ed_Message = message, ed_Type = errType, ed_Code = [], ed_Attempts = []\<rparr>\<rparr>"

definition upstreamMessage :: "PError \<Rightarrow> runes" where
  "upstreamMessage e = (if pe_Message e = [] then ascii ''the upstream provider returned an error'' else pe_Message e)"

text \<open>
  \<open>Retry-After\<close> in whole seconds, at least one. The code truncates a floating-point number of
  seconds, which is the exact quotient below \<open>2 ^ 22\<close> seconds.
\<close>

definition retry_after_header :: "duration \<Rightarrow> (string \<times> string) list" where
  "retry_after_header d =
     (if d > 0 then
        (let seconds = tdiv d second in [(''Retry-After'', show_int (if seconds < 1 then 1 else seconds))])
      else [])"

definition writeProviderError :: "PError option \<Rightarrow> http_reply" where
  "writeProviderError err =
     (case err of
        None \<Rightarrow> writeError 500 ''internal_error'' (ascii ''the gateway encountered an unexpected error'')
      | Some e \<Rightarrow>
          (let r = writeError (statusForKind (pe_Kind e)) (Kind_name (pe_Kind e)) (upstreamMessage e)
           in r\<lparr>rp_Headers := retry_after_header (pe_RetryAfter e) @ rp_Headers r\<rparr>))"

definition writeSSEError :: "PError option \<Rightarrow> sse_event" where
  "writeSSEError err =
     (case err of
        None \<Rightarrow> SSEError \<lparr>ed_Message = ascii ''the gateway encountered an unexpected error'', ed_Type = ''internal_error'', ed_Code = [],
                         ed_Attempts = []\<rparr>
      | Some e \<Rightarrow> SSEError \<lparr>ed_Message = upstreamMessage e, ed_Type = Kind_name (pe_Kind e), ed_Code = [], ed_Attempts = []\<rparr>)"

definition writeSuccess :: "string \<Rightarrow> int \<Rightarrow> Response \<Rightarrow> http_reply" where
  "writeSuccess requestID created resp =
     \<lparr>rp_Status = 200, rp_Headers = [(''Content-Type'', ''application/json'')],
      rp_Body = ChatBody (toChatResponse requestID created resp)\<rparr>"

section \<open>Facts on requests\<close>

lemma check_roles_ok:
  "check_roles i ms = None \<longleftrightarrow> (\<forall>m \<in> set ms. cm_Role m \<in> {RoleSystem, RoleUser, RoleAssistant})"
  by (induction ms arbitrary: i) auto

lemma validate_ok:
  "chatRequest_validate r = None \<longleftrightarrow>
     cr_Model r \<noteq> [] \<and> cr_Messages r \<noteq> [] \<and>
     (\<forall>m \<in> set (cr_Messages r). cm_Role m \<in> {RoleSystem, RoleUser, RoleAssistant}) \<and>
     0 \<le> cr_MaxTokens r \<and> (\<forall>t. cr_Temperature r = Some t \<longrightarrow> 0 \<le> f32_value t \<and> f32_value t \<le> 2)"
  using check_roles_ok [of 0 "cr_Messages r"] by (auto simp: chatRequest_validate_def split: option.splits)

definition message_tokens :: "chatMessage \<Rightarrow> int" where
  "message_tokens m = (int (byte_len (cm_Content m)) + 3) div 4 + 4"

lemma estimateInputTokens_sum: "estimateInputTokens r = sum_list (map message_tokens (cr_Messages r))"
proof -
  have "fold (\<lambda>m t. t + tdiv (int (byte_len (cm_Content m)) + charsPerToken - 1) charsPerToken + perMessageTokenOverhead) ms t =
      t + sum_list (map message_tokens ms)" for ms t
    by (induction ms arbitrary: t)
      (simp_all add: message_tokens_def charsPerToken_def perMessageTokenOverhead_def tdiv_def)
  then show ?thesis by (simp add: estimateInputTokens_def)
qed

lemma estimateInputTokens_bounds:
  "4 * int (length (cr_Messages r)) \<le> estimateInputTokens r"
  "sum_list (map (\<lambda>m. int (byte_len (cm_Content m))) (cr_Messages r)) \<le> 4 * estimateInputTokens r"
proof -
  have "0 \<le> (n + 3) div 4 \<and> n \<le> 4 * ((n + 3) div 4) + 16" if "0 \<le> n" for n :: int using that by presburger
  then have m: "4 \<le> message_tokens m" "int (byte_len (cm_Content m)) \<le> 4 * message_tokens m" for m
    by (simp_all add: message_tokens_def)
  have "4 * int (length ms) \<le> sum_list (map message_tokens ms)" for ms
  proof (induction ms)
    case (Cons a ms)
    then show ?case using m(1) [of a] by simp
  qed simp
  moreover have "sum_list (map (\<lambda>m. int (byte_len (cm_Content m))) ms) \<le> 4 * sum_list (map message_tokens ms)" for ms
  proof (induction ms)
    case (Cons a ms)
    then show ?case using m(2) [of a] by simp
  qed simp
  ultimately show "4 * int (length (cr_Messages r)) \<le> estimateInputTokens r"
    "sum_list (map (\<lambda>m. int (byte_len (cm_Content m))) (cr_Messages r)) \<le> 4 * estimateInputTokens r"
    unfolding estimateInputTokens_sum by blast+
qed

end
