(* ===== verification/Chain.thy ===== *)
theory Chain
  imports Config Wire
begin

text \<open>
  The walk over a fallback chain (\<open>internal/proxy/fallback.go\<close>), the re-check of the budget it
  makes (\<open>internal/proxy/budget.go\<close>) and cost-aware routing (\<open>internal/proxy/route.go\<close>). What a
  call to a provider does is a parameter that may change everything a request shares with
  others. Logs and metrics are not modelled; the spans of the calls are, as the record of what
  was sent upstream.
\<close>

section \<open>The gateway and what its requests share\<close>

text \<open>
  The state requests share: the clock, the Redis server with the fates of the calls to it, the
  breakers, health, whether the caller's context has ended, whether a provider call panicked,
  and everything else, \<open>'e\<close>. A call that panics sets the flag and returns an error that is not
  retried, so that nothing runs between the panic and the place that looks at the flag.
\<close>

record ('r, 'e) core =
  co_clock :: civil
  co_redis :: 'r
  co_fates :: "rpc list"
  co_breakers :: "BreakerRegistry option"
  co_monitor :: "Monitor option"
  co_recorder :: Recorder
  co_ended :: bool
  co_panicked :: bool
  co_env :: 'e

record 'r gateway =
  gw_store :: configStore
  gw_redis :: "'r redis_api"
  gw_newStore :: "('r \<times> rpc list) newStore"
  gw_retry :: RetryConfig
  gw_routing :: "Router option"
  gw_lower :: "rune \<Rightarrow> rune"

definition now_of :: "('r, 'e) core \<Rightarrow> instant" where
  "now_of c = abs_nanos (co_clock c)"

text \<open>A call to the server, with the fate that is next.\<close>

definition at_server :: "('r \<times> rpc list \<Rightarrow> 'a \<times> 'r \<times> rpc list) \<Rightarrow> ('r, 'e) core \<Rightarrow> 'a \<times> ('r, 'e) core" where
  "at_server f c = (case f (co_redis c, co_fates c) of (x, r, ds) \<Rightarrow> (x, c\<lparr>co_redis := r, co_fates := ds\<rparr>))"

section \<open>Money in replies\<close>

definition budgetWarnThreshold :: rat where
  "budgetWarnThreshold = 8 / 10"

definition utilization :: "int \<Rightarrow> int \<Rightarrow> rat" where
  "utilization spentMicros capMicros = (if capMicros \<le> 0 then 0 else of_int spentMicros / of_int capMicros)"

definition formatUSD :: "int \<Rightarrow> string" where
  "formatUSD micros = ''$'' @ fmt_fixed 2 (of_int micros / 1000000)"

definition writeBudgetExceededError :: "string \<Rightarrow> int \<Rightarrow> int \<Rightarrow> http_reply" where
  "writeBudgetExceededError team spentMicros capMicros =
     writeError 402 ''budget_exceeded'' (ascii (''team '' @ quote team @ '' has spent '' @ formatUSD spentMicros @
       '' of its '' @ formatUSD capMicros @ '' monthly budget; this request was not made''))"

definition writeBudgetUnavailableError :: http_reply where
  "writeBudgetUnavailableError = writeError 503 ''budget_check_unavailable''
     (ascii ''the gateway could not verify this team's budget and is failing closed; try again shortly'')"

definition CallError_Error :: "CallError \<Rightarrow> runes" where
  "CallError_Error e =
     (case e of
        ProviderErr pe \<Rightarrow> Error_String pe
      | BreakerOpenErr \<Rightarrow> ascii ''circuit breaker is open for this provider and model''
      | BudgetDeniedErr team model spent cap \<Rightarrow>
          ascii (''team '' @ team @ '' cannot afford model '' @ model @ '': '' @ formatUSD spent @ '' spent of '' @
            formatUSD cap @ '' cap'')
      | OtherErr s \<Rightarrow> ascii s)"

section \<open>The budget of a chain\<close>

record chainBudget =
  cb_team :: Team
  cb_req :: chatRequest
  cb_baseMicros :: int
  cb_extra :: "BudgetReservation list"

definition estimateFor :: "'r gateway \<Rightarrow> chainBudget \<Rightarrow> string \<Rightarrow> int option" where
  "estimateFor g cb model =
     (case store_DefaultMaxTokensFor (gw_store g) model of
        None \<Rightarrow> None
      | Some defaultMaxTokens \<Rightarrow>
          (case store_Cost (gw_store g) model (estimateInputTokens (cb_req cb))
              (estimateOutputCeiling (cb_req cb) defaultMaxTokens) of
             Inl _ \<Rightarrow> None
           | Inr micros \<Rightarrow> Some micros))"

definition budget_reserve :: "'r gateway \<Rightarrow> Team \<Rightarrow> int \<Rightarrow> ('r, 'e) core \<Rightarrow>
    (BudgetReservation option \<times> (BudgetError + BudgetResult)) \<times> ('r, 'e) core" where
  "budget_reserve g team amount c =
     at_server (on_server (\<lambda>d r. case BudgetReserve (gw_redis g) d (co_clock c) (tm_ID team) (tm_MonthlyBudgetMicros team) amount r of
        (rsv, res, r') \<Rightarrow> ((rsv, res), r'))) c"

definition admit :: "'r gateway \<Rightarrow> string \<Rightarrow> chainBudget option \<Rightarrow> ('r, 'e) core \<Rightarrow>
    (int \<times> CallError option) \<times> chainBudget option \<times> ('r, 'e) core" where
  "admit g model budget c =
     (case budget of
        None \<Rightarrow> ((0, None), None, c)
      | Some cb \<Rightarrow>
          (if model = cr_Model (cb_req cb) then ((0, None), budget, c)
           else
             (case estimateFor g cb model of
                None \<Rightarrow> ((0, Some (OtherErr (''pricing fallback candidate '' @ quote model))), budget, c)
              | Some est \<Rightarrow>
                  (let delta = i64 (est - cb_baseMicros cb) in
                   if delta \<le> 0 then ((delta, None), budget, c)
                   else
                     (case budget_reserve g (cb_team cb) delta c of
                        ((rsv, Inl _), c') \<Rightarrow>
                          ((delta, Some (OtherErr (''re-checking budget for fallback candidate '' @ quote model))), budget, c')
                      | ((rsv, Inr res), c') \<Rightarrow>
                          (if \<not> bud_Allowed res
                           then ((delta, Some (BudgetDeniedErr (tm_ID (cb_team cb)) model (bud_SpentMicros res)
                                   (tm_MonthlyBudgetMicros (cb_team cb)))), budget, c')
                           else ((delta, None),
                                 Some (cb\<lparr>cb_extra := cb_extra cb @ (case rsv of None \<Rightarrow> [] | Some v \<Rightarrow> [v])\<rparr>), c')))))))"

definition budget_reconcile :: "'r gateway \<Rightarrow> BudgetReservation option \<Rightarrow> int \<Rightarrow> ('r, 'e) core \<Rightarrow> ('r, 'e) core" where
  "budget_reconcile g rsv actual c =
     snd (at_server (on_server (\<lambda>d. BudgetReconcile (gw_redis g) d rsv actual)) c)"

definition reconcileExtras :: "'r gateway \<Rightarrow> chainBudget \<Rightarrow> ('r, 'e) core \<Rightarrow> ('r, 'e) core" where
  "reconcileExtras g cb c = fold (\<lambda>v. budget_reconcile g (Some v) 0) (cb_extra cb) c"

section \<open>Building a chain\<close>

definition buildChain :: "Team option \<Rightarrow> ('r, 'e) core \<Rightarrow> Candidate \<Rightarrow> Candidate list \<Rightarrow> Candidate list" where
  "buildChain team c requested tier =
     BuildChain
       \<lparr>ci_Requested = requested, ci_Tier = tier,
        ci_StatusOf = map_option Monitor_Status (co_monitor c),
        ci_Allowed = map_option (\<lambda>t provider model. AllowsProvider t provider \<and> AllowsModel t model) team\<rparr>"

definition chainFor :: "'r gateway \<Rightarrow> Team option \<Rightarrow> ('r, 'e) core \<Rightarrow> Candidate \<Rightarrow> Candidate list" where
  "chainFor g team c requested = buildChain team c requested (TierFor (gw_store g) (cn_Model requested))"

section \<open>Breakers\<close>

definition cand_labels :: "Candidate \<Rightarrow> Labels" where
  "cand_labels cand = \<lparr>lb_Provider = cn_Provider cand, lb_Model = cn_Model cand\<rparr>"

definition breakerFor :: "Candidate \<Rightarrow> ('r, 'e) core \<Rightarrow> Breaker option \<times> ('r, 'e) core" where
  "breakerFor cand c =
     (case co_breakers c of
        None \<Rightarrow> (None, c)
      | Some reg \<Rightarrow> (case For (cand_labels cand) reg of (b, reg') \<Rightarrow> (b, c\<lparr>co_breakers := Some reg'\<rparr>)))"

text \<open>
  A method of the candidate's breaker, with what it returns; without a breaker nothing happens
  and the result is None.
\<close>

definition on_breaker ::
  "'r gateway \<Rightarrow> Candidate \<Rightarrow>
   (BreakerConfig \<Rightarrow> ('r \<times> rpc list) BreakerStore option \<Rightarrow> Breaker \<times> 'r \<times> rpc list \<Rightarrow> 'a \<times> Breaker \<times> 'r \<times> rpc list) \<Rightarrow>
   ('r, 'e) core \<Rightarrow> 'a option \<times> ('r, 'e) core" where
  "on_breaker g cand f c =
     (case breakerFor cand c of
        (None, c1) \<Rightarrow> (None, c1)
      | (Some b, c1) \<Rightarrow>
          (case co_breakers c1 of
             None \<Rightarrow> (None, c1)
           | Some reg \<Rightarrow>
               (case f (br_cfg reg) (store_for (gw_newStore g) (cand_labels cand)) (b, co_redis c1, co_fates c1) of
                  (x, b', r, ds) \<Rightarrow>
                    (Some x, c1\<lparr>co_breakers := Some (put_breaker (cand_labels cand) b' reg), co_redis := r, co_fates := ds\<rparr>))))"

definition breaker_check :: "'r gateway \<Rightarrow> Candidate \<Rightarrow> ('r, 'e) core \<Rightarrow> bool option \<times> ('r, 'e) core" where
  "breaker_check g cand c = on_breaker g cand (\<lambda>cfg store. Allow cfg store (now_of c)) c"

definition breaker_report :: "'r gateway \<Rightarrow> Candidate \<Rightarrow> bool \<Rightarrow> ('r, 'e) core \<Rightarrow> ('r, 'e) core" where
  "breaker_report g cand ok c =
     snd (on_breaker g cand (\<lambda>cfg store bw. ((), if ok then RecordSuccess cfg store (now_of c) bw
                                              else RecordFailure cfg store (now_of c) bw)) c)"

section \<open>The walk\<close>

record chainFailure =
  cf_candidate :: Candidate
  cf_attempts :: int
  cf_err :: CallError

definition lastChainError :: "chainFailure list \<Rightarrow> CallError" where
  "lastChainError failures =
     (if failures = [] then OtherErr ''fallback chain was empty'' else cf_err (last failures))"

definition lastAttempted :: "chainFailure list \<Rightarrow> Candidate" where
  "lastAttempted failures =
     (if failures = [] then \<lparr>cn_Provider = [], cn_Model = []\<rparr> else cf_candidate (last failures))"

definition totalAttempts :: "chainFailure list \<Rightarrow> int" where
  "totalAttempts failures = sum_list (map cf_attempts failures)"

definition failureKind :: "CallError \<Rightarrow> string" where
  "failureKind err =
     (if err = BreakerOpenErr then ''circuit_breaker_open''
      else case asProviderError err of Some e \<Rightarrow> Kind_name (pe_Kind e) | None \<Rightarrow> ''unknown'')"

text \<open>
  What is logged when a request moves on: the candidate it leaves and why. The code indexes
  the last failure, so None is a panic.
\<close>

definition logFallback :: "chainFailure list \<Rightarrow> (Candidate \<times> string) option" where
  "logFallback failures =
     (if failures = [] then None
      else Some (cf_candidate (last failures), failureKind (cf_err (last failures))))"

text \<open>
  The world outside: a call of a provider for a candidate, a sleep that reports whether the
  caller's context ended, and a random draw.
\<close>

record ('a, 'r, 'e) outside =
  os_call :: "Adapter \<Rightarrow> Candidate \<Rightarrow> ('r, 'e) core \<Rightarrow> ('a option \<times> CallError option) \<times> ('r, 'e) core"
  os_sleep :: "duration \<Rightarrow> ('r, 'e) core \<Rightarrow> bool \<times> ('r, 'e) core"
  os_rand :: "int \<Rightarrow> ('r, 'e) core \<Rightarrow> int \<times> ('r, 'e) core"

text \<open>The span of one provider call.\<close>

record call_span =
  sp_Candidate :: Candidate
  sp_attempt :: int
  sp_fallback :: bool

type_synonym ('r, 'e) walk_state = "('r, 'e) core \<times> call_span list"

definition attempt_env ::
  "('a, 'r, 'e) outside \<Rightarrow> Adapter \<Rightarrow> Candidate \<Rightarrow> bool \<Rightarrow> ('a, ('r, 'e) walk_state) retry_env" where
  "attempt_env os prov cand isFallback =
     \<lparr>re_attempt = (\<lambda>n (c, sps).
        case os_call os prov cand c of
          (res, c') \<Rightarrow> (res, c', sps @ [\<lparr>sp_Candidate = cand, sp_attempt = n, sp_fallback = isFallback\<rparr>])),
      re_sleep = (\<lambda>d (c, sps). case os_sleep os d c of (over, c') \<Rightarrow> (over, c', sps)),
      re_rand = (\<lambda>u (c, sps). case os_rand os u c of (x, c') \<Rightarrow> (x, c', sps))\<rparr>"

text \<open>What became of one candidate: left out, called, or the gateway panicked.\<close>

datatype 'a tried = Skipped CallError | Panicked | Called "'a option" "CallError option" int

definition try_candidate ::
  "'r gateway \<Rightarrow> ('a, 'r, 'e) outside \<Rightarrow> nat \<Rightarrow> int \<Rightarrow> chainFailure list \<Rightarrow> Candidate \<Rightarrow> chainBudget option \<Rightarrow>
   ('r, 'e) walk_state \<Rightarrow> 'a tried \<times> chainBudget option \<times> ('r, 'e) walk_state" where
  "try_candidate g os i remaining failures cand cb w =
     (case w of (c, sps) \<Rightarrow>
      (case breaker_check g cand c of
         (Some False, c1) \<Rightarrow> (Skipped BreakerOpenErr, cb, c1, sps)
       | (allowed, c1) \<Rightarrow>
           (case admit g (cn_Model cand) cb c1 of
              ((delta, Some budgetErr), cb', c2) \<Rightarrow> (Skipped budgetErr, cb', c2, sps)
            | ((delta, None), cb', c2) \<Rightarrow>
                (if i > 0 \<and> logFallback failures = None then (Panicked, cb', c2, sps)
                 else
                   (case store_ForModel (gw_store g) (cn_Model cand) of
                      None \<Rightarrow>
                        (Skipped (OtherErr (''resolving model '' @ quote (cn_Model cand) @ '': no provider serves this model'')),
                         cb', c2, sps)
                    | Some prov \<Rightarrow>
                        (let cfg = (if remaining < MaxAttempts (gw_retry g) then (gw_retry g)\<lparr>MaxAttempts := remaining\<rparr>
                                    else gw_retry g) in
                         case Do cfg (attempt_env os prov cand (i > 0)) (c2, sps) of
                           ((value, attemptErr, attempts), c3, sps') \<Rightarrow>
                             (if co_panicked c3 then (Panicked, cb', c3, sps')
                              else
                                (let c4 = (if allowed \<noteq> None then breaker_report g cand (attemptErr = None) c3 else c3)
                                 in (Called value attemptErr attempts, cb', c4, sps')))))))))"

datatype 'a chain_result =
    ChainServed "'a option" Candidate "chainFailure list"
  | ChainFailed "chainFailure list" CallError
  | ChainPanic

fun walk ::
  "'r gateway \<Rightarrow> ('a, 'r, 'e) outside \<Rightarrow> nat \<Rightarrow> Candidate list \<Rightarrow> int \<Rightarrow> chainFailure list \<Rightarrow> chainBudget option \<Rightarrow>
   ('r, 'e) walk_state \<Rightarrow> 'a chain_result \<times> chainBudget option \<times> ('r, 'e) walk_state" where
  "walk g os i [] spent failures cb w = (ChainFailed failures (lastChainError failures), cb, w)"
| "walk g os i (cand # rest) spent failures cb w =
     (let remaining = MaxTotalAttempts (gw_retry g) - spent in
      if remaining \<le> 0 \<or> i > 0 \<and> co_ended (fst w) then (ChainFailed failures (lastChainError failures), cb, w)
      else
        (case try_candidate g os i remaining failures cand cb w of
           (Panicked, cb', w') \<Rightarrow> (ChainPanic, cb', w')
         | (Skipped e, cb', w') \<Rightarrow>
             walk g os (i + 1) rest spent (failures @ [\<lparr>cf_candidate = cand, cf_attempts = 0, cf_err = e\<rparr>]) cb' w'
         | (Called value None attempts, cb', w') \<Rightarrow> (ChainServed value cand failures, cb', w')
         | (Called value (Some e) attempts, cb', w') \<Rightarrow>
             (let failures' = failures @ [\<lparr>cf_candidate = cand, cf_attempts = attempts, cf_err = e\<rparr>] in
              if \<not> ShouldFallback e then (ChainFailed failures' (lastChainError failures'), cb', w')
              else walk g os (i + 1) rest (spent + attempts) failures' cb' w')))"

definition runChain ::
  "'r gateway \<Rightarrow> ('a, 'r, 'e) outside \<Rightarrow> Candidate list \<Rightarrow> chainBudget option \<Rightarrow> ('r, 'e) walk_state \<Rightarrow>
   'a chain_result \<times> chainBudget option \<times> ('r, 'e) walk_state" where
  "runChain g os chain cb w = walk g os 0 chain 0 [] cb w"

section \<open>The reply to a failed chain\<close>

definition attempt_detail :: "chainFailure \<Rightarrow> attemptDetail" where
  "attempt_detail f =
     (let detail = \<lparr>ad_Provider = cn_Provider (cf_candidate f), ad_Model = cn_Model (cf_candidate f),
            ad_Attempts = cf_attempts f, ad_Type = ''unknown'', ad_Message = CallError_Error (cf_err f)\<rparr> in
      if cf_err f = BreakerOpenErr then detail\<lparr>ad_Type := ''circuit_breaker_open''\<rparr>
      else
        (case asProviderError (cf_err f) of
           None \<Rightarrow> detail
         | Some e \<Rightarrow> detail\<lparr>ad_Type := Kind_name (pe_Kind e),
                           ad_Message := (if pe_Message e \<noteq> [] then pe_Message e else ad_Message detail)\<rparr>))"

definition writeChainExhaustedError :: "string \<Rightarrow> chainFailure list \<Rightarrow> http_reply" where
  "writeChainExhaustedError requestedModel failures =
     \<lparr>rp_Status = 503, rp_Headers = [(''Content-Type'', ''application/json'')],
      rp_Body = ErrorBody
        \<lparr>ed_Message = ascii (''every provider able to serve model '' @ quote requestedModel @ '' failed; '' @
            show_nat (length failures) @ '' were tried''),
         ed_Type = ''chain_exhausted'', ed_Code = [], ed_Attempts = map attempt_detail failures\<rparr>\<rparr>"

definition writeChainError :: "string \<Rightarrow> chainFailure list \<Rightarrow> CallError \<Rightarrow> http_reply" where
  "writeChainError requestedModel failures err =
     (case err of
        BudgetDeniedErr team model spent cap \<Rightarrow> writeBudgetExceededError team spent cap
      | _ \<Rightarrow>
          (if length failures > 1 \<and> ShouldFallback err then writeChainExhaustedError requestedModel failures
           else if err = BreakerOpenErr
           then writeError 503 ''circuit_breaker_open''
                  (ascii (''the circuit breaker for model '' @ quote requestedModel @
                     '' is open after repeated upstream failures; no request was sent''))
           else writeProviderError (asProviderError err)))"

section \<open>Routing\<close>

datatype RouteError = TierUnknown string | TierEmpty string

text \<open>The first candidate whose breaker is not open, if there is one.\<close>

fun first_not_open :: "Candidate list \<Rightarrow> ('r, 'e) core \<Rightarrow> Candidate option \<times> ('r, 'e) core" where
  "first_not_open [] c = (None, c)"
| "first_not_open (cand # rest) c =
     (case breakerFor cand c of
        (b, c1) \<Rightarrow>
          (if (case b of None \<Rightarrow> False | Some b \<Rightarrow> bk_state b = StateOpen) then first_not_open rest c1
           else (Some cand, c1)))"

definition selectCandidate ::
  "'r gateway \<Rightarrow> Team option \<Rightarrow> string \<Rightarrow> ('r, 'e) core \<Rightarrow> (RouteError + Candidate) \<times> ('r, 'e) core" where
  "selectCandidate g team tier c =
     (let candidates = TierNamed (gw_store g) tier in
      if candidates = [] then (Inl (TierUnknown tier), c)
      else
        (case buildChain team c \<lparr>cn_Provider = [], cn_Model = []\<rparr> candidates of
           [] \<Rightarrow> (Inl (TierEmpty tier), c)
         | head # rest \<Rightarrow>
             (case first_not_open (head # rest) c of
                (Some cand, c') \<Rightarrow> (Inr cand, c')
              | (None, c') \<Rightarrow> (Inr head, c'))))"

definition topTierModel :: "'r gateway \<Rightarrow> string" where
  "topTierModel g =
     (case gw_routing g of
        None \<Rightarrow> []
      | Some r \<Rightarrow>
          (case TierNamed (gw_store g) (po_Complex (ro_policy r)) of [] \<Rightarrow> [] | t # _ \<Rightarrow> cn_Model t))"

definition teamID :: "Team option \<Rightarrow> string" where
  "teamID team = (case team of Some t \<Rightarrow> tm_ID t | None \<Rightarrow> ''unknown'')"

text \<open>What routing leaves on the request's metrics.\<close>

record routeNote =
  rn_routedModel :: string
  rn_routedTier :: string
  rn_routeReason :: string
  rn_routeBaselineModel :: string

text \<open>Only a tier that was inferred may escalate.\<close>

definition route_select ::
  "'r gateway \<Rightarrow> Team option \<Rightarrow> Router \<Rightarrow> Plan \<Rightarrow> ('r, 'e) core \<Rightarrow> (RouteError + Candidate) \<times> Plan \<times> ('r, 'e) core" where
  "route_select g team ro plan c =
     (case selectCandidate g team (pl_Tier plan) c of
        (Inr cand, c1) \<Rightarrow> (Inr cand, plan, c1)
      | (Inl e, c1) \<Rightarrow>
          (if pl_Pinned plan then (Inl e, plan, c1)
           else
             (case Escalate (ro_policy ro) (pl_Tier plan) of
                None \<Rightarrow> (Inl e, plan, c1)
              | Some up \<Rightarrow>
                  (case selectCandidate g team up c1 of
                     (Inl _, c2) \<Rightarrow> (Inl e, plan, c2)
                   | (Inr upCand, c2) \<Rightarrow>
                       (Inr upCand, plan\<lparr>pl_Reason := pl_Reason plan @ '' escalated='' @ up, pl_Tier := up\<rparr>, c2)))))"

definition route ::
  "'r gateway \<Rightarrow> Team option \<Rightarrow> chatRequest \<Rightarrow> ('r, 'e) core \<Rightarrow>
   (http_reply + chatRequest \<times> routeNote option) \<times> ('r, 'e) core" where
  "route g team req c =
     (case gw_routing g of
        None \<Rightarrow> (Inr (req, None), c)
      | Some ro \<Rightarrow>
          (if \<not> Routes ro (cr_Model req) then (Inr (req, None), c)
           else
             (case Router_Plan (gw_lower g) ro (cr_Model req) (toProviderRequest req) of
                None \<Rightarrow> (Inr (req, None), c)
              | Some plan \<Rightarrow>
                  (let (sel, plan', c') = route_select g team ro plan c
                   in case sel of
                        Inl (TierUnknown _) \<Rightarrow>
                          (Inl (writeError 500 ''internal_error'' (ascii ''the gateway could not resolve a routing tier'')), c')
                      | Inl (TierEmpty _) \<Rightarrow>
                          (Inl (writeError 403 ''model_not_allowed''
                             (ascii (''team '' @ quote (teamID team) @ '' is not permitted to use any model in tier '' @
                                quote (pl_Tier plan')))), c')
                      | Inr cand \<Rightarrow>
                          (Inr (req\<lparr>cr_Model := cn_Model cand\<rparr>,
                                Some \<lparr>rn_routedModel = cn_Model cand, rn_routedTier = pl_Tier plan',
                                      rn_routeReason = pl_Reason plan', rn_routeBaselineModel = topTierModel g\<rparr>), c')))))"

section \<open>Facts on the walk\<close>

text \<open>The spans of \<open>k\<close> attempts at one candidate.\<close>

definition spans_of :: "Candidate \<Rightarrow> bool \<Rightarrow> int \<Rightarrow> call_span list" where
  "spans_of cand fallback k = map (\<lambda>n. \<lparr>sp_Candidate = cand, sp_attempt = n, sp_fallback = fallback\<rparr>) [1..k]"

lemma length_spans_of: "0 \<le> k \<Longrightarrow> int (length (spans_of cand fb k)) = k"
  by (simp add: spans_of_def)

lemma spans_of_next: "1 \<le> n \<Longrightarrow>
    spans_of cand fb n = spans_of cand fb (n - 1) @ [\<lparr>sp_Candidate = cand, sp_attempt = n, sp_fallback = fb\<rparr>]"
  using upto_rec2 [of 1 n] by (simp add: spans_of_def)

lemma Do_spans:
  assumes "1 \<le> MaxAttempts cfg" "Do cfg (attempt_env os prov cand fb) (c, sps) = ((v, e, k), c', sps')"
  shows "sps' = sps @ spans_of cand fb k" "1 \<le> k" "k \<le> MaxAttempts cfg"
proof -
  let ?env = "attempt_env os prov cand fb"
  let ?Q = "\<lambda>((v, e, k), c, s). s = sps @ spans_of cand fb k"
  have at: "snd w1 = snd w @ [\<lparr>sp_Candidate = cand, sp_attempt = n, sp_fallback = fb\<rparr>]"
    if "re_attempt ?env n w = (r, w1)" for n w r w1
    using that by (auto simp: attempt_env_def split_beta)
  have pause: "snd w3 = snd w1"
    if "backoffDelay (re_rand ?env) b n pe w1 = (d, w2)" "re_sleep ?env d w2 = (ov, w3)" for b n pe w1 d w2 ov w3
    using rand_inv [where P = "\<lambda>w'. snd w' = snd w1" and rnd = "re_rand ?env", of w1 b n pe] that
    by (auto simp: attempt_env_def split_beta)
  have "?Q (do_from cfg ?env 1 (None, None, 0) (c, sps))"
  proof (rule do_from_rule [where I = "\<lambda>n w. 1 \<le> n \<and> snd w = sps @ spans_of cand fb (n - 1)", OF assms(1)])
    show "1 \<le> n + 1 \<and> snd w3 = sps @ spans_of cand fb (n + 1 - 1)"
      if "1 \<le> n \<and> snd w = sps @ spans_of cand fb (n - 1)" "re_attempt ?env n w = ((r, e), w1)"
        "backoffDelay (re_rand ?env) (BaseDelay cfg) n pe w1 = (d, w2)" "re_sleep ?env d w2 = (False, w3)"
      for n w r e w1 pe d w2 w3
      using at [OF that(2)] pause [OF that(3,4)] that(1) spans_of_next [of n] by simp
    show "?Q ((r, e, n), w1)"
      if "1 \<le> n \<and> snd w = sps @ spans_of cand fb (n - 1)" "re_attempt ?env n w = ((r, e), w1)" for n w r e w1
      using at [OF that(2)] that(1) spans_of_next [of n] by (simp add: split_beta)
    show "?Q ((r, e, n), w3)"
      if "1 \<le> n \<and> snd w = sps @ spans_of cand fb (n - 1)" "re_attempt ?env n w = ((r, e), w1)"
        "backoffDelay (re_rand ?env) (BaseDelay cfg) n pe w1 = (d, w2)" "re_sleep ?env d w2 = (True, w3)"
      for n w r e w1 pe d w2 w3
      using at [OF that(2)] pause [OF that(3,4)] that(1) spans_of_next [of n] by (simp add: split_beta)
  qed (simp add: spans_of_def)
  then show "sps' = sps @ spans_of cand fb k" using assms(2) by (simp add: Do_def)
  show "1 \<le> k" "k \<le> MaxAttempts cfg" using Do_attempts [OF assms] by simp_all
qed

text \<open>What trying a candidate adds to the spans.\<close>

lemma try_candidate_spans:
  assumes "1 \<le> MaxAttempts (gw_retry g)" "0 < remaining"
    and "try_candidate g os i remaining fs cand cb (c, sps) = (t, cb', c', sps')"
  shows "(case t of
      Skipped e \<Rightarrow> sps' = sps
    | Panicked \<Rightarrow> (0 < i \<and> fs = [] \<or> co_panicked c') \<and>
        (\<exists>k. sps' = sps @ spans_of cand (0 < i) k \<and> 0 \<le> k \<and> k \<le> remaining \<and> k \<le> MaxAttempts (gw_retry g))
    | Called v e k \<Rightarrow> sps' = sps @ spans_of cand (0 < i) k \<and> 1 \<le> k \<and> k \<le> remaining \<and> k \<le> MaxAttempts (gw_retry g))"
proof -
  let ?cfg = "if remaining < MaxAttempts (gw_retry g) then (gw_retry g)\<lparr>MaxAttempts := remaining\<rparr> else gw_retry g"
  have cfg: "1 \<le> MaxAttempts ?cfg" using assms(1,2) by simp
  have none: "\<exists>k. sps = sps @ spans_of cand (0 < i) k \<and> 0 \<le> k \<and> k \<le> remaining \<and> k \<le> MaxAttempts (gw_retry g)"
    using assms(1,2) by (intro exI [of _ 0]) (simp add: spans_of_def)
  have called: "sps' = sps @ spans_of cand (0 < i) k" "1 \<le> k" "k \<le> remaining" "k \<le> MaxAttempts (gw_retry g)"
    if "Do ?cfg (attempt_env os prov cand (0 < i)) (c2, sps) = ((v, e, k), c3, sps')" for prov c2 v e k c3 sps'
    using Do_spans [OF cfg that] by (auto split: if_splits)
  show ?thesis
  proof (cases t)
    case Panicked
    then consider "0 < i" "fs = []" "sps' = sps"
      | prov c2 v e k where "Do ?cfg (attempt_env os prov cand (0 < i)) (c2, sps) = ((v, e, k), c', sps')" "co_panicked c'"
      using assms(3) unfolding try_candidate_def
      by (auto simp: Let_def logFallback_def split: prod.splits option.splits bool.splits if_splits)
    then show ?thesis
    proof cases
      case (2 prov c2 v e k)
      have "0 \<le> k" using called(2) [OF 2(1)] by simp
      then show ?thesis using Panicked 2(2) called [OF 2(1)] by auto
    qed (use Panicked none in auto)
  next
    case (Called v e k)
    then obtain prov c2 c3 where "Do ?cfg (attempt_env os prov cand (0 < i)) (c2, sps) = ((v, e, k), c3, sps')"
      using assms(3) unfolding try_candidate_def by (auto simp: Let_def split: prod.splits option.splits bool.splits if_splits)
    from called [OF this] show ?thesis using Called by simp
  qed (use assms(3) in \<open>auto simp: try_candidate_def Let_def split: prod.splits option.splits bool.splits if_splits\<close>)
qed

text \<open>
  The spans of a walk that gave the candidates of \<open>chain\<close>, from the first on, the numbers of
  attempts \<open>ks\<close>; only the head of the whole chain is not a fallback.
\<close>

fun walk_spans :: "nat \<Rightarrow> Candidate list \<Rightarrow> int list \<Rightarrow> call_span list" where
  "walk_spans i (c # cs) (k # ks) = spans_of c (0 < i) k @ walk_spans (i + 1) cs ks"
| "walk_spans i _ _ = []"

definition walk_report ::
  "RetryConfig \<Rightarrow> Candidate list \<Rightarrow> int \<Rightarrow> chainFailure list \<Rightarrow> 'a chain_result \<Rightarrow> int list \<Rightarrow> bool" where
  "walk_report cfg chain spent fs res ks \<longleftrightarrow>
     length ks \<le> length chain \<and> (\<forall>k \<in> set ks. 0 \<le> k \<and> k \<le> MaxAttempts cfg) \<and>
     sum_list ks \<le> max 0 (MaxTotalAttempts cfg - spent) \<and>
     (case res of
        ChainServed v cand fs' \<Rightarrow>
          ks \<noteq> [] \<and> cand = chain ! (length ks - 1) \<and> 1 \<le> last ks \<and>
          map cf_candidate fs' = map cf_candidate fs @ take (length ks - 1) chain \<and>
          map cf_attempts fs' = map cf_attempts fs @ butlast ks
      | ChainFailed fs' e \<Rightarrow>
          e = lastChainError fs' \<and> map cf_candidate fs' = map cf_candidate fs @ take (length ks) chain \<and>
          map cf_attempts fs' = map cf_attempts fs @ ks
      | ChainPanic \<Rightarrow> True)"

lemma walk_report_stop: "walk_report cfg chain spent fs (ChainFailed fs (lastChainError fs)) []"
  by (simp add: walk_report_def)

lemma walk_report_served:
  assumes "1 \<le> k" "k \<le> MaxTotalAttempts cfg - spent" "k \<le> MaxAttempts cfg"
  shows "walk_report cfg (cand # rest) spent fs (ChainServed v cand fs) [k]"
  using assms by (simp add: walk_report_def)

lemma walk_report_panic:
  assumes "0 \<le> k" "k \<le> MaxTotalAttempts cfg - spent" "k \<le> MaxAttempts cfg"
  shows "walk_report cfg (cand # rest) spent fs ChainPanic [k]"
  using assms by (simp add: walk_report_def)

lemma walk_report_end:
  assumes "0 \<le> k" "k \<le> MaxTotalAttempts cfg - spent" "k \<le> MaxAttempts cfg"
  shows "walk_report cfg (cand # rest) spent fs
    (ChainFailed (fs @ [\<lparr>cf_candidate = cand, cf_attempts = k, cf_err = e\<rparr>]) e) [k]"
  using assms by (simp add: walk_report_def lastChainError_def)

lemma walk_report_next:
  assumes "walk_report cfg rest (spent + k) (fs @ [\<lparr>cf_candidate = cand, cf_attempts = k, cf_err = e\<rparr>]) res ks"
    and "0 \<le> k" "k \<le> MaxTotalAttempts cfg - spent" "k \<le> MaxAttempts cfg"
  shows "walk_report cfg (cand # rest) spent fs res (k # ks)"
  using assms by (cases ks) (auto simp: walk_report_def split: chain_result.splits)

text \<open>A candidate's failure on the list, and the walk from there on.\<close>

abbreviation failed_with :: "Candidate \<Rightarrow> int \<Rightarrow> CallError \<Rightarrow> chainFailure" where
  "failed_with cand k e \<equiv> \<lparr>cf_candidate = cand, cf_attempts = k, cf_err = e\<rparr>"

lemma walk_stops:
  "MaxTotalAttempts (gw_retry g) - spent \<le> 0 \<or> 0 < i \<and> co_ended (fst w) \<Longrightarrow>
   walk g os i chain spent fs cb w = (ChainFailed fs (lastChainError fs), cb, w)"
  by (cases chain) (auto simp: Let_def)

lemma walk_unfold:
  assumes "\<not> (MaxTotalAttempts (gw_retry g) - spent \<le> 0 \<or> 0 < i \<and> co_ended (fst w))"
    and "try_candidate g os i (MaxTotalAttempts (gw_retry g) - spent) fs cand cb w = (t, cb1, w1)"
  shows "walk g os i (cand # rest) spent fs cb w =
    (case t of
       Panicked \<Rightarrow> (ChainPanic, cb1, w1)
     | Skipped e \<Rightarrow> walk g os (i + 1) rest (spent + 0) (fs @ [failed_with cand 0 e]) cb1 w1
     | Called v None k \<Rightarrow> (ChainServed v cand fs, cb1, w1)
     | Called v (Some e) k \<Rightarrow>
         (if \<not> ShouldFallback e then (ChainFailed (fs @ [failed_with cand k e]) e, cb1, w1)
          else walk g os (i + 1) rest (spent + k) (fs @ [failed_with cand k e]) cb1 w1))"
  using assms by (auto simp: Let_def lastChainError_def split: tried.splits option.splits)

lemma walk_trace:
  assumes max: "1 \<le> MaxAttempts (gw_retry g)"
  shows "walk g os i chain spent fs cb w = (res, cb', c', sps') \<Longrightarrow> (0 < i \<longrightarrow> fs \<noteq> []) \<Longrightarrow>
    \<exists>ks. walk_report (gw_retry g) chain spent fs res ks \<and> sps' = snd w @ walk_spans i chain ks"
proof (induction chain arbitrary: i spent fs cb w)
  case Nil
  then show ?case using walk_report_stop by fastforce
next
  case (Cons cand rest)
  let ?rem = "MaxTotalAttempts (gw_retry g) - spent"
  show ?case
  proof (cases "?rem \<le> 0 \<or> 0 < i \<and> co_ended (fst w)")
    case True
    then show ?thesis using Cons.prems(1) walk_stops [OF True, of os "cand # rest" fs cb]
      by (intro exI [of _ "[]"]) (auto simp: walk_report_stop simp del: walk.simps)
  next
    case False
    obtain t cb1 c1 sps1 where t: "try_candidate g os i ?rem fs cand cb w = (t, cb1, c1, sps1)" by (metis prod.exhaust)
    note run = Cons.prems(1) [unfolded walk_unfold [OF False t]]
    have sp: "case t of Skipped e \<Rightarrow> sps1 = snd w
      | Panicked \<Rightarrow> (0 < i \<and> fs = [] \<or> co_panicked c1) \<and>
          (\<exists>k. sps1 = snd w @ spans_of cand (0 < i) k \<and> 0 \<le> k \<and> k \<le> ?rem \<and> k \<le> MaxAttempts (gw_retry g))
      | Called v e k \<Rightarrow> sps1 = snd w @ spans_of cand (0 < i) k \<and> 1 \<le> k \<and> k \<le> ?rem \<and> k \<le> MaxAttempts (gw_retry g)"
      using try_candidate_spans [OF max, of ?rem os i fs cand cb "fst w" "snd w"] False t by simp
    have go: ?thesis
      if r: "walk g os (i + 1) rest (spent + k) (fs @ [failed_with cand k e]) cb1 (c1, sps1) = (res, cb', c', sps')"
        and k: "sps1 = snd w @ spans_of cand (0 < i) k" "0 \<le> k" "k \<le> ?rem" "k \<le> MaxAttempts (gw_retry g)" for k e
    proof -
      obtain ks where "walk_report (gw_retry g) rest (spent + k) (fs @ [failed_with cand k e]) res ks"
        "sps' = sps1 @ walk_spans (i + 1) rest ks" using Cons.IH [OF r] by auto
      then show ?thesis using walk_report_next [OF _ k(2-4)] k(1) by (intro exI [of _ "k # ks"]) auto
    qed
    show ?thesis
    proof (cases t)
      case (Skipped e)
      then show ?thesis using go [of 0 e] run sp False max by (simp add: spans_of_def)
    next
      case (Called v e k)
      then show ?thesis using run sp go [of k] walk_report_served [of k "gw_retry g" spent cand rest fs v]
          walk_report_end [of k "gw_retry g" spent cand rest fs]
        by (auto split: option.splits if_splits intro!: exI [of _ "[k]"])
    next
      case Panicked
      then obtain k where "sps1 = snd w @ spans_of cand (0 < i) k" "0 \<le> k" "k \<le> ?rem" "k \<le> MaxAttempts (gw_retry g)"
        using sp by auto
      then show ?thesis using run Panicked walk_report_panic [of k "gw_retry g" spent cand rest fs]
        by (intro exI [of _ "[k]"]) simp
    qed
  qed
qed

text \<open>Only a provider call can panic.\<close>

lemma walk_panics:
  assumes max: "1 \<le> MaxAttempts (gw_retry g)"
  shows "walk g os i chain spent fs cb w = (ChainPanic, cb', c', sps') \<Longrightarrow> (0 < i \<longrightarrow> fs \<noteq> []) \<Longrightarrow> co_panicked c'"
proof (induction chain arbitrary: i spent fs cb w)
  case (Cons cand rest)
  let ?rem = "MaxTotalAttempts (gw_retry g) - spent"
  have go: "\<not> (?rem \<le> 0 \<or> 0 < i \<and> co_ended (fst w))"
  proof
    assume "?rem \<le> 0 \<or> 0 < i \<and> co_ended (fst w)"
    from walk_stops [OF this, of os "cand # rest" fs cb] show False using Cons.prems(1) by simp
  qed
  obtain t cb1 c1 sps1 where t: "try_candidate g os i ?rem fs cand cb w = (t, cb1, c1, sps1)" by (metis prod.exhaust)
  note run = Cons.prems(1) [unfolded walk_unfold [OF go t]]
  have sp: "t = Panicked \<Longrightarrow> 0 < i \<and> fs = [] \<or> co_panicked c1"
    using try_candidate_spans [OF max, of ?rem os i fs cand cb "fst w" "snd w"] go t by simp
  show ?case
    using run sp Cons.prems(2) Cons.IH [where i = "i + 1" and w = "(c1, sps1)"]
    by (auto split: tried.splits option.splits if_splits)
qed simp

lemma length_walk_spans:
  "length ks \<le> length chain \<Longrightarrow> \<forall>k \<in> set ks. 0 \<le> k \<Longrightarrow> int (length (walk_spans i chain ks)) = sum_list ks"
  by (induction i chain ks rule: walk_spans.induct) (auto simp: length_spans_of)

lemma walk_spans_in: "sp \<in> set (walk_spans i chain ks) \<Longrightarrow> sp_Candidate sp \<in> set chain"
  by (induction i chain ks rule: walk_spans.induct) (auto simp: spans_of_def)

section \<open>Facts on chains and routing\<close>

lemma BuildChain_candidates: "c \<in> set (BuildChain inp) \<Longrightarrow> chain_candidate inp c"
  using permitted_set(1) [of inp] by (auto simp: BuildChain_def Let_def split: if_splits)

lemma BuildChain_empty: "BuildChain inp = [] \<longleftrightarrow> (\<nexists>c. chain_candidate inp c)"
proof -
  have "BuildChain inp = [] \<longleftrightarrow> permitted inp = []" by (auto simp: BuildChain_def Let_def split: if_splits)
  then show ?thesis using permitted_set(1) [of inp] by (metis (mono_tags) Collect_empty_eq set_empty)
qed

text \<open>What a team's allowlists permit.\<close>

definition team_allows :: "Team option \<Rightarrow> Candidate \<Rightarrow> bool" where
  "team_allows team cand \<longleftrightarrow>
     (\<forall>t. team = Some t \<longrightarrow> AllowsProvider t (cn_Provider cand) \<and> AllowsModel t (cn_Model cand))"

lemma buildChain_candidates:
  "cand \<in> set (buildChain team c requested tier) \<Longrightarrow> cand \<in> set (requested # tier) \<and> team_allows team cand \<and>
     cn_Provider cand \<noteq> [] \<and> cn_Model cand \<noteq> []"
  unfolding buildChain_def
  by (drule BuildChain_candidates) (auto simp: chain_candidate_def team_allows_def split: option.splits)

lemma first_not_open_in: "first_not_open cs c = (Some cand, c') \<Longrightarrow> cand \<in> set cs"
  by (induction cs arbitrary: c) (auto split: prod.splits if_splits)

lemma selectCandidate_in:
  assumes "selectCandidate g team tier c = (Inr cand, c')"
  shows "cand \<in> set (TierNamed (gw_store g) tier) \<and> team_allows team cand"
proof -
  let ?r = "\<lparr>cn_Provider = [], cn_Model = []\<rparr>"
  have "cand \<in> set (buildChain team c ?r (TierNamed (gw_store g) tier))"
    using assms first_not_open_in unfolding selectCandidate_def
    by (fastforce simp: Let_def split: if_splits list.splits prod.splits option.splits)
  from buildChain_candidates [OF this] show ?thesis by auto
qed

lemma route_select_tier:
  assumes "route_select g team ro plan c = (Inr cand, plan', c')"
  shows "cand \<in> set (TierNamed (gw_store g) (pl_Tier plan')) \<and> team_allows team cand \<and>
    (pl_Tier plan' = pl_Tier plan \<or> \<not> pl_Pinned plan \<and> pl_Tier plan' = po_Complex (ro_policy ro))"
  using assms selectCandidate_in [of g team _ _ cand]
  by (auto simp: route_select_def Escalate_def split: prod.splits sum.splits option.splits if_splits)

lemma Router_Plan_tier:
  assumes "Router_Plan lc ro model req = Some plan"
  shows "pl_Tier plan \<in> {po_Simple (ro_policy ro), po_Complex (ro_policy ro)} \<and>
    (pl_Pinned plan \<longleftrightarrow> model \<noteq> AutoModel) \<and> (model \<noteq> AutoModel \<longrightarrow> pl_Tier plan = model)"
  using assms by (auto simp: Router_Plan_def Routes_def Let_def Tier_def split: if_splits)

section \<open>Facts on breakers and the budget\<close>

lemma breaker_check_local:
  assumes "co_breakers c = Some reg" "map_of (br_breakers reg) (cand_labels cand) = Some b"
    and "store_for (gw_newStore g) (cand_labels cand) = None"
  shows "breaker_check g cand c =
    (case allowLocal (br_cfg reg) (now_of c) b of
       (ok, b') \<Rightarrow> (Some ok, c\<lparr>co_breakers := Some (put_breaker (cand_labels cand) b' reg)\<rparr>))"
  using assms by (simp add: breaker_check_def on_breaker_def breakerFor_def For_def Allow_def split: prod.splits)

lemma at_server_keeps:
  "co_breakers (snd (at_server f c)) = co_breakers c" "co_clock (snd (at_server f c)) = co_clock c"
  by (simp_all add: at_server_def split: prod.splits)

lemma admit_keeps:
  assumes "admit g model cb c = (x, cb', c')"
  shows "co_breakers c' = co_breakers c" "co_clock c' = co_clock c"
proof -
  have "c' = c \<or> c' = snd (budget_reserve g (cb_team (the cb)) (i64 (the (estimateFor g (the cb) model) - cb_baseMicros (the cb))) c)"
    using assms by (auto simp: admit_def Let_def split: option.splits if_splits prod.splits sum.splits)
  then show "co_breakers c' = co_breakers c" "co_clock c' = co_clock c"
    using at_server_keeps by (auto simp: budget_reserve_def)
qed

lemma put_breaker_lookup:
  assumes "map_of (br_breakers reg) l = Some b"
  shows "map_of (br_breakers (put_breaker l b' reg)) l = Some b'"
proof -
  have "map_of es l = Some b \<Longrightarrow> map_of (map (\<lambda>(k, v). if k = l then (k, b') else (k, v)) es) l = Some b'" for es
    by (induction es) (auto split: if_splits)
  then show ?thesis using assms by (simp add: put_breaker_def)
qed

text \<open>
  A candidate that is refused for the budget after its half-open breaker claimed the probe
  keeps the claim: nothing was called and nothing is reported, and until the probe times out
  the breaker turns away every request.
\<close>

lemma probe_kept_on_budget_denial:
  assumes reg: "co_breakers c = Some reg" "map_of (br_breakers reg) (cand_labels cand) = Some b"
    and half: "bk_state b = StateHalfOpen" "\<not> bk_probeInFlight b"
    and store: "store_for (gw_newStore g) (cand_labels cand) = None"
    and claimed: "b' = b\<lparr>bk_probeInFlight := True, bk_probeStartedAt := now_of c\<rparr>"
    and denied: "admit g (cn_Model cand) cb (c\<lparr>co_breakers := Some (put_breaker (cand_labels cand) b' reg)\<rparr>) = ((d, Some e), cb', c')"
    and total: "1 \<le> MaxTotalAttempts (gw_retry g)"
  shows "runChain g os [cand] cb (c, []) = (ChainFailed [failed_with cand 0 e] e, cb', c', []) \<and>
    co_breakers c' = Some (put_breaker (cand_labels cand) b' reg) \<and>
    map_of (br_breakers (put_breaker (cand_labels cand) b' reg)) (cand_labels cand) = Some b' \<and>
    (\<forall>t. t - now_of c < ProbeTimeout (br_cfg reg) \<longrightarrow> fst (allowLocal (br_cfg reg) t b') = False)"
proof (intro conjI allI impI)
  have "breaker_check g cand c = (Some True, c\<lparr>co_breakers := Some (put_breaker (cand_labels cand) b' reg)\<rparr>)"
    using breaker_check_local [OF reg store] half by (simp add: allowLocal_def claimProbe_def claimed)
  then show "runChain g os [cand] cb (c, []) = (ChainFailed [failed_with cand 0 e] e, cb', c', [])"
    using total denied by (simp add: runChain_def try_candidate_def lastChainError_def)
  show "fst (allowLocal (br_cfg reg) t b') = False" if "t - now_of c < ProbeTimeout (br_cfg reg)" for t
    using half that by (simp add: allowLocal_def claimProbe_def claimed)
qed (simp_all add: admit_keeps(1) [OF denied] put_breaker_lookup [OF reg(2)])

section \<open>Properties of the walk and of routing\<close>

text \<open>
  C16. Whatever providers, breakers, Redis and the clock do, a request's walk over its fallback
  chain panics only where a provider call did and makes at most the configured total of provider calls, at most
  \<open>MaxAttempts\<close> of them to one candidate: the calls are runs of attempts numbered from one at
  the candidates of the chain in their order, marked as fallback exactly past the head. On
  success the candidate of the last run served; on failure the breakdown names the candidates
  that were considered in order, with the calls made to each, and the error is the last one.
\<close>

theorem chain_calls_bounded:
  assumes "1 \<le> MaxAttempts (gw_retry g)" and "runChain g os chain cb (c, []) = (res, cb', c', sps)"
  shows "\<exists>ks. length ks \<le> length chain \<and> sps = walk_spans 0 chain ks \<and>
    (\<forall>k \<in> set ks. 0 \<le> k \<and> k \<le> MaxAttempts (gw_retry g)) \<and>
    int (length sps) = sum_list ks \<and> sum_list ks \<le> max 0 (MaxTotalAttempts (gw_retry g)) \<and>
    (case res of
       ChainServed v cand fs \<Rightarrow> ks \<noteq> [] \<and> cand = chain ! (length ks - 1) \<and> 1 \<le> last ks \<and>
         map cf_candidate fs = take (length ks - 1) chain \<and> map cf_attempts fs = butlast ks
     | ChainFailed fs e \<Rightarrow> e = lastChainError fs \<and> map cf_candidate fs = take (length ks) chain \<and>
         map cf_attempts fs = ks \<and> totalAttempts fs = int (length sps)
     | ChainPanic \<Rightarrow> co_panicked c')"
proof -
  obtain ks where rep: "walk_report (gw_retry g) chain 0 [] res ks" and sps: "sps = walk_spans 0 chain ks"
    using walk_trace [OF assms(1), of os 0 chain 0 "[]" cb "(c, [])"] assms(2) by (auto simp: runChain_def)
  then have "int (length sps) = sum_list ks" using length_walk_spans [of ks chain 0] by (simp add: walk_report_def)
  moreover have "res = ChainPanic \<Longrightarrow> co_panicked c'"
    using walk_panics [OF assms(1), of os 0 chain 0 "[]" cb "(c, [])"] assms(2) by (simp add: runChain_def)
  ultimately show ?thesis using rep sps
    by (intro exI [of _ ks]) (auto simp: walk_report_def totalAttempts_def split: chain_result.splits)
qed

text \<open>
  C24. Routing never overrides a model the caller named: without a routing keyword the request
  passes unchanged. A routed request is served from the tier it is noted under, by a candidate
  of that tier that the team's allowlists permit; the tier is one of the two of the policy,
  and a caller who named a tier gets that tier and no other.
\<close>

theorem route_permitted:
  assumes "route g team req c = (Inr (req', note), c')"
  shows "((\<forall>ro. gw_routing g = Some ro \<longrightarrow> \<not> Routes ro (cr_Model req)) \<longrightarrow> req' = req \<and> note = None \<and> c' = c) \<and>
    (\<forall>ro. gw_routing g = Some ro \<and> Routes ro (cr_Model req) \<longrightarrow>
      (\<exists>n cand. note = Some n \<and> cand \<in> set (TierNamed (gw_store g) (rn_routedTier n)) \<and> team_allows team cand \<and>
         req' = req\<lparr>cr_Model := cn_Model cand\<rparr> \<and> rn_routedModel n = cn_Model cand \<and>
         rn_routedTier n \<in> {po_Simple (ro_policy ro), po_Complex (ro_policy ro)} \<and>
         (cr_Model req \<noteq> AutoModel \<longrightarrow> rn_routedTier n = cr_Model req)))"
proof (intro conjI impI allI)
  assume "\<forall>ro. gw_routing g = Some ro \<longrightarrow> \<not> Routes ro (cr_Model req)"
  then show "req' = req" "note = None" "c' = c" using assms by (auto simp: route_def split: option.splits)
next
  fix ro assume ro: "gw_routing g = Some ro \<and> Routes ro (cr_Model req)"
  obtain plan where plan: "Router_Plan (gw_lower g) ro (cr_Model req) (toProviderRequest req) = Some plan"
    using ro by (cases "cr_Model req = AutoModel") (auto simp: Router_Plan_def Let_def)
  obtain sel plan' c1 where sel: "route_select g team ro plan c = (sel, plan', c1)" by (rule prod_cases3)
  obtain cand where cand: "sel = Inr cand" "req' = req\<lparr>cr_Model := cn_Model cand\<rparr>"
    "note = Some \<lparr>rn_routedModel = cn_Model cand, rn_routedTier = pl_Tier plan', rn_routeReason = pl_Reason plan',
       rn_routeBaselineModel = topTierModel g\<rparr>"
    using assms ro plan sel by (auto simp: route_def split: sum.splits RouteError.splits)
  note t = route_select_tier [OF sel [unfolded cand(1)]] and p = Router_Plan_tier [OF plan]
  show "\<exists>n cand. note = Some n \<and> cand \<in> set (TierNamed (gw_store g) (rn_routedTier n)) \<and> team_allows team cand \<and>
      req' = req\<lparr>cr_Model := cn_Model cand\<rparr> \<and> rn_routedModel n = cn_Model cand \<and>
      rn_routedTier n \<in> {po_Simple (ro_policy ro), po_Complex (ro_policy ro)} \<and>
      (cr_Model req \<noteq> AutoModel \<longrightarrow> rn_routedTier n = cr_Model req)"
    using t p cand(2,3) by (intro exI [of _ "the note"] exI [of _ cand]) auto
qed

section \<open>A small gateway\<close>

definition demo_gateway :: "mem gateway" where
  "demo_gateway =
     \<lparr>gw_store = newConfigStore (demo_live ''v1'') [], gw_redis = mem_redis, gw_newStore = None,
      gw_retry = \<lparr>MaxAttempts = 3, BaseDelay = millisecond, MaxTotalAttempts = 4\<rparr>,
      gw_routing = Some \<lparr>ro_classifier = clf, ro_policy = \<lparr>po_Simple = ''fast'', po_Complex = ''smart''\<rparr>\<rparr>,
      gw_lower = (\<lambda>r. r)\<rparr>"

definition demo_core :: "(mem, unit) core" where
  "demo_core =
     \<lparr>co_clock = may_noon, co_redis = empty_mem, co_fates = [], co_breakers = None, co_monitor = None,
      co_recorder = (\<lambda>_. None), co_ended = False,
      co_panicked = False, co_env = ()\<rparr>"

definition demo_team :: Team where
  "demo_team = acme\<lparr>tm_AllowedModels := [''llama'', ''mixtral'']\<rparr>"

definition demo_request :: "string \<Rightarrow> chatRequest" where
  "demo_request model =
     \<lparr>cr_Model = model, cr_Messages = [\<lparr>cm_Role = ''user'', cm_Content = ascii ''hi''\<rparr>], cr_Temperature = None,
      cr_MaxTokens = 0, cr_Stream = False, cr_Stop = []\<rparr>"

text \<open>Providers that always time out.\<close>

definition demo_outside :: "(Response, mem, unit) outside" where
  "demo_outside =
     \<lparr>os_call = (\<lambda>p cand c. ((None, Some (ProviderErr (NewHTTPError (adapter_Name p) (cn_Model cand) 504 []))), c)),
      os_sleep = (\<lambda>d c. (False, c)), os_rand = (\<lambda>u c. (0, c))\<rparr>"

theorem chain_calls_bounded_witness:
  "int (length (snd (snd (snd (runChain demo_gateway demo_outside
      [\<lparr>cn_Provider = ''groq'', cn_Model = ''llama''\<rparr>, \<lparr>cn_Provider = ''groq'', cn_Model = ''mixtral''\<rparr>] None (demo_core, [])))))) \<le> 4"
proof -
  obtain res cb' c' sps where run: "runChain demo_gateway demo_outside
      [\<lparr>cn_Provider = ''groq'', cn_Model = ''llama''\<rparr>, \<lparr>cn_Provider = ''groq'', cn_Model = ''mixtral''\<rparr>] None (demo_core, []) =
      (res, cb', c', sps)" by (metis prod.exhaust)
  have "1 \<le> MaxAttempts (gw_retry demo_gateway)" by (simp add: demo_gateway_def)
  from chain_calls_bounded [OF this run] show ?thesis unfolding run by (auto simp: demo_gateway_def)
qed

lemma demo_route:
  "route demo_gateway (Some demo_team) (demo_request ''fast'') demo_core =
     (Inr (demo_request ''llama'',
        Some \<lparr>rn_routedModel = ''llama'', rn_routedTier = ''fast'', rn_routeReason = ''tier=fast pinned'',
              rn_routeBaselineModel = ''mixtral''\<rparr>), demo_core)"
  by (simp add: route_def demo_gateway_def Routes_def Router_Plan_def AutoModel_def demo_request_def route_select_def
      selectCandidate_def demo_live_eval buildChain_def BuildChain_def permitted_def status_of_def chain_add_def
      demo_team_def acme_def AllowsProvider_def AllowsModel_def demo_core_def breakerFor_def topTierModel_def Let_def)

theorem route_permitted_witness:
  "\<exists>cand \<in> set (TierNamed (gw_store demo_gateway) ''fast'').
     team_allows (Some demo_team) cand \<and> cn_Model cand = ''llama''"
  using route_permitted [OF demo_route] by (auto simp: demo_gateway_def Routes_def demo_request_def)

end
