(* ===== verification/Middleware.thy ===== *)
theory Middleware
  imports RateLimit Auth Chain
begin

text \<open>
  The layers around the handler (\<open>internal/proxy/middleware.go\<close>, \<open>auth.go\<close>, \<open>ratelimit.go\<close>,
  \<open>requestlog.go\<close>): what a request accumulates for its headers and its log row, correlation
  identifiers, authentication, the request-rate bucket with priority shedding, and the answer
  to a panic. Spans, counters and log lines are left out. A layer is a function of what it
  wraps.
\<close>

section \<open>What a request accumulates\<close>

record requestMetrics =
  mt_start :: instant
  mt_teamID :: string
  mt_stream :: bool
  mt_providerName :: string
  mt_servedModel :: string
  mt_requestedModel :: string
  mt_fellBack :: bool
  mt_providerTime :: duration
  mt_usage :: Usage
  mt_costMicros :: int
  mt_fallbackCostDeltaMicros :: "int option"
  mt_routedModel :: string
  mt_routedTier :: string
  mt_routeReason :: string
  mt_routeBaselineModel :: string
  mt_routingSavingsMicros :: "int option"
  mt_cacheHit :: "bool option"
  mt_cacheTier :: string
  mt_embedTime :: duration

definition fresh_metrics :: "instant \<Rightarrow> requestMetrics" where
  "fresh_metrics now =
     \<lparr>mt_start = now, mt_teamID = [], mt_stream = False, mt_providerName = [], mt_servedModel = [], mt_requestedModel = [],
      mt_fellBack = False, mt_providerTime = 0, mt_usage = \<lparr>us_InputTokens = 0, us_OutputTokens = 0\<rparr>, mt_costMicros = 0,
      mt_fallbackCostDeltaMicros = None, mt_routedModel = [], mt_routedTier = [], mt_routeReason = [],
      mt_routeBaselineModel = [], mt_routingSavingsMicros = None, mt_cacheHit = None, mt_cacheTier = [], mt_embedTime = 0\<rparr>"

definition baselineModel :: "requestMetrics \<Rightarrow> string" where
  "baselineModel m = (if mt_routedModel m \<noteq> [] then mt_routedModel m else mt_requestedModel m)"

definition overhead :: "instant \<Rightarrow> requestMetrics \<Rightarrow> duration" where
  "overhead now m = (let d = now - mt_start m - mt_providerTime m - mt_embedTime m in if d < 0 then 0 else d)"

text \<open>Milliseconds with three decimals. The code divides in floating point; here the quotient is exact.\<close>

definition formatMillis :: "duration \<Rightarrow> string" where
  "formatMillis d = fmt_fixed 3 (of_int d / of_int millisecond)"

definition FormatBool :: "bool \<Rightarrow> string" where
  "FormatBool b = (if b then ''true'' else ''false'')"

text \<open>The headers set, in order.\<close>

definition applyHeaders :: "instant \<Rightarrow> requestMetrics \<Rightarrow> (string \<times> string) list" where
  "applyHeaders now m =
     (if mt_providerName m \<noteq> [] then [(''X-Switchyard-Provider'', mt_providerName m)] else []) @
     (if mt_requestedModel m \<noteq> [] then [(''X-Switchyard-Requested-Model'', mt_requestedModel m)] else []) @
     (if mt_servedModel m \<noteq> []
      then [(''X-Switchyard-Served-Model'', mt_servedModel m), (''X-Switchyard-Fallback'', FormatBool (mt_fellBack m))] else []) @
     (if mt_routedTier m \<noteq> []
      then [(''X-Switchyard-Route-Tier'', mt_routedTier m), (''X-Switchyard-Route-Reason'', mt_routeReason m)] else []) @
     (if mt_cacheTier m \<noteq> [] then [(''X-Switchyard-Cache'', mt_cacheTier m)] else []) @
     (if mt_embedTime m > 0 then [(''X-Switchyard-Embed-Ms'', formatMillis (mt_embedTime m))] else []) @
     [(''X-Switchyard-Overhead-Ms'', formatMillis (overhead now m))]"

text \<open>
  What a handler leaves behind: the reply, None after a panic that came before anything was
  written; the instant of the first write; and the metrics at the end. A panic past the first
  write is marked.
\<close>

record handled =
  hn_reply :: "http_reply option"
  hn_panicked :: bool
  hn_at :: instant
  hn_metrics :: requestMetrics

text \<open>The headers go out with the first write; a handler that wrote nothing gets them after it returns.\<close>

definition Timing :: "(requestMetrics \<Rightarrow> ('r, 'e) core \<Rightarrow> handled \<times> ('r, 'e) core) \<Rightarrow> ('r, 'e) core \<Rightarrow> handled \<times> ('r, 'e) core" where
  "Timing inner c =
     (case inner (fresh_metrics (now_of c)) c of
        (h, c') \<Rightarrow>
          (h\<lparr>hn_reply := map_option (\<lambda>r. r\<lparr>rp_Headers := rp_Headers r @ applyHeaders (hn_at h) (hn_metrics h)\<rparr>) (hn_reply h)\<rparr>, c'))"

section \<open>Correlation identifiers\<close>

definition maxRequestIDLen :: nat where
  "maxRequestIDLen = 64"

definition request_id_char :: "char \<Rightarrow> bool" where
  "request_id_char c \<longleftrightarrow>
     (let n = of_char c :: nat in
      97 \<le> n \<and> n \<le> 122 \<or> 65 \<le> n \<and> n \<le> 90 \<or> 48 \<le> n \<and> n \<le> 57 \<or> c = CHR ''-'' \<or> c = CHR ''_'')"

definition sanitizeRequestID :: "string \<Rightarrow> string" where
  "sanitizeRequestID rid =
     (if rid = [] \<or> length rid > maxRequestIDLen then []
      else if list_all request_id_char rid then rid else [])"

text \<open>\<open>random\<close> gives the sixteen bytes drawn.\<close>

definition newRequestID :: "nat list \<Rightarrow> string" where
  "newRequestID random = EncodeToString (take 16 random)"

definition RequestID :: "nat list \<Rightarrow> string \<Rightarrow> string" where
  "RequestID random inbound =
     (let rid = sanitizeRequestID inbound in if rid = [] then newRequestID random else rid)"

section \<open>Authentication\<close>

definition bearerToken :: "string \<Rightarrow> string option" where
  "bearerToken h =
     (if \<not> has_prefix h ''Bearer '' then None
      else (let key = trim_header (drop 7 h) in if key = [] then None else Some key))"

definition Auth_layer ::
  "Registry \<Rightarrow> string \<Rightarrow> (Team \<Rightarrow> requestMetrics \<Rightarrow> ('r, 'e) core \<Rightarrow> handled \<times> ('r, 'e) core) \<Rightarrow>
   requestMetrics \<Rightarrow> ('r, 'e) core \<Rightarrow> handled \<times> ('r, 'e) core" where
  "Auth_layer reg authorization inner m c =
     (let refuse = (\<lambda>reply. (\<lparr>hn_reply = Some reply, hn_panicked = False, hn_at = now_of c, hn_metrics = m\<rparr>, c)) in
      case bearerToken authorization of
        None \<Rightarrow> refuse (writeError 401 ''invalid_api_key''
          (ascii (''missing or malformed Authorization header; expected '' @ [CHR 0x22] @ ''Bearer <key>'' @ [CHR 0x22])))
      | Some key \<Rightarrow>
          (case Authenticate reg key of
             Inl ErrUnknownKey \<Rightarrow> refuse (writeError 401 ''invalid_api_key'' (ascii ''the provided API key was not recognized''))
           | Inl _ \<Rightarrow> refuse (writeError 500 ''internal_error'' (ascii ''the gateway could not authenticate this request''))
           | Inr team \<Rightarrow> inner team (m\<lparr>mt_teamID := tm_ID team\<rparr>) c))"

section \<open>The request-rate bucket\<close>

definition batchShedFloor :: rat where
  "batchShedFloor = 1 / 5"

definition shouldShedForPriority :: "Team \<Rightarrow> int \<Rightarrow> RlResult \<Rightarrow> bool" where
  "shouldShedForPriority team capacity res =
     (if tm_Priority team \<noteq> PriorityBatch \<or> capacity \<le> 0 then False
      else rl_Remaining res < batchShedFloor * of_int capacity)"

text \<open>
  The headers of a refusal and the seconds they advertise. Roundings are of exact numbers; a
  limit that is not positive never gets here, because the bucket rejects it as an error.
\<close>

definition retry_seconds :: "RlResult \<Rightarrow> int" where
  "retry_seconds res = \<lceil>of_int (if rl_RetryAfter res < second then second else rl_RetryAfter res) / (of_int second :: rat)\<rceil>"

definition writeRateLimitHeaders :: "int \<Rightarrow> RlResult \<Rightarrow> (string \<times> string) list" where
  "writeRateLimitHeaders limit res =
     (let remaining = (if rl_Remaining res < 0 then 0 else rl_Remaining res);
          resetSeconds = (of_int limit - rl_Remaining res) / (of_int limit / 60)
      in [(''Retry-After'', show_int (retry_seconds res)),
          (''X-RateLimit-Limit'', show_int limit),
          (''X-RateLimit-Remaining'', show_int (rtrunc remaining)),
          (''X-RateLimit-Reset'', show_int \<lceil>if resetSeconds < 0 then 0 else resetSeconds\<rceil>)])"

text \<open>\<open>strings.ToUpper\<close> of the kind.\<close>

definition LimitType_upper :: "LimitType \<Rightarrow> string" where
  "LimitType_upper k = (case k of RPM \<Rightarrow> ''RPM'' | TPM \<Rightarrow> ''TPM'')"

definition writeRateLimitError :: "LimitType \<Rightarrow> int \<Rightarrow> RlResult \<Rightarrow> http_reply" where
  "writeRateLimitError kind limit res =
     (let r = writeError 429 ''rate_limit_exceeded''
        (ascii (LimitType_upper kind @ '' rate limit exceeded; retry after '' @ show_int (retry_seconds res) @ '' seconds''))
      in r\<lparr>rp_Headers := writeRateLimitHeaders limit res @ rp_Headers r\<rparr>)"

definition writePriorityShedError :: "LimitType \<Rightarrow> int \<Rightarrow> RlResult \<Rightarrow> http_reply" where
  "writePriorityShedError kind limit res =
     (let r = writeError 429 ''priority_shed''
        (ascii (LimitType_upper kind @ '' batch-priority traffic is shed once the bucket drops below '' @
           fmt_fixed 0 (batchShedFloor * 100) @ ''% remaining; retry after '' @ show_int (retry_seconds res) @
           '' seconds or from a realtime-priority team''))
      in r\<lparr>rp_Headers := writeRateLimitHeaders limit res @ rp_Headers r\<rparr>)"

text \<open>A team is always present behind authentication.\<close>

definition RateLimit_layer ::
  "'r gateway \<Rightarrow> Team \<Rightarrow> (requestMetrics \<Rightarrow> ('r, 'e) core \<Rightarrow> handled \<times> ('r, 'e) core) \<Rightarrow>
   requestMetrics \<Rightarrow> ('r, 'e) core \<Rightarrow> handled \<times> ('r, 'e) core" where
  "RateLimit_layer g team inner m c =
     (let limit = rl_RPM (tm_RateLimits team) in
      case at_server (on_server (\<lambda>d. Consume (gw_redis g) d (tm_ID team) RPM limit 1 bucketTTL)) c of
        (Inl _, c') \<Rightarrow> inner m c'
      | (Inr res, c') \<Rightarrow>
          (let refuse = (\<lambda>reply. (\<lparr>hn_reply = Some reply, hn_panicked = False, hn_at = now_of c', hn_metrics = m\<rparr>, c')) in
           if \<not> rl_Allowed res then refuse (writeRateLimitError RPM limit res)
           else if shouldShedForPriority team limit res then refuse (writePriorityShedError RPM limit res)
           else inner m c'))"

section \<open>The log row\<close>

record LogRecord =
  lr_ID :: string
  lr_Timestamp :: instant
  lr_TeamID :: string
  lr_RequestedModel :: string
  lr_ServedModel :: string
  lr_Provider :: string
  lr_StatusCode :: int
  lr_InputTokens :: int
  lr_OutputTokens :: int
  lr_CostMicros :: int
  lr_LatencyMS :: rat
  lr_OverheadMS :: rat
  lr_Fallback :: bool
  lr_CacheHit :: "bool option"
  lr_QualityScore :: "rat option"
  lr_TraceID :: string
  lr_FallbackCostDeltaMicros :: "int option"
  lr_RoutingTier :: string
  lr_RoutingReason :: string
  lr_RoutingSavingsMicros :: "int option"
  lr_QualitySampleReason :: string

definition log_millis :: "duration \<Rightarrow> rat" where
  "log_millis d = of_int d / of_int millisecond"

text \<open>A panic unwinds the layer before it gets to write its row.\<close>

definition RequestLog_row :: "string \<Rightarrow> string \<Rightarrow> instant \<Rightarrow> handled \<Rightarrow> LogRecord option" where
  "RequestLog_row requestID traceID now h =
     (let m = hn_metrics h in
      if hn_panicked h \<or> mt_teamID m = [] then None
      else Some
        \<lparr>lr_ID = requestID, lr_Timestamp = mt_start m, lr_TeamID = mt_teamID m, lr_RequestedModel = mt_requestedModel m,
         lr_ServedModel = mt_servedModel m, lr_Provider = mt_providerName m,
         lr_StatusCode = (case hn_reply h of Some r \<Rightarrow> rp_Status r | None \<Rightarrow> 200),
         lr_InputTokens = us_InputTokens (mt_usage m), lr_OutputTokens = us_OutputTokens (mt_usage m),
         lr_CostMicros = mt_costMicros m, lr_LatencyMS = log_millis (now - mt_start m),
         lr_OverheadMS = log_millis (overhead now m), lr_Fallback = mt_fellBack m, lr_CacheHit = mt_cacheHit m,
         lr_QualityScore = None, lr_TraceID = traceID, lr_FallbackCostDeltaMicros = mt_fallbackCostDeltaMicros m,
         lr_RoutingTier = mt_routedTier m, lr_RoutingReason = mt_routeReason m,
         lr_RoutingSavingsMicros = mt_routingSavingsMicros m, lr_QualitySampleReason = []\<rparr>)"

section \<open>Panics\<close>

definition respondToPanic :: "http_reply option \<Rightarrow> http_reply" where
  "respondToPanic wrote =
     (case wrote of
        None \<Rightarrow> writeError 500 ''internal_error'' (ascii ''the gateway encountered an unexpected error'')
      | Some r \<Rightarrow>
          (case rp_Body r of
             StreamBody evs \<Rightarrow>
               (if map_of (rp_Headers r) ''Content-Type'' = Some ''text/event-stream''
                then r\<lparr>rp_Body := StreamBody (evs @ [writeSSEError None])\<rparr> else r)
           | _ \<Rightarrow> r))"

definition Recoverer :: "handled \<Rightarrow> http_reply" where
  "Recoverer h =
     (if hn_panicked h then respondToPanic (hn_reply h)
      else case hn_reply h of
             Some r \<Rightarrow> r
           | None \<Rightarrow> \<lparr>rp_Status = 200, rp_Headers = [], rp_Body = StreamBody []\<rparr>)"

section \<open>Probes\<close>

definition Readyz :: "bool \<Rightarrow> int \<times> string" where
  "Readyz ready = (if \<not> ready then (503, ''not ready'') else (200, ''ready''))"

definition Healthz :: "int \<times> string" where
  "Healthz = (200, ''ok'')"

section \<open>Facts on the layers\<close>

text \<open>A key that does not begin or end with white space comes through the header unchanged.\<close>

lemma bearerToken_key:
  assumes "key \<noteq> []" "\<not> ascii_space (hd key)" "\<not> ascii_space (last key)"
  shows "bearerToken (''Bearer '' @ key) = Some key"
proof -
  have "dropWhile ascii_space key = key" using assms(1,2) by (cases key) simp_all
  moreover have "dropWhile ascii_space (rev key) = rev key"
    using assms(1,3) by (cases key rule: rev_cases) simp_all
  ultimately show ?thesis using assms(1) by (simp add: bearerToken_def trim_header_def)
qed

lemma sanitizeRequestID_safe:
  "list_all request_id_char (sanitizeRequestID rid) \<and> length (sanitizeRequestID rid) \<le> 64"
  by (simp add: sanitizeRequestID_def maxRequestIDLen_def)

lemma retry_seconds_pos: "1 \<le> retry_seconds res"
proof -
  have "(1 :: rat) \<le> of_int (if rl_RetryAfter res < second then second else rl_RetryAfter res) / of_int second"
    by (simp add: divide_simps)
  then have "(of_int 0 :: rat) < of_int (if rl_RetryAfter res < second then second else rl_RetryAfter res) / of_int second"
    by (rule less_le_trans [rotated]) simp
  then have "0 < retry_seconds res" unfolding retry_seconds_def less_ceiling_iff .
  then show ?thesis by simp
qed

text \<open>The advertised wait is long enough: a bucket that refused has refilled by then.\<close>

lemma retry_seconds_covers: "rl_RetryAfter res \<le> retry_seconds res * second"
proof -
  let ?d = "if rl_RetryAfter res < second then second else rl_RetryAfter res"
  have "(of_int ?d / of_int second :: rat) \<le> of_int (retry_seconds res)"
    unfolding retry_seconds_def by (rule le_of_int_ceiling)
  then have "(of_int ?d :: rat) \<le> of_int (retry_seconds res * second)"
    by (simp add: divide_simps)
  then have "?d \<le> retry_seconds res * second" by (simp only: of_int_le_iff)
  then show ?thesis by (simp split: if_splits)
qed

end
