(* ===== verification/Cache.thy ===== *)
theory Cache
  imports Auth Router Wire
begin

text \<open>
  The semantic cache: what identifies a request (\<open>internal/cache/key.go\<close>), how long an answer
  lives (\<open>internal/cache/ttl.go\<close>), the two tiers of a lookup (\<open>internal/cache/lookup.go\<close>) and the
  replay of an answer as a stream (\<open>internal/proxy/cache.go\<close>). The store and the embedding
  service are interfaces here. Similarities are exact instead of 32-bit sums; counters and logs
  are left out.
\<close>

section \<open>Texts as bytes\<close>

definition utf8_rune :: "rune \<Rightarrow> nat list" where
  "utf8_rune r =
     (if r < 128 then [r]
      else if r < 2048 then [192 + r div 64, 128 + r mod 64]
      else if r < 65536 then [224 + r div 4096, 128 + r div 64 mod 64, 128 + r mod 64]
      else [240 + r div 262144, 128 + r div 4096 mod 64, 128 + r div 64 mod 64, 128 + r mod 64])"

definition utf8 :: "runes \<Rightarrow> string" where
  "utf8 t = map char_of (concat (map utf8_rune t))"

text \<open>The text valid UTF-8 stands for; bytes that are not valid stand for themselves.\<close>

fun utf8_read :: "nat list \<Rightarrow> runes" where
  "utf8_read [] = []"
| "utf8_read (a # bs) =
     (if a < 128 then a # utf8_read bs
      else if a < 224 then (case bs of b # bs' \<Rightarrow> ((a - 192) * 64 + (b - 128)) # utf8_read bs' | _ \<Rightarrow> [a])
      else if a < 240 then
        (case bs of b # c # bs' \<Rightarrow> ((a - 224) * 4096 + (b - 128) * 64 + (c - 128)) # utf8_read bs' | _ \<Rightarrow> [a])
      else
        (case bs of
           b # c # d # bs' \<Rightarrow> ((a - 240) * 262144 + (b - 128) * 4096 + (c - 128) * 64 + (d - 128)) # utf8_read bs'
         | _ \<Rightarrow> [a]))"

definition text_of :: "string \<Rightarrow> runes" where
  "text_of s = utf8_read (map of_char s)"

section \<open>What identifies a request\<close>

definition keyPrefix :: string where
  "keyPrefix = ''switchyard:cache''"

record Scope =
  sc_Org :: string
  sc_Team :: string
  sc_Isolated :: bool

definition Scope_ID :: "Scope \<Rightarrow> string" where
  "Scope_ID s = (if sc_Isolated s \<or> sc_Org s = [] then ''team:'' @ sc_Team s else ''org:'' @ sc_Org s)"

record Key =
  ky_Fingerprint :: string
  ky_Query :: runes
  ky_EntryID :: string
  ky_TeamID :: string
  ky_ScopeID :: string

definition writeField :: "string \<Rightarrow> string \<Rightarrow> string" where
  "writeField name val = map char_of (be_bytes 8 (length name + length val + 1)) @ name @ [CHR 0x00] @ val"

function Fields :: "runes \<Rightarrow> runes list" where
  "Fields s =
     (let t = dropWhile is_space s in
      if t = [] then [] else takeWhile (\<lambda>c. \<not> is_space c) t # Fields (dropWhile (\<lambda>c. \<not> is_space c) t))"
  by pat_completeness auto
termination
proof (relation "measure length")
  fix s t :: runes
  assume t: "t = dropWhile is_space s" "t \<noteq> []"
  then have "\<not> is_space (hd t)" using hd_dropWhile by blast
  then have "length (dropWhile (\<lambda>c. \<not> is_space c) t) < length t"
    using t(2) by (cases t) (auto simp: le_imp_less_Suc length_dropWhile_le)
  then show "(dropWhile (\<lambda>c. \<not> is_space c) t, s) \<in> measure length"
    using t(1) length_dropWhile_le [of is_space s] by simp
qed simp

declare Fields.simps [simp del]

definition normalizeQuery :: "runes \<Rightarrow> runes" where
  "normalizeQuery s = join [32] (Fields s)"

function itoa_digits :: "int \<Rightarrow> string \<Rightarrow> string" where
  "itoa_digits n tmp = (if n > 0 then itoa_digits (n div 10) (digit (nat (n mod 10)) # tmp) else tmp)"
  by pat_completeness auto
termination by (relation "measure (\<lambda>(n, tmp). nat n)") auto

declare itoa_digits.simps [simp del]

definition itoa :: "int \<Rightarrow> string" where
  "itoa n =
     (if n = 0 then ''0''
      else (let m = (if n < 0 then i64 (- n) else n) in (if n < 0 then ''-'' else []) @ itoa_digits m []))"

definition ftoa :: "float32 \<Rightarrow> string" where
  "ftoa f = EncodeToString (be_bytes 4 (unat f))"

text \<open>The fields of the fingerprint, in the order they are hashed.\<close>

definition key_fields :: "Scope \<Rightarrow> Request \<Rightarrow> (string \<times> string) list" where
  "key_fields scope req =
     [(''scope'', Scope_ID scope), (''model'', rq_Model req), (''maxtok'', itoa (rq_MaxTokens req)),
      (''temp'', case rq_Temperature req of None \<Rightarrow> ''nil'' | Some t \<Rightarrow> ftoa t)] @
     map (\<lambda>s. (''stop'', utf8 s)) (rq_Stop req) @
     concat (map (\<lambda>m. [(''role'', msg_Role m), (''msg'', utf8 (msg_Content m))]) (butlast (rq_Messages req)))"

definition hash_fields :: "(string \<times> string) list \<Rightarrow> string" where
  "hash_fields fs = concat (map (\<lambda>(name, val). writeField name val) fs)"

definition key_query :: "Request \<Rightarrow> runes" where
  "key_query req = (if rq_Messages req = [] then [] else normalizeQuery (msg_Content (last (rq_Messages req))))"

definition NewKey :: "Scope \<Rightarrow> Request \<Rightarrow> Key" where
  "NewKey scope req =
     (let fingerprint = EncodeToString (Sum256 (hash_fields (key_fields scope req)));
          query = key_query req
      in \<lparr>ky_Fingerprint = fingerprint, ky_Query = query,
          ky_EntryID = EncodeToString (Sum256 (hash_fields [(''fp'', fingerprint), (''q'', utf8 query)])),
          ky_TeamID = sc_Team scope, ky_ScopeID = Scope_ID scope\<rparr>)"

definition entryKey :: "string \<Rightarrow> string" where
  "entryKey eid = keyPrefix @ '':entry:'' @ eid"

definition EntryKey :: "Key \<Rightarrow> string" where
  "EntryKey k = keyPrefix @ '':entry:'' @ ky_EntryID k"

definition IndexKey :: "Key \<Rightarrow> string" where
  "IndexKey k = keyPrefix @ '':index:'' @ ky_Fingerprint k"

definition teamKey :: "string \<Rightarrow> string" where
  "teamKey team = keyPrefix @ '':team:'' @ team"

definition TeamKey :: "Key \<Rightarrow> string" where
  "TeamKey k = teamKey (ky_TeamID k)"

definition ScopeKey :: "Key \<Rightarrow> string" where
  "ScopeKey k = keyPrefix @ '':scope:'' @ ky_ScopeID k"

section \<open>Lifetimes\<close>

record TTLRule =
  tr_Name :: string
  tr_TTL :: duration
  tr_Patterns :: "runes list"

record TTLPolicy =
  tp_Default :: duration
  tp_Max :: duration
  tp_Rules :: "TTLRule list"

text \<open>A lifetime, and None where the answer is not cached.\<close>

definition clampTTL :: "duration \<Rightarrow> duration \<Rightarrow> duration option" where
  "clampTTL d mx = (if d \<le> 0 then None else if mx > 0 \<and> d > mx then Some mx else Some d)"

definition rule_matches :: "(rune \<Rightarrow> rune) \<Rightarrow> runes \<Rightarrow> TTLRule \<Rightarrow> bool" where
  "rule_matches lc query rule = list_ex (contains (map lc query)) (tr_Patterns rule)"

definition TTLFor :: "(rune \<Rightarrow> rune) \<Rightarrow> TTLPolicy \<Rightarrow> runes \<Rightarrow> duration option \<Rightarrow> duration option" where
  "TTLFor lc p query override =
     (case override of
        Some d \<Rightarrow> clampTTL d (tp_Max p)
      | None \<Rightarrow>
          (case find (rule_matches lc query) (tp_Rules p) of
             Some rule \<Rightarrow> clampTTL (tr_TTL rule) (tp_Max p)
           | None \<Rightarrow> clampTTL (tp_Default p) (tp_Max p)))"

definition MatchedRule :: "(rune \<Rightarrow> rune) \<Rightarrow> TTLPolicy \<Rightarrow> runes \<Rightarrow> string" where
  "MatchedRule lc p query =
     (case find (rule_matches lc query) (tp_Rules p) of Some rule \<Rightarrow> tr_Name rule | None \<Rightarrow> [])"

section \<open>Lookup\<close>

type_synonym vector = "float32 list"

record Entry =
  en_Response :: runes
  en_FinishReason :: FinishReason
  en_InputTokens :: int
  en_OutputTokens :: int
  en_Model :: string
  en_Provider :: string
  en_CreatedAt :: "instant option"
  en_Hits :: int
  en_Embedding :: vector

datatype CacheTier = TierNone | TierExact | TierSemantic

record LookupConfig =
  lc_SemanticEnabled :: bool
  lc_Threshold :: rat

record LookupResult =
  lk_Hit :: bool
  lk_Tier :: CacheTier
  lk_Entry :: "Entry option"
  lk_Similarity :: rat
  lk_Embedding :: vector
  lk_EmbedLatency :: duration
  lk_Latency :: duration
  lk_Threshold :: rat

text \<open>
  The store as the lookup sees it, on a world \<open>'w\<close>. An outer None is an error; a read gives
  None where there is nothing.
\<close>

record 'w entryStore =
  es_Exact :: "Key \<Rightarrow> 'w \<Rightarrow> Entry option option \<times> 'w"
  es_Candidates :: "Key \<Rightarrow> 'w \<Rightarrow> (string list \<times> vector list) option \<times> 'w"
  es_Fetch :: "string \<Rightarrow> 'w \<Rightarrow> Entry option option \<times> 'w"
  es_Put :: "Key \<Rightarrow> Entry \<Rightarrow> duration \<Rightarrow> 'w \<Rightarrow> bool \<times> 'w"
  es_RecordHit :: "string \<Rightarrow> 'w \<Rightarrow> bool \<times> 'w"

record 'w SemCache =
  ca_store :: "'w entryStore"
  ca_embed :: "(runes \<Rightarrow> 'w \<Rightarrow> vector option \<times> 'w) option"
  ca_cfg :: LookupConfig
  ca_now :: "'w \<Rightarrow> instant"

definition Similarity :: "vector \<Rightarrow> vector \<Rightarrow> rat" where
  "Similarity a b = (if length a \<noteq> length b then 0 else sum_list (map2 (\<lambda>x y. f32_value x * f32_value y) a b))"

text \<open>The store returns as many identifiers as vectors.\<close>

fun nearest_from :: "vector \<Rightarrow> (string \<times> vector) list \<Rightarrow> string \<times> rat \<Rightarrow> string \<times> rat" where
  "nearest_from query [] best = best"
| "nearest_from query ((i, v) # cands) (bestID, best) =
     (if length v \<noteq> length query then nearest_from query cands (bestID, best)
      else if Similarity query v > best then nearest_from query cands (i, Similarity query v)
      else nearest_from query cands (bestID, best))"

definition nearest :: "vector \<Rightarrow> string list \<Rightarrow> vector list \<Rightarrow> string \<times> rat" where
  "nearest query ids vectors =
     (case nearest_from query (zip ids vectors) ([], - 2) of (bestID, best) \<Rightarrow> if bestID = [] then ([], 0) else (bestID, best))"

text \<open>How a lookup that began at \<open>start\<close> ends: the threshold and the latency are filled in last.\<close>

definition lookup_miss :: "'w SemCache \<Rightarrow> CacheTier \<Rightarrow> rat \<Rightarrow> vector \<Rightarrow> duration \<Rightarrow> instant \<Rightarrow> 'w \<Rightarrow> LookupResult" where
  "lookup_miss ca tier sim embedding embedLatency start w =
     \<lparr>lk_Hit = False, lk_Tier = tier, lk_Entry = None, lk_Similarity = sim, lk_Embedding = embedding,
      lk_EmbedLatency = embedLatency, lk_Latency = ca_now ca w - start, lk_Threshold = lc_Threshold (ca_cfg ca)\<rparr>"

definition lookup_hit :: "'w SemCache \<Rightarrow> CacheTier \<Rightarrow> Entry \<Rightarrow> rat \<Rightarrow> vector \<Rightarrow> duration \<Rightarrow> instant \<Rightarrow> 'w \<Rightarrow> LookupResult" where
  "lookup_hit ca tier e sim embedding embedLatency start w =
     \<lparr>lk_Hit = True, lk_Tier = tier, lk_Entry = Some e, lk_Similarity = sim, lk_Embedding = embedding,
      lk_EmbedLatency = embedLatency, lk_Latency = ca_now ca w - start, lk_Threshold = lc_Threshold (ca_cfg ca)\<rparr>"

definition Lookup :: "'w SemCache \<Rightarrow> Key \<Rightarrow> 'w \<Rightarrow> LookupResult \<times> 'w" where
  "Lookup ca k w =
     (let start = ca_now ca w in
      case es_Exact (ca_store ca) k w of
        (None, w1) \<Rightarrow> (lookup_miss ca TierExact 0 [] 0 start w1, w1)
      | (Some (Some e), w1) \<Rightarrow>
          (let w2 = snd (es_RecordHit (ca_store ca) (ky_EntryID k) w1)
           in (lookup_hit ca TierExact e 1 [] 0 start w2, w2))
      | (Some None, w1) \<Rightarrow>
          (case (if lc_SemanticEnabled (ca_cfg ca) then ca_embed ca else None) of
             None \<Rightarrow> (lookup_miss ca TierExact 0 [] 0 start w1, w1)
           | Some Embed \<Rightarrow>
               (case Embed (ky_Query k) w1 of
                  (res, w2) \<Rightarrow>
                    (let embedLatency = ca_now ca w2 - ca_now ca w1 in
                     case res of
                       None \<Rightarrow> (lookup_miss ca TierSemantic 0 [] embedLatency start w2, w2)
                     | Some v \<Rightarrow>
                         (case es_Candidates (ca_store ca) k w2 of
                            (None, w3) \<Rightarrow> (lookup_miss ca TierSemantic 0 v embedLatency start w3, w3)
                          | (Some (ids, vectors), w3) \<Rightarrow>
                              (case nearest v ids vectors of
                                 (bestID, best) \<Rightarrow>
                                   (if bestID = [] \<or> best < lc_Threshold (ca_cfg ca)
                                    then (lookup_miss ca TierSemantic best v embedLatency start w3, w3)
                                    else
                                      (case es_Fetch (ca_store ca) bestID w3 of
                                         (Some (Some e), w4) \<Rightarrow>
                                           (let w5 = snd (es_RecordHit (ca_store ca) bestID w4)
                                            in (lookup_hit ca TierSemantic e best v embedLatency start w5, w5))
                                       | (_, w4) \<Rightarrow> (lookup_miss ca TierSemantic best v embedLatency start w4, w4)))))))))"

definition Store :: "'w SemCache \<Rightarrow> Key \<Rightarrow> vector \<Rightarrow> Entry \<Rightarrow> duration \<Rightarrow> 'w \<Rightarrow> 'w" where
  "Store ca k embedding e ttl w = snd (es_Put (ca_store ca) k (e\<lparr>en_Embedding := embedding\<rparr>) ttl w)"

definition Cacheable :: "Response \<Rightarrow> bool" where
  "Cacheable resp \<longleftrightarrow> rs_Content resp \<noteq> [] \<and> rs_FinishReason resp = FinishStop"

section \<open>Serving from the cache\<close>

definition maxCacheTTLSeconds :: int where
  "maxCacheTTLSeconds = 365 * 24 * 60 * 60"

text \<open>The header's value is empty where the header is absent.\<close>

definition parseCacheTTLHeader :: "string \<Rightarrow> duration option" where
  "parseCacheTTLHeader raw =
     (if raw = [] then None
      else
        (case Atoi raw of
           None \<Rightarrow> None
         | Some secs \<Rightarrow> if secs < 0 \<or> secs > maxCacheTTLSeconds then None else Some (secs * second)))"

definition entry_response :: "Entry \<Rightarrow> Response" where
  "entry_response e =
     \<lparr>rs_Content = en_Response e, rs_FinishReason = en_FinishReason e,
      rs_Usage = \<lparr>us_InputTokens = en_InputTokens e, us_OutputTokens = en_OutputTokens e\<rparr>,
      rs_Model = en_Model e, rs_Provider = en_Provider e, rs_Latency = 0\<rparr>"

definition serveFromCache :: "string \<Rightarrow> int \<Rightarrow> Entry \<Rightarrow> http_reply" where
  "serveFromCache requestID created e = writeSuccess requestID created (entry_response e)"

definition replayChunkRunes :: nat where
  "replayChunkRunes = 24"

function split_runes :: "runes \<Rightarrow> runes list" where
  "split_runes t = (if t = [] then [] else take replayChunkRunes t # split_runes (drop replayChunkRunes t))"
  by pat_completeness auto
termination by (relation "measure length") (auto simp: replayChunkRunes_def)

declare split_runes.simps [simp del]

definition splitForReplay :: "runes \<Rightarrow> runes list" where
  "splitForReplay content = split_runes content"

definition content_chunk :: "runes \<Rightarrow> Chunk" where
  "content_chunk part = \<lparr>ck_Content = part, ck_FinishReason = FinishNone, ck_Usage = None\<rparr>"

definition finish_chunk :: "FinishReason \<Rightarrow> Chunk" where
  "finish_chunk reason = \<lparr>ck_Content = [], ck_FinishReason = reason, ck_Usage = None\<rparr>"

fun replay_parts :: "string \<Rightarrow> int \<Rightarrow> string \<Rightarrow> bool \<Rightarrow> runes list \<Rightarrow> FinishReason \<Rightarrow> sse_event list" where
  "replay_parts cid created model first [] reason =
     [SSEChunk (toChatChunk cid created model (finish_chunk reason) first), SSEDone]"
| "replay_parts cid created model first (part # parts) reason =
     SSEChunk (toChatChunk cid created model (content_chunk part) first) # replay_parts cid created model False parts reason"

text \<open>\<open>flushable\<close> tells whether the response writer can stream at all.\<close>

definition serveStreamFromCache :: "bool \<Rightarrow> string \<Rightarrow> int \<Rightarrow> Entry \<Rightarrow> http_reply" where
  "serveStreamFromCache flushable requestID created e =
     (if \<not> flushable then writeError 500 ''internal_error'' (ascii ''the gateway cannot stream a response'')
      else
        \<lparr>rp_Status = 200,
         rp_Headers = [(''Content-Type'', ''text/event-stream''), (''Cache-Control'', ''no-cache''), (''Connection'', ''keep-alive'')],
         rp_Body = StreamBody (replay_parts (chatCompletionID requestID) created (en_Model e) True
           (splitForReplay (en_Response e)) (en_FinishReason e))\<rparr>)"

section \<open>Encodings can be read back\<close>

lemma be_bytes_Suc: "be_bytes (Suc k) n = be_bytes k (n div 256) @ [n mod 256]"
proof -
  have "n div 256 ^ (k - i) mod 256 = n div 256 div 256 ^ (k - 1 - i) mod 256" if "i < k" for i
  proof -
    have "256 ^ (k - i) = 256 * (256 :: nat) ^ (k - 1 - i)" using that by (metis Suc_diff_Suc diff_Suc_eq_diff_pred power_Suc)
    then show ?thesis by (simp add: div_mult2_eq)
  qed
  then show ?thesis by (simp add: be_bytes_def)
qed

lemma be_bytes_inject: "be_bytes k m = be_bytes k n \<Longrightarrow> m < 256 ^ k \<Longrightarrow> n < 256 ^ k \<Longrightarrow> m = n"
proof (induction k arbitrary: m n)
  case (Suc k)
  then have "be_bytes k (m div 256) = be_bytes k (n div 256)" "m mod 256 = n mod 256" by (simp_all add: be_bytes_Suc)
  moreover have "m div 256 < 256 ^ k" "n div 256 < 256 ^ k" using Suc.prems by (simp_all add: less_mult_imp_div_less mult.commute)
  ultimately show ?case using Suc.IH by (metis div_mult_mod_eq)
qed simp

lemma be_bytes_bounded: "b \<in> set (be_bytes k n) \<Longrightarrow> b < 256"
  by (auto simp: be_bytes_def)

lemma length_be_bytes [simp]: "length (be_bytes k n) = k"
  by (simp add: be_bytes_def)

lemma of_char_bytes: "list_all (\<lambda>b. b < 256) xs \<Longrightarrow> map of_char (map (char_of :: nat \<Rightarrow> char) xs) = xs"
  by (induction xs) simp_all

lemma char_of_inject:
  assumes "list_all (\<lambda>b. b < 256) xs" "list_all (\<lambda>b. b < 256) ys"
  shows "map char_of xs = map (char_of :: nat \<Rightarrow> char) ys \<longleftrightarrow> xs = ys"
  using of_char_bytes [OF assms(1)] of_char_bytes [OF assms(2)] by metis

lemma hex_digit_inject: "m < 16 \<Longrightarrow> n < 16 \<Longrightarrow> hex_digit m = hex_digit n \<Longrightarrow> m = n"
  using nth_eq_iff_index_eq [of "''0123456789abcdef''" m n] by (simp add: hex_digit_def)

lemma EncodeToString_inject:
  "EncodeToString xs = EncodeToString ys \<Longrightarrow> list_all (\<lambda>b. b < 256) xs \<Longrightarrow> list_all (\<lambda>b. b < 256) ys \<Longrightarrow> xs = ys"
proof (induction xs arbitrary: ys)
  case Nil
  then show ?case by (cases ys) (simp_all add: EncodeToString_def)
next
  case (Cons x xs)
  then obtain y ys' where ys: "ys = y # ys'" by (cases ys) (simp_all add: EncodeToString_def)
  have "hex_digit (x div 16) = hex_digit (y div 16)" "hex_digit (x mod 16) = hex_digit (y mod 16)"
    "EncodeToString xs = EncodeToString ys'" using Cons.prems(1) ys by (simp_all add: EncodeToString_def)
  moreover have "x div 16 < 16" "y div 16 < 16" "x mod 16 < 16" "y mod 16 < 16" using Cons.prems(2,3) ys by (simp_all add: less_mult_imp_div_less)
  ultimately have "x div 16 = y div 16" "x mod 16 = y mod 16" using hex_digit_inject by blast+
  then have "x = y" by (metis div_mult_mod_eq)
  then show ?case using Cons ys \<open>EncodeToString xs = EncodeToString ys'\<close> by simp
qed

lemma Sum256_bytes: "list_all (\<lambda>b. b < 256) (Sum256 s)"
proof -
  have "list_all (\<lambda>b. b < 256) (concat (map (\<lambda>w. be_bytes 4 (f w)) ws))" for f and ws :: "32 word list"
    by (induction ws) (auto simp: list_all_iff dest: be_bytes_bounded)
  then show ?thesis unfolding Sum256_def .
qed

text \<open>Code points of Unicode.\<close>

definition valid_text :: "runes \<Rightarrow> bool" where
  "valid_text t \<longleftrightarrow> list_all (\<lambda>r. r < 1114112) t"

lemma utf8_rune_bytes:
  assumes "r < 1114112"
  shows "list_all (\<lambda>b. b < 256) (utf8_rune r)"
proof -
  have "128 + q mod 64 < 256" for q :: nat using mod_less_divisor [of 64 q] by linarith
  moreover have "r < 2048 \<longrightarrow> r div 64 < 64" "r < 65536 \<longrightarrow> r div 4096 < 32" "r div 262144 < 16"
    using assms by (simp_all add: less_mult_imp_div_less)
  ultimately show ?thesis by (auto simp: utf8_rune_def)
qed

lemma base64_digits:
  "(r div 64 :: nat) * 64 + r mod 64 = r" "r div 4096 * 4096 + r div 64 mod 64 * 64 + r mod 64 = r"
  "r div 262144 * 262144 + r div 4096 mod 64 * 4096 + r div 64 mod 64 * 64 + r mod 64 = r"
proof -
  have two: "q div 64 * 64 + q mod 64 = q" for q :: nat by (rule div_mult_mod_eq)
  have d: "r div 4096 = r div 64 div 64" "r div 262144 = r div 4096 div 64"
    using div_mult2_eq [of r 64 64] div_mult2_eq [of r 4096 64] by simp_all
  show "(r div 64) * 64 + r mod 64 = r" by (rule two)
  show three: "r div 4096 * 4096 + r div 64 mod 64 * 64 + r mod 64 = r" using two [of r] two [of "r div 64"] d(1) by linarith
  show "r div 262144 * 262144 + r div 4096 mod 64 * 4096 + r div 64 mod 64 * 64 + r mod 64 = r"
    using three two [of "r div 4096"] d(2) by linarith
qed

lemma utf8_read_rune:
  assumes "r < 1114112"
  shows "utf8_read (utf8_rune r @ bs) = r # utf8_read bs"
proof -
  consider "r < 128" | "128 \<le> r" "r < 2048" | "2048 \<le> r" "r < 65536" | "65536 \<le> r" by linarith
  then show ?thesis
  proof cases
    case 2
    have b: "r div 64 < 32" using 2 by (simp add: less_mult_imp_div_less)
    show ?thesis using 2 base64_digits(1) [of r] by (simp add: utf8_rune_def b)
  next
    case 3
    have b: "r div 4096 < 16" using 3 by (simp add: less_mult_imp_div_less)
    show ?thesis using 3 base64_digits(2) [of r] by (simp add: utf8_rune_def b)
  next
    case 4
    then show ?thesis using base64_digits(3) [of r] by (simp add: utf8_rune_def)
  qed (simp add: utf8_rune_def)
qed

lemma utf8_read_text: "valid_text t \<Longrightarrow> utf8_read (concat (map utf8_rune t) @ bs) = t @ utf8_read bs"
  by (induction t) (simp_all add: valid_text_def utf8_read_rune)

lemma text_of_utf8:
  assumes "valid_text t"
  shows "text_of (utf8 t) = t"
proof -
  have "list_all (\<lambda>b. b < 256) (concat (map utf8_rune t))"
    using assms utf8_rune_bytes by (auto simp: valid_text_def list_all_iff)
  then have "map of_char (utf8 t) = concat (map utf8_rune t)" unfolding utf8_def by (rule of_char_bytes)
  then show ?thesis using utf8_read_text [OF assms, of "[]"] by (simp add: text_of_def)
qed

lemma utf8_inject: "valid_text s \<Longrightarrow> valid_text t \<Longrightarrow> utf8 s = utf8 t \<longleftrightarrow> s = t"
  by (metis text_of_utf8)

lemma itoa_digits_show: "0 < n \<Longrightarrow> itoa_digits n tmp = show_nat (nat n) @ tmp"
proof (induction n tmp rule: itoa_digits.induct)
  case (1 n tmp)
  have d: "nat (n div 10) = nat n div 10" "nat (n mod 10) = nat n mod 10" using 1(2) by (simp_all add: nat_div_distrib nat_mod_distrib)
  show ?case
  proof (cases "n < 10")
    case True
    then show ?thesis using 1(2) d(2)
      by (simp add: itoa_digits.simps [of n] itoa_digits.simps [of 0] show_nat.simps [of "nat n"])
  next
    case False
    then have "0 < n div 10" "\<not> nat n < 10" by (simp_all add: pos_imp_zdiv_pos_iff nat_less_iff)
    then show ?thesis using 1 False d by (simp add: itoa_digits.simps [of n] show_nat.simps [of "nat n"])
  qed
qed

lemma itoa_inject: "0 \<le> m \<Longrightarrow> 0 \<le> n \<Longrightarrow> itoa m = itoa n \<longleftrightarrow> m = n"
proof -
  have "itoa k = show_nat (nat k)" if "0 \<le> k" for k
    using that by (cases "k = 0") (simp_all add: itoa_def itoa_digits_show show_nat.simps [of 0] digit_def Let_def)
  then show "0 \<le> m \<Longrightarrow> 0 \<le> n \<Longrightarrow> itoa m = itoa n \<longleftrightarrow> m = n" by (simp add: eq_nat_nat_iff)
qed

lemma ftoa_inject: "ftoa f = ftoa g \<longleftrightarrow> f = g"
proof
  assume "ftoa f = ftoa g"
  then have "be_bytes 4 (unat f) = be_bytes 4 (unat g)" unfolding ftoa_def
    by (rule EncodeToString_inject) (auto simp: list_all_iff dest: be_bytes_bounded)
  moreover have "unat f < 256 ^ 4" "unat g < 256 ^ 4" using unsigned_less [of f] unsigned_less [of g] by simp_all
  ultimately have "unat f = unat g" by (rule be_bytes_inject)
  then show "f = g" by (rule unsigned_word_eqI)
qed simp

lemma ftoa_not_nil: "ftoa f \<noteq> ''nil''"
  using length_EncodeToString [of "be_bytes 4 (unat f)"] by (auto simp: ftoa_def)

section \<open>Fields are separated\<close>

definition field_ok :: "string \<times> string \<Rightarrow> bool" where
  "field_ok f \<longleftrightarrow> CHR 0x00 \<notin> set (fst f) \<and> length (fst f) + length (snd f) + 1 < 2 ^ 64"

lemma writeField_inject:
  assumes "field_ok (n, v)" "field_ok (n', v')" "writeField n v @ x = writeField n' v' @ y"
  shows "n = n' \<and> v = v' \<and> x = y"
proof -
  let ?h = "\<lambda>n v. map char_of (be_bytes 8 (length n + length v + 1)) :: string"
  have "?h n v = ?h n' v'" and rest: "n @ CHR 0x00 # v @ x = n' @ CHR 0x00 # v' @ y"
    using assms(3) by (auto simp: writeField_def)
  then have "be_bytes 8 (length n + length v + 1) = be_bytes 8 (length n' + length v' + 1)"
    by (subst (asm) char_of_inject) (auto simp: list_all_iff dest: be_bytes_bounded)
  then have len: "length n + length v = length n' + length v'"
    using be_bytes_inject [of 8 "length n + length v + 1" "length n' + length v' + 1"] assms(1,2) by (simp add: field_ok_def)
  have "takeWhile (\<lambda>c. c \<noteq> CHR 0x00) (n @ CHR 0x00 # v @ x) = n" "takeWhile (\<lambda>c. c \<noteq> CHR 0x00) (n' @ CHR 0x00 # v' @ y) = n'"
    using assms(1,2) by (simp_all add: field_ok_def takeWhile_append takeWhile_eq_all_conv)
  then have "n = n'" using rest by simp
  then show ?thesis using rest len by simp
qed

lemma hash_fields_inject:
  "list_all field_ok fs \<Longrightarrow> list_all field_ok gs \<Longrightarrow> hash_fields fs = hash_fields gs \<Longrightarrow> fs = gs"
proof (induction fs arbitrary: gs)
  case Nil
  then show ?case by (cases gs) (auto simp: hash_fields_def writeField_def)
next
  case (Cons f fs)
  obtain g gs' where gs: "gs = g # gs'" using Cons.prems(3) by (cases gs) (auto simp: hash_fields_def writeField_def split: prod.splits)
  obtain n v n' v' where fg: "f = (n, v)" "g = (n', v')" by (metis prod.exhaust)
  have "writeField n v @ hash_fields fs = writeField n' v' @ hash_fields gs'"
    using Cons.prems(3) by (simp add: gs fg hash_fields_def)
  then have "n = n' \<and> v = v' \<and> hash_fields fs = hash_fields gs'"
    using Cons.prems(1,2) gs fg by (intro writeField_inject) simp_all
  then show ?case using Cons.IH [of gs'] Cons.prems(1,2) gs fg by simp
qed

abbreviation stop_fields :: "runes list \<Rightarrow> (string \<times> string) list" where
  "stop_fields ss \<equiv> map (\<lambda>s. (''stop'', utf8 s)) ss"

abbreviation message_fields :: "Message list \<Rightarrow> (string \<times> string) list" where
  "message_fields ms \<equiv> concat (map (\<lambda>m. [(''role'', msg_Role m), (''msg'', utf8 (msg_Content m))]) ms)"

lemma stop_message_split:
  assumes "stop_fields ss @ message_fields ms = stop_fields ts @ message_fields ns"
  shows "stop_fields ss = stop_fields ts \<and> message_fields ms = message_fields ns"
proof -
  have t: "takeWhile (\<lambda>f. fst f = ''stop'') (stop_fields ss @ message_fields ms) = stop_fields ss" for ss ms
    by (induction ss; cases ms; simp)
  show ?thesis using arg_cong [OF assms, of "takeWhile (\<lambda>f. fst f = ''stop'')"] assms unfolding t by simp
qed

lemma stop_fields_inject:
  "list_all valid_text ss \<Longrightarrow> list_all valid_text ts \<Longrightarrow> stop_fields ss = stop_fields ts \<Longrightarrow> ss = ts"
proof (induction ss arbitrary: ts)
  case (Cons s ss)
  then obtain t ts' where ts: "ts = t # ts'" by (cases ts) simp_all
  have "s = t" using Cons.prems ts utf8_inject [of s t] by simp
  then show ?case using Cons.IH [of ts'] Cons.prems ts by simp
qed simp

lemma message_fields_inject:
  "list_all (valid_text \<circ> msg_Content) ms \<Longrightarrow> list_all (valid_text \<circ> msg_Content) ns \<Longrightarrow>
   message_fields ms = message_fields ns \<Longrightarrow> ms = ns"
proof (induction ms arbitrary: ns)
  case Nil
  then show ?case by (cases ns) simp_all
next
  case (Cons m ms)
  then obtain n ns' where ns: "ns = n # ns'" by (cases ns) simp_all
  have "msg_Role m = msg_Role n" "msg_Content m = msg_Content n"
    using Cons.prems ns utf8_inject [of "msg_Content m" "msg_Content n"] by simp_all
  then have "m = n" by simp
  then show ?case using Cons.IH [of ns'] Cons.prems ns by simp
qed

text \<open>
  A request the key is defined for as intended: valid texts, a ceiling that is not negative,
  and no field too long for its length prefix.
\<close>

definition key_input :: "Scope \<Rightarrow> Request \<Rightarrow> bool" where
  "key_input scope req \<longleftrightarrow>
     0 \<le> rq_MaxTokens req \<and> list_all valid_text (rq_Stop req) \<and>
     list_all (valid_text \<circ> msg_Content) (rq_Messages req) \<and> list_all field_ok (key_fields scope req) \<and>
     length (utf8 (key_query req)) < 2 ^ 63"

text \<open>The bytes hashed for the fingerprint and for the entry.\<close>

definition fingerprint_bytes :: "Scope \<Rightarrow> Request \<Rightarrow> string" where
  "fingerprint_bytes s r = hash_fields (key_fields s r)"

definition entry_bytes :: "Scope \<Rightarrow> Request \<Rightarrow> string" where
  "entry_bytes s r = hash_fields [(''fp'', ky_Fingerprint (NewKey s r)), (''q'', utf8 (key_query r))]"

text \<open>Two callers whose answers are shared: one team, or one organization neither of them is isolated in.\<close>

definition same_tenant :: "Scope \<Rightarrow> Scope \<Rightarrow> bool" where
  "same_tenant s s' \<longleftrightarrow>
     (if sc_Isolated s \<or> sc_Org s = [] then (sc_Isolated s' \<or> sc_Org s' = []) \<and> sc_Team s = sc_Team s'
      else \<not> (sc_Isolated s' \<or> sc_Org s' = []) \<and> sc_Org s = sc_Org s')"

lemma key_fields_inject:
  assumes "key_input s r" "key_input s' r'" "key_fields s r = key_fields s' r'"
  shows "Scope_ID s = Scope_ID s' \<and> rq_Model r = rq_Model r' \<and> rq_MaxTokens r = rq_MaxTokens r' \<and>
    rq_Temperature r = rq_Temperature r' \<and> rq_Stop r = rq_Stop r' \<and> butlast (rq_Messages r) = butlast (rq_Messages r')"
proof -
  have heads: "Scope_ID s = Scope_ID s'" "rq_Model r = rq_Model r'" "itoa (rq_MaxTokens r) = itoa (rq_MaxTokens r')"
    "(case rq_Temperature r of None \<Rightarrow> ''nil'' | Some t \<Rightarrow> ftoa t) = (case rq_Temperature r' of None \<Rightarrow> ''nil'' | Some t \<Rightarrow> ftoa t)"
    and rest: "stop_fields (rq_Stop r) @ message_fields (butlast (rq_Messages r)) =
      stop_fields (rq_Stop r') @ message_fields (butlast (rq_Messages r'))"
    using assms(3) by (simp_all add: key_fields_def)
  have "rq_Temperature r = rq_Temperature r'"
    using heads(4) ftoa_not_nil ftoa_inject by (auto split: option.splits)
  moreover have "rq_MaxTokens r = rq_MaxTokens r'" using heads(3) assms(1,2) by (simp add: key_input_def itoa_inject)
  moreover have "rq_Stop r = rq_Stop r'"
    using stop_fields_inject [of "rq_Stop r" "rq_Stop r'"] stop_message_split [OF rest] assms(1,2) by (simp add: key_input_def)
  moreover have "list_all (valid_text \<circ> msg_Content) (butlast (rq_Messages r))"
    "list_all (valid_text \<circ> msg_Content) (butlast (rq_Messages r'))"
    using assms(1,2) by (auto simp: key_input_def list_all_iff dest: in_set_butlastD)
  then have "butlast (rq_Messages r) = butlast (rq_Messages r')"
    using message_fields_inject stop_message_split [OF rest] by blast
  ultimately show ?thesis using heads(1,2) by simp
qed

lemma set_join: "set (join sep xs) \<subseteq> set sep \<union> set (concat xs)"
  by (induction sep xs rule: join.induct) auto

lemma set_Fields: "set (concat (Fields s)) \<subseteq> set s"
proof (induction s rule: Fields.induct)
  case (1 s)
  let ?t = "dropWhile is_space s"
  have "set ?t \<subseteq> set s" "set (takeWhile (\<lambda>c. \<not> is_space c) ?t) \<subseteq> set ?t"
    "set (dropWhile (\<lambda>c. \<not> is_space c) ?t) \<subseteq> set ?t"
    by (auto dest: set_dropWhileD set_takeWhileD)
  then show ?case using 1 [OF refl] by (subst Fields.simps) (auto simp: Let_def)
qed

lemma valid_query:
  assumes "list_all (valid_text \<circ> msg_Content) (rq_Messages req)"
  shows "valid_text (key_query req)"
proof (cases "rq_Messages req = []")
  case False
  then have "valid_text (msg_Content (last (rq_Messages req)))" using assms by (simp add: list_all_iff)
  moreover have "set (normalizeQuery t) \<subseteq> insert 32 (set t)" for t
    using set_join [of "[32]" "Fields t"] set_Fields [of t] by (auto simp: normalizeQuery_def)
  then have "valid_text (normalizeQuery t)" if "valid_text t" for t
    using that by (fastforce simp: valid_text_def list_all_iff)
  ultimately show ?thesis using False by (simp add: key_query_def)
qed (simp add: key_query_def valid_text_def)

lemma Scope_ID_inject:
  "Scope_ID s = Scope_ID s' \<Longrightarrow> same_tenant s s'"
  by (auto simp: Scope_ID_def same_tenant_def split: if_splits)

section \<open>Facts on lookups\<close>

lemma nearest_from_best:
  assumes "nearest_from q cands (b0, s0) = (b, s)"
  shows "s0 \<le> s" "\<forall>(i, v) \<in> set cands. length v = length q \<longrightarrow> Similarity q v \<le> s"
    "(b, s) = (b0, s0) \<or> (\<exists>v. (b, v) \<in> set cands \<and> length v = length q \<and> s = Similarity q v)"
proof -
  have "s0 \<le> s \<and> (\<forall>(i, v) \<in> set cands. length v = length q \<longrightarrow> Similarity q v \<le> s) \<and>
      ((b, s) = (b0, s0) \<or> (\<exists>v. (b, v) \<in> set cands \<and> length v = length q \<and> s = Similarity q v))"
    using assms by (induction q cands "(b0, s0)" arbitrary: b0 s0 rule: nearest_from.induct) (force split: if_splits)+
  then show "s0 \<le> s" "\<forall>(i, v) \<in> set cands. length v = length q \<longrightarrow> Similarity q v \<le> s"
    "(b, s) = (b0, s0) \<or> (\<exists>v. (b, v) \<in> set cands \<and> length v = length q \<and> s = Similarity q v)" by blast+
qed

lemma nearest_best:
  assumes "nearest q ids vs = (b, s)" "b \<noteq> []"
  shows "\<exists>v. (b, v) \<in> set (zip ids vs) \<and> length v = length q \<and> s = Similarity q v \<and>
    (\<forall>(i, v') \<in> set (zip ids vs). length v' = length q \<longrightarrow> Similarity q v' \<le> s)"
proof -
  obtain b' s' where n: "nearest_from q (zip ids vs) ([], - 2) = (b', s')" by (rule prod.exhaust)
  then have "b' = b" "s' = s" using assms by (auto simp: nearest_def split: if_splits)
  then show ?thesis using nearest_from_best [OF n] assms(2) by auto
qed

section \<open>Facts on replays\<close>

lemma split_runes_concat: "concat (split_runes t) = t"
  by (induction t rule: split_runes.induct) (subst split_runes.simps, simp)

lemma split_runes_sizes: "p \<in> set (split_runes t) \<Longrightarrow> p \<noteq> [] \<and> length p \<le> replayChunkRunes"
proof (induction t rule: split_runes.induct)
  case (1 t)
  then show ?case by (subst (asm) (2) split_runes.simps) (auto simp: replayChunkRunes_def split: if_splits)
qed

text \<open>What a client makes of a stream: its contents in order and the reason it ended for.\<close>

fun assemble :: "sse_event list \<Rightarrow> runes \<times> string option" where
  "assemble (SSEChunk c # es) =
     (case assemble es of
        (rest, finish) \<Rightarrow>
          (concat (map (\<lambda>ch. cd_Content (ck_Delta ch)) (cc_Choices c)) @ rest,
           if finish = None \<and> cc_Choices c \<noteq> [] then ck_Finish (last (cc_Choices c)) else finish))"
| "assemble _ = ([], None)"

definition event_role :: "sse_event \<Rightarrow> string list" where
  "event_role ev = (case ev of SSEChunk c \<Rightarrow> map (\<lambda>ch. cd_Role (ck_Delta ch)) (cc_Choices c) | _ \<Rightarrow> [])"

lemma assemble_replay:
  "assemble (replay_parts cid created model first parts reason) =
     (concat parts, if reason = FinishNone then None else Some (wireFinishReason reason))"
  by (induction cid created model first parts reason rule: replay_parts.induct)
    (auto simp: toChatChunk_def finish_chunk_def content_chunk_def split: if_splits)

lemma replay_shape:
  "last (replay_parts cid created model first parts reason) = SSEDone \<and>
   (\<forall>ev \<in> set (butlast (replay_parts cid created model first parts reason)).
      \<exists>c. ev = SSEChunk c \<and> cc_ID c = cid \<and> cc_Model c = model) \<and>
   concat (map event_role (replay_parts cid created model first parts reason)) =
     (if first then RoleAssistant else []) # replicate (length parts) []"
  by (induction cid created model first parts reason rule: replay_parts.induct)
    (auto simp: toChatChunk_def event_role_def replicate_append_same [symmetric] split: if_splits)

section \<open>Properties of the cache\<close>

text \<open>
  C12. Two requests that share a cache entry are the same request up to the spacing of the last
  message: same tenant scope, model, token ceiling, temperature to the bit, stop sequences,
  earlier messages with their roles, and the same last message once its white space is
  collapsed. Otherwise the two byte strings hashed, of the fingerprint or of the entry, are a
  collision of SHA-256.
\<close>

theorem entry_identifies_request:
  assumes "key_input s r" "key_input s' r'" "ky_EntryID (NewKey s r) = ky_EntryID (NewKey s' r')"
  shows "(same_tenant s s' \<and> rq_Model r = rq_Model r' \<and> rq_MaxTokens r = rq_MaxTokens r' \<and>
      rq_Temperature r = rq_Temperature r' \<and> rq_Stop r = rq_Stop r' \<and>
      butlast (rq_Messages r) = butlast (rq_Messages r') \<and> key_query r = key_query r') \<or>
    fingerprint_bytes s r \<noteq> fingerprint_bytes s' r' \<and> Sum256 (fingerprint_bytes s r) = Sum256 (fingerprint_bytes s' r') \<or>
    entry_bytes s r \<noteq> entry_bytes s' r' \<and> Sum256 (entry_bytes s r) = Sum256 (entry_bytes s' r')"
    (is "?same \<or> ?collision")
proof (rule disjCI)
  assume no: "\<not> ?collision"
  have "Sum256 (entry_bytes s r) = Sum256 (entry_bytes s' r')"
    using assms(3) EncodeToString_inject [OF _ Sum256_bytes Sum256_bytes]
    by (simp add: NewKey_def entry_bytes_def Let_def)
  then have "entry_bytes s r = entry_bytes s' r'" using no by blast
  moreover have "list_all field_ok [(''fp'', ky_Fingerprint (NewKey s r)), (''q'', utf8 (key_query r))]"
    if "key_input s r" for s r
    using that by (simp add: key_input_def field_ok_def NewKey_def Let_def length_EncodeToString length_Sum256)
  ultimately have e: "ky_Fingerprint (NewKey s r) = ky_Fingerprint (NewKey s' r')" "utf8 (key_query r) = utf8 (key_query r')"
    using hash_fields_inject assms(1,2) unfolding entry_bytes_def by blast+
  have "Sum256 (fingerprint_bytes s r) = Sum256 (fingerprint_bytes s' r')"
    using e(1) EncodeToString_inject [OF _ Sum256_bytes Sum256_bytes]
    by (simp add: NewKey_def fingerprint_bytes_def Let_def)
  then have "fingerprint_bytes s r = fingerprint_bytes s' r'" using no by blast
  then have "key_fields s r = key_fields s' r'"
    using hash_fields_inject assms(1,2) unfolding fingerprint_bytes_def key_input_def by blast
  note f = key_fields_inject [OF assms(1,2) this]
  have "valid_text (key_query r)" "valid_text (key_query r')" using assms(1,2) valid_query by (simp_all add: key_input_def)
  then have "key_query r = key_query r'" using e(2) utf8_inject by blast
  then show ?same using f Scope_ID_inject [of s s'] by simp
qed

text \<open>Two calls of one organization that differ in spacing and in streaming only.\<close>

definition ask :: "string \<Rightarrow> bool \<Rightarrow> Request" where
  "ask q stream =
     \<lparr>rq_Model = ''fast'', rq_Messages = [\<lparr>msg_Role = ''system'', msg_Content = ascii ''be brief''\<rparr>, \<lparr>msg_Role = ''user'', msg_Content = ascii q\<rparr>],
      rq_Temperature = None, rq_MaxTokens = 64, rq_Stream = stream, rq_Stop = [ascii ''END'']\<rparr>"

definition caller :: "string \<Rightarrow> Scope" where
  "caller team = \<lparr>sc_Org = ''acme'', sc_Team = team, sc_Isolated = False\<rparr>"

lemma ask_query: "key_query (ask ''why  so'' b) = ascii ''why so''" "key_query (ask '' why so'' b) = ascii ''why so''"
  by (simp_all add: key_query_def ask_def normalizeQuery_def ascii_def Fields.simps is_space_def)

lemma ask_fields: "key_fields (caller t) (ask q b) = key_fields (caller ''a'') (ask [] False)"
  by (simp add: key_fields_def caller_def ask_def Scope_ID_def)

lemma field_ok_short: "CHR 0x00 \<notin> set (fst f) \<and> length (fst f) + length (snd f) < 100 \<Longrightarrow> field_ok f"
  by (simp add: field_ok_def)

lemma ask_input: "key_input (caller t) (ask q b)" if q: "q = ''why  so'' \<or> q = '' why so''"
proof -
  have "list_all (\<lambda>f. CHR 0x00 \<notin> set (fst f) \<and> length (fst f) + length (snd f) < 100)
    (key_fields (caller ''a'') (ask [] False))"
    by code_simp
  then have "list_all field_ok (key_fields (caller t) (ask q b))"
    using field_ok_short unfolding ask_fields [of t q b] by (rule list.pred_mono_strong)
  moreover have "valid_text (ascii ''END'')" "valid_text (ascii ''be brief'')"
    "valid_text (ascii ''why  so'')" "valid_text (ascii '' why so'')"
    by (simp_all add: valid_text_def ascii_def)
  moreover have "length (utf8 (ascii ''why so'')) < 2 ^ 63" by (simp add: utf8_def utf8_rune_def ascii_def)
  ultimately show ?thesis using q ask_query [of b] unfolding key_input_def by (elim disjE) (simp_all add: ask_def)
qed

lemma same_inputs_same_entry:
  assumes "key_fields s r = key_fields s' r'" "key_query r = key_query r'"
  shows "ky_EntryID (NewKey s r) = ky_EntryID (NewKey s' r')" "fingerprint_bytes s r = fingerprint_bytes s' r'"
    "entry_bytes s r = entry_bytes s' r'"
  using assms by (simp_all add: NewKey_def Let_def fingerprint_bytes_def entry_bytes_def)

theorem entry_identifies_request_witness:
  "same_tenant (caller ''a'') (caller ''b'') \<and> rq_Stop (ask ''why  so'' False) = rq_Stop (ask '' why so'' True) \<and>
   key_query (ask ''why  so'' False) = key_query (ask '' why so'' True)"
proof -
  let ?r = "ask ''why  so'' False" and ?r' = "ask '' why so'' True"
  have "key_fields (caller ''a'') ?r = key_fields (caller ''b'') ?r'"
    using ask_fields [of "''a''" "''why  so''" False] ask_fields [of "''b''" "'' why so''" True] by (rule trans [OF _ sym])
  moreover have "key_query ?r = key_query ?r'" by (simp only: ask_query)
  ultimately have same: "ky_EntryID (NewKey (caller ''a'') ?r) = ky_EntryID (NewKey (caller ''b'') ?r')"
    "fingerprint_bytes (caller ''a'') ?r = fingerprint_bytes (caller ''b'') ?r'"
    "entry_bytes (caller ''a'') ?r = entry_bytes (caller ''b'') ?r'"
    by (rule same_inputs_same_entry)+
  have "key_input (caller ''a'') ?r" "key_input (caller ''b'') ?r'" by (rule ask_input, blast)+
  from entry_identifies_request [OF this same(1)] show ?thesis using same(2,3) by (elim disjE conjE) simp_all
qed

text \<open>The role of the last message is in neither hash: requests that differ in it share an entry.\<close>

lemma last_role_ignored:
  "NewKey s (r\<lparr>rq_Messages := ms @ [\<lparr>msg_Role = role, msg_Content = c\<rparr>]\<rparr>) =
   NewKey s (r\<lparr>rq_Messages := ms @ [\<lparr>msg_Role = role', msg_Content = c\<rparr>]\<rparr>)"
  by (simp add: NewKey_def key_fields_def key_query_def)


text \<open>
  C13. A cached answer replayed as a stream is the cached answer: a client that puts the events
  together gets the text, and the finish reason, that the plain reply from the cache has. The
  text is cut into non-empty pieces of at most 24 code points, the role comes with the first
  event and no other, every event but the last is a chunk under the request's identifier and
  the entry's model, and the last is the end marker.
\<close>

theorem replay_roundtrip:
  shows "\<exists>evs resp. rp_Body (serveStreamFromCache True rid created e) = StreamBody evs \<and>
    rp_Body (serveFromCache rid created e) = ChatBody resp \<and>
    map (\<lambda>c. (cm_Content (ch_Message c))) (cp_Choices resp) = [fst (assemble evs)] \<and> fst (assemble evs) = en_Response e \<and>
    (en_FinishReason e \<noteq> FinishNone \<longrightarrow> map ch_FinishReason (cp_Choices resp) = [the (snd (assemble evs))]) \<and>
    (\<forall>p \<in> set (splitForReplay (en_Response e)). p \<noteq> [] \<and> length p \<le> 24) \<and>
    concat (map event_role evs) = RoleAssistant # replicate (length (splitForReplay (en_Response e))) [] \<and>
    last evs = SSEDone \<and>
    (\<forall>ev \<in> set (butlast evs). \<exists>c. ev = SSEChunk c \<and> cc_ID c = cp_ID resp \<and> cc_Model c = cp_Model resp)"
proof -
  let ?parts = "splitForReplay (en_Response e)"
  let ?evs = "replay_parts (chatCompletionID rid) created (en_Model e) True ?parts (en_FinishReason e)"
  let ?resp = "toChatResponse rid created (entry_response e)"
  have "fst (assemble ?evs) = en_Response e" by (simp add: assemble_replay splitForReplay_def split_runes_concat)
  moreover have "en_FinishReason e \<noteq> FinishNone \<Longrightarrow> snd (assemble ?evs) = Some (wireFinishReason (en_FinishReason e))"
    by (simp add: assemble_replay)
  moreover have "\<forall>p \<in> set ?parts. p \<noteq> [] \<and> length p \<le> 24"
    using split_runes_sizes [of _ "en_Response e"] by (simp add: splitForReplay_def replayChunkRunes_def)
  moreover have "cp_ID ?resp = chatCompletionID rid" "cp_Model ?resp = en_Model e"
    by (simp_all add: toChatResponse_def entry_response_def)
  ultimately show ?thesis
    using replay_shape [of "chatCompletionID rid" created "en_Model e" True ?parts "en_FinishReason e"]
    by (intro exI [of _ ?evs] exI [of _ ?resp])
      (auto simp: serveStreamFromCache_def serveFromCache_def writeSuccess_def toChatResponse_def entry_response_def)
qed

text \<open>An entry, and a store whose index holds two candidates, the nearer of which is stored.\<close>

definition demo_entry :: Entry where
  "demo_entry =
     \<lparr>en_Response = ascii ''because the sky scatters light'', en_FinishReason = FinishStop, en_InputTokens = 4, en_OutputTokens = 6,
      en_Model = ''fast'', en_Provider = ''p'', en_CreatedAt = None, en_Hits = 0, en_Embedding = [0x3F800000]\<rparr>"

definition demo_store :: "nat entryStore" where
  "demo_store =
     \<lparr>es_Exact = (\<lambda>k w. (Some None, w)), es_Candidates = (\<lambda>k w. (Some ([''far'', ''near''], [[0], [0x3F800000]]), w)),
      es_Fetch = (\<lambda>i w. (Some (if i = ''near'' then Some demo_entry else None), w)),
      es_Put = (\<lambda>k e ttl w. (True, w)), es_RecordHit = (\<lambda>i w. (True, w + 1))\<rparr>"

definition demo_cache :: "nat SemCache" where
  "demo_cache =
     \<lparr>ca_store = demo_store, ca_embed = Some (\<lambda>q w. (Some [0x3F800000], w)),
      ca_cfg = \<lparr>lc_SemanticEnabled = True, lc_Threshold = 9 / 10\<rparr>, ca_now = int\<rparr>"

lemma demo_lookup: "Lookup demo_cache k 0 = (lookup_hit demo_cache TierSemantic demo_entry 1 [0x3F800000] 0 0 1, 1)"
proof -
  have "Similarity [0x3F800000] [0] = 0" "Similarity [0x3F800000] [0x3F800000] = 1"
    by (simp_all add: Similarity_def f32_value_def Let_def take_bit_word_eq_self)
  then show ?thesis by (simp add: Lookup_def demo_cache_def demo_store_def nearest_def lookup_hit_def)
qed


theorem replay_roundtrip_witness:
  "\<exists>evs. rp_Body (serveStreamFromCache True ''r'' 0 demo_entry) = StreamBody evs \<and>
     assemble evs = (ascii ''because the sky scatters light'', Some ''stop'')"
  using replay_roundtrip [of "''r''" 0 demo_entry]
proof (elim exE conjE)
  fix evs resp
  assume "rp_Body (serveStreamFromCache True ''r'' 0 demo_entry) = StreamBody evs" "fst (assemble evs) = en_Response demo_entry"
  then show ?thesis
    by (auto simp: demo_entry_def serveStreamFromCache_def wireFinishReason_def assemble_replay prod_eq_iff)
qed

end
