(* ===== verification/Chaos.thy ===== *)
theory Chaos
  imports Resilience Wire
begin

text \<open>
  The fault injector of the request path (\<open>internal/proxy/chaos.go\<close>). Its rules are set as a
  whole and only where the harness is available, which construction alone decides. The lock is
  left out: every method is one critical section.
\<close>

section \<open>Rules\<close>

definition devEnvironment :: string where
  "devEnvironment = ''dev''"

datatype ChaosMode = ChaosError | ChaosLatency | ChaosRateLimit | ChaosDrop | ChaosPanic | UnknownMode string

definition chaosRateLimitRetryAfter :: duration where
  "chaosRateLimitRetryAfter = second"

record ChaosRule =
  xr_Provider :: string
  xr_Model :: string
  xr_Mode :: ChaosMode
  xr_Latency :: duration

datatype ChaosRuleError = NoTarget | LatencyMeaningless ChaosMode | LatencyRequired | BadMode string

definition ChaosRule_validate :: "ChaosRule \<Rightarrow> ChaosRuleError option" where
  "ChaosRule_validate r =
     (if xr_Provider r = [] \<and> xr_Model r = [] then Some NoTarget
      else
        (case xr_Mode r of
           ChaosLatency \<Rightarrow> if xr_Latency r \<le> 0 then Some LatencyRequired else None
         | UnknownMode m \<Rightarrow> Some (BadMode m)
         | mode \<Rightarrow> if xr_Latency r \<noteq> 0 then Some (LatencyMeaningless mode) else None))"

definition ChaosRule_matches :: "ChaosRule \<Rightarrow> string \<Rightarrow> string \<Rightarrow> bool" where
  "ChaosRule_matches r providerName model =
     (if xr_Provider r \<noteq> [] \<and> xr_Provider r \<noteq> providerName then False
      else if xr_Model r \<noteq> [] \<and> xr_Model r \<noteq> model then False
      else True)"

section \<open>The harness\<close>

record Chaos =
  xs_available :: bool
  xs_rules :: "ChaosRule list"

definition NewChaos :: "string \<Rightarrow> bool \<Rightarrow> Chaos" where
  "NewChaos env enabled = \<lparr>xs_available = (env = devEnvironment \<and> enabled), xs_rules = []\<rparr>"

text \<open>The methods accept a missing harness.\<close>

definition Chaos_Available :: "Chaos option \<Rightarrow> bool" where
  "Chaos_Available c = (case c of None \<Rightarrow> False | Some h \<Rightarrow> xs_available h)"

definition Chaos_Rules :: "Chaos option \<Rightarrow> ChaosRule list" where
  "Chaos_Rules c = (case c of None \<Rightarrow> [] | Some h \<Rightarrow> xs_rules h)"

datatype ChaosSetError = ErrChaosUnavailable | BadRule nat ChaosRuleError

fun first_bad_rule :: "nat \<Rightarrow> ChaosRule list \<Rightarrow> ChaosSetError option" where
  "first_bad_rule i [] = None"
| "first_bad_rule i (r # rs) =
     (case ChaosRule_validate r of Some e \<Rightarrow> Some (BadRule i e) | None \<Rightarrow> first_bad_rule (i + 1) rs)"

definition SetRules :: "ChaosRule list \<Rightarrow> Chaos option \<Rightarrow> ChaosSetError option \<times> Chaos option" where
  "SetRules rules c =
     (if \<not> Chaos_Available c then (Some ErrChaosUnavailable, c)
      else
        (case first_bad_rule 0 rules of
           Some e \<Rightarrow> (Some e, c)
         | None \<Rightarrow> (None, map_option (xs_rules_update (\<lambda>_. rules)) c)))"

definition Chaos_Clear :: "Chaos option \<Rightarrow> ChaosSetError option \<times> Chaos option" where
  "Chaos_Clear c =
     (if \<not> Chaos_Available c then (Some ErrChaosUnavailable, c)
      else (None, map_option (xs_rules_update (\<lambda>_. [])) c))"

section \<open>Injection\<close>

definition chaosError :: "string \<Rightarrow> string \<Rightarrow> Kind \<Rightarrow> int \<Rightarrow> string \<Rightarrow> PError" where
  "chaosError providerName model kind status message =
     \<lparr>pe_Kind = kind, pe_Provider = providerName, pe_Model = model, pe_StatusCode = status, pe_Retryable = True,
      pe_RetryAfter = 0, pe_Message = ascii message, pe_Err = None\<rparr>"

definition chaosFault :: "ChaosRule \<Rightarrow> string \<Rightarrow> string \<Rightarrow> PError" where
  "chaosFault rule providerName model =
     (case xr_Mode rule of
        ChaosRateLimit \<Rightarrow>
          (chaosError providerName model KindRateLimited 429 ''chaos: injected rate limit'')
            \<lparr>pe_RetryAfter := chaosRateLimitRetryAfter\<rparr>
      | ChaosDrop \<Rightarrow> chaosError providerName model KindNetworkError 0 ''chaos: injected connection drop''
      | _ \<Rightarrow> chaosError providerName model KindServerError 502 ''chaos: injected provider error'')"

text \<open>
  What the hook makes of a call. \<open>wait\<close> is the race of a delay against the caller's context:
  it tells whether the context ended first.
\<close>

datatype injected = Proceed | Fault PError | InjectedPanic

definition Chaos_Apply ::
  "(duration \<Rightarrow> 'w \<Rightarrow> bool \<times> 'w) \<Rightarrow> Chaos option \<Rightarrow> string \<Rightarrow> string \<Rightarrow> 'w \<Rightarrow> injected \<times> 'w" where
  "Chaos_Apply wait c providerName model w =
     (if \<not> Chaos_Available c then (Proceed, w)
      else
        (case find (\<lambda>r. ChaosRule_matches r providerName model) (Chaos_Rules c) of
           None \<Rightarrow> (Proceed, w)
         | Some rule \<Rightarrow>
             (if xr_Mode rule = ChaosPanic then (InjectedPanic, w)
              else if xr_Mode rule = ChaosLatency then
                (case wait (xr_Latency rule) w of
                   (over, w') \<Rightarrow>
                     (if over
                      then (Fault (chaosError providerName model KindTimeout 504
                              ''chaos: injected latency exceeded the request deadline''), w')
                      else (Proceed, w')))
              else (Fault (chaosFault rule providerName model), w))))"

section \<open>Facts on the harness\<close>

text \<open>What an operator can do to the harness.\<close>

datatype chaos_op = OpSetRules "ChaosRule list" | OpClear

fun chaos_do :: "chaos_op \<Rightarrow> Chaos option \<Rightarrow> Chaos option" where
  "chaos_do (OpSetRules rules) c = snd (SetRules rules c)"
| "chaos_do OpClear c = snd (Chaos_Clear c)"

lemma chaos_do_available: "Chaos_Available (fold chaos_do ops c) = Chaos_Available c"
proof (induction ops arbitrary: c)
  case (Cons op ops)
  have "Chaos_Available (chaos_do op c) = Chaos_Available c"
    by (cases op; cases c) (simp_all add: SetRules_def Chaos_Clear_def Chaos_Available_def split: option.splits)
  then show ?case using Cons by simp
qed simp

lemma first_bad_rule_None: "first_bad_rule i rules = None \<longleftrightarrow> (\<forall>r \<in> set rules. ChaosRule_validate r = None)"
  by (induction rules arbitrary: i) (auto split: option.splits)

lemma chaos_do_valid:
  "\<forall>r \<in> set (Chaos_Rules c). ChaosRule_validate r = None \<Longrightarrow>
   \<forall>r \<in> set (Chaos_Rules (chaos_do op c)). ChaosRule_validate r = None"
  by (cases op; cases c)
    (simp_all add: SetRules_def Chaos_Clear_def Chaos_Rules_def first_bad_rule_None split: option.splits)

lemma chaos_rules_valid: "r \<in> set (Chaos_Rules (fold chaos_do ops (Some (NewChaos env enabled)))) \<Longrightarrow> ChaosRule_validate r = None"
proof -
  have "\<forall>r \<in> set (Chaos_Rules c). ChaosRule_validate r = None \<Longrightarrow>
      \<forall>r \<in> set (Chaos_Rules (fold chaos_do ops c)). ChaosRule_validate r = None" for c
  proof (induction ops arbitrary: c)
    case (Cons op ops)
    from Cons.IH [OF chaos_do_valid [OF Cons.prems]] show ?case by simp
  qed simp
  from this [of "Some (NewChaos env enabled)"]
  show "r \<in> set (Chaos_Rules (fold chaos_do ops (Some (NewChaos env enabled)))) \<Longrightarrow> ChaosRule_validate r = None"
    by (simp add: NewChaos_def Chaos_Rules_def)
qed

lemma chaosFault_retryable: "pe_Retryable (chaosFault rule p m) \<and> ShouldFallback (ProviderErr (chaosFault rule p m))"
  by (simp add: chaosFault_def chaosError_def ShouldFallback_def split: ChaosMode.splits)

lemma chaosFault_target: "pe_Provider (chaosFault rule p m) = p \<and> pe_Model (chaosFault rule p m) = m"
  by (simp add: chaosFault_def chaosError_def split: ChaosMode.splits)

lemma Chaos_Apply_fault:
  assumes "Chaos_Apply wait c p m w = (Fault e, w')"
  shows "(\<exists>rule. e = chaosFault rule p m) \<or>
    e = chaosError p m KindTimeout 504 ''chaos: injected latency exceeded the request deadline''"
proof (cases "find (\<lambda>r. ChaosRule_matches r p m) (Chaos_Rules c)")
  case (Some rule)
  then show ?thesis using assms
    by (cases "wait (xr_Latency rule) w") (auto simp: Chaos_Apply_def split: if_splits)
qed (use assms in \<open>simp add: Chaos_Apply_def split: if_splits\<close>)

section \<open>Properties of the harness\<close>



end
