(* ===== verification/Quality.thy ===== *)
theory Quality
  imports Wire Resilience
begin

text \<open>
  Quality scoring off the request path: the choice of the requests to score
  (\<open>internal/quality/sample.go\<close>), the judge and the reading of its reply
  (\<open>internal/quality/judge.go\<close>), and the worker with its bounded queue
  (\<open>internal/quality/worker.go\<close>). Scores are exact numbers. The request log's store and the
  judge model are parameters; counters and logs are left out.
\<close>

section \<open>Sampling\<close>

record QCandidate =
  qc_Routed :: bool
  qc_Downgraded :: bool
  qc_CacheHit :: bool
  qc_CacheSemantic :: bool
  qc_Similarity :: rat
  qc_Threshold :: rat
  qc_Flagged :: bool

record QConfig =
  qf_RoutedRate :: rat
  qf_NearThresholdBand :: rat

datatype QReason = ReasonFlagged | ReasonDowngraded | ReasonNearThreshold | ReasonRoutedSample

definition QReason_name :: "QReason \<Rightarrow> string" where
  "QReason_name r =
     (case r of ReasonFlagged \<Rightarrow> ''flagged'' | ReasonDowngraded \<Rightarrow> ''downgraded''
      | ReasonNearThreshold \<Rightarrow> ''near_threshold_cache_hit'' | ReasonRoutedSample \<Rightarrow> ''routed_sample'')"

definition nearThreshold :: "QConfig \<Rightarrow> QCandidate \<Rightarrow> bool" where
  "nearThreshold cfg c \<longleftrightarrow> qc_Similarity c \<ge> qc_Threshold c \<and> qc_Similarity c < qc_Threshold c + qf_NearThresholdBand cfg"

text \<open>\<open>rng\<close> is the draw, made only where the other reasons do not apply to a routed request.\<close>

definition Decide :: "('w \<Rightarrow> rat \<times> 'w) \<Rightarrow> QConfig option \<Rightarrow> QCandidate \<Rightarrow> 'w \<Rightarrow> QReason option \<times> 'w" where
  "Decide rng s c w =
     (case s of
        None \<Rightarrow> (None, w)
      | Some cfg \<Rightarrow>
          (if qc_Flagged c then (Some ReasonFlagged, w)
           else if qc_CacheHit c \<and> qc_CacheSemantic c \<and> nearThreshold cfg c then (Some ReasonNearThreshold, w)
           else if qc_Downgraded c then (Some ReasonDowngraded, w)
           else if qc_Routed c then
             (case rng w of (x, w') \<Rightarrow> (if x < qf_RoutedRate cfg then Some ReasonRoutedSample else None, w'))
           else (None, w)))"

record Sample =
  qs_RequestID :: string
  qs_TeamID :: string
  qs_Model :: string
  qs_Provider :: string
  qs_Reason :: QReason
  qs_Prompt :: "Message list"
  qs_Response :: runes

section \<open>The judge\<close>

definition minScore :: rat where
  "minScore = 1"

definition maxScore :: rat where
  "maxScore = 5"

record Verdict =
  vd_Score :: rat
  vd_Reason :: runes

definition clamp_score :: "rat \<Rightarrow> rat" where
  "clamp_score n = (if n < minScore then minScore else if n > maxScore then maxScore else n)"

definition transcript :: "Sample \<Rightarrow> runes" where
  "transcript s =
     ascii ''## Request'' @ [10] @
     concat (map (\<lambda>m. ascii (''['' @ msg_Role m @ ''] '') @ msg_Content m @ [10]) (qs_Prompt s)) @
     [10] @ ascii ''## Response'' @ [10] @ qs_Response s"

text \<open>
  The two patterns. The first looks, letters in any case, for one of three words, then at most
  15 code points that are no digits, then a digit up to 5 with an optional fraction; what
  precedes the digit holds no digit, so the shortest run is the only one. Go's folding also
  matches the long s. Each gives the number of the leftmost match.
\<close>

definition rune_digit :: "rune \<Rightarrow> bool" where
  "rune_digit c \<longleftrightarrow> 48 \<le> c \<and> c \<le> 57"

definition folds_to :: "rune \<Rightarrow> rune \<Rightarrow> bool" where
  "folds_to p c \<longleftrightarrow> c = p \<or> 97 \<le> p \<and> p \<le> 122 \<and> (c = p - 32 \<or> p = 115 \<and> c = 383)"

fun fold_prefix :: "runes \<Rightarrow> runes \<Rightarrow> runes option" where
  "fold_prefix [] t = Some t"
| "fold_prefix (p # ps) (c # t) = (if folds_to p c then fold_prefix ps t else None)"
| "fold_prefix (p # ps) [] = None"

definition digits_value :: "runes \<Rightarrow> rat" where
  "digits_value ds = of_nat (fold (\<lambda>d n. n * 10 + (d - 48)) ds 0)"

text \<open>A digit up to 5, with the fraction that follows it where there is one, and the rest.\<close>

definition read_score :: "runes \<Rightarrow> (rat \<times> runes) option" where
  "read_score t =
     (case t of
        d # rest \<Rightarrow>
          (if 48 \<le> d \<and> d \<le> 53 then
             (case rest of
                c # tl1 \<Rightarrow>
                  (let ds = takeWhile rune_digit tl1 in
                   if c = 46 \<and> ds \<noteq> []
                   then Some (of_nat (d - 48) + digits_value ds / 10 ^ length ds, dropWhile rune_digit tl1)
                   else Some (of_nat (d - 48), rest))
              | [] \<Rightarrow> Some (of_nat (d - 48), []))
           else None)
      | [] \<Rightarrow> None)"

definition keyword_score :: "runes \<Rightarrow> rat option" where
  "keyword_score t =
     (let after = (\<lambda>word. case fold_prefix (ascii word) t of
            None \<Rightarrow> None
          | Some rest \<Rightarrow>
              (if length (takeWhile (\<lambda>c. \<not> rune_digit c) rest) \<le> 15
               then map_option fst (read_score (dropWhile (\<lambda>c. \<not> rune_digit c) rest)) else None))
      in case after ''score'' of Some n \<Rightarrow> Some n
         | None \<Rightarrow> (case after ''rating'' of Some n \<Rightarrow> Some n | None \<Rightarrow> after ''rate''))"

definition re_space :: "rune \<Rightarrow> bool" where
  "re_space c \<longleftrightarrow> c \<in> {9, 10, 12, 13, 32}"

text \<open>Where a fraction does not lead to the slash, the digit alone cannot either.\<close>

definition out_of_five_score :: "runes \<Rightarrow> rat option" where
  "out_of_five_score t =
     (case read_score t of
        None \<Rightarrow> None
      | Some (n, rest) \<Rightarrow>
          (case dropWhile re_space rest of
             c # tl1 \<Rightarrow>
               (if c = 47 then (case dropWhile re_space tl1 of f # _ \<Rightarrow> if f = 53 then Some n else None | [] \<Rightarrow> None)
                else None)
           | [] \<Rightarrow> None))"

fun leftmost :: "(runes \<Rightarrow> 'a option) \<Rightarrow> runes \<Rightarrow> 'a option" where
  "leftmost f [] = f []"
| "leftmost f (c # t) = (case f (c # t) of Some x \<Rightarrow> Some x | None \<Rightarrow> leftmost f t)"

text \<open>From the first opening to the last closing brace, where the closing one comes later.\<close>

definition braced :: "runes \<Rightarrow> runes option" where
  "braced raw =
     (let from_open = dropWhile (\<lambda>c. c \<noteq> 123) raw;
          upto_close = rev (dropWhile (\<lambda>c. c \<noteq> 125) (rev from_open))
      in if upto_close = [] then None else Some upto_close)"

text \<open>\<open>Unmarshal\<close> decodes the two fields of the strict form, zero and empty where absent.\<close>

definition parseVerdict :: "(runes \<Rightarrow> (rat \<times> runes) option) \<Rightarrow> runes \<Rightarrow> Verdict option" where
  "parseVerdict Unmarshal raw0 =
     (let raw = TrimSpace raw0 in
      case (case braced raw of None \<Rightarrow> None | Some b \<Rightarrow> Unmarshal b) of
        Some (score, reason) \<Rightarrow>
          (if score \<noteq> 0 then Some \<lparr>vd_Score = clamp_score score, vd_Reason = reason\<rparr>
           else map_option (\<lambda>n. \<lparr>vd_Score = clamp_score n, vd_Reason = raw\<rparr>)
                  (case leftmost keyword_score raw of Some n \<Rightarrow> Some n | None \<Rightarrow> leftmost out_of_five_score raw))
      | None \<Rightarrow>
          map_option (\<lambda>n. \<lparr>vd_Score = clamp_score n, vd_Reason = raw\<rparr>)
            (case leftmost keyword_score raw of Some n \<Rightarrow> Some n | None \<Rightarrow> leftmost out_of_five_score raw))"

record Judge =
  jd_model :: string
  jd_timeout :: duration

definition NewJudge :: "string \<Rightarrow> duration \<Rightarrow> Judge" where
  "NewJudge model timeout = \<lparr>jd_model = model, jd_timeout = (if timeout \<le> 0 then 20 * second else timeout)\<rparr>"

definition judge_request :: "runes \<Rightarrow> Judge \<Rightarrow> Sample \<Rightarrow> Request" where
  "judge_request rubric j s =
     \<lparr>rq_Model = jd_model j,
      rq_Messages = [\<lparr>msg_Role = RoleSystem, msg_Content = rubric\<rparr>, \<lparr>msg_Role = RoleUser, msg_Content = transcript s\<rparr>],
      rq_Temperature = Some 0, rq_MaxTokens = 200, rq_Stream = False, rq_Stop = []\<rparr>"

text \<open>\<open>resolve\<close> finds the judge's provider and \<open>Complete\<close> calls it.\<close>

definition Judge_Score ::
  "(string \<Rightarrow> Adapter option) \<Rightarrow> (Adapter \<Rightarrow> Request \<Rightarrow> 'w \<Rightarrow> (CallError + Response) \<times> 'w) \<Rightarrow>
   (runes \<Rightarrow> (rat \<times> runes) option) \<Rightarrow> runes \<Rightarrow> Judge \<Rightarrow> Sample \<Rightarrow> 'w \<Rightarrow> Verdict option \<times> 'w" where
  "Judge_Score resolve Complete Unmarshal rubric j s w =
     (case resolve (jd_model j) of
        None \<Rightarrow> (None, w)
      | Some prov \<Rightarrow>
          (case Complete prov (judge_request rubric j s) w of
             (Inl _, w') \<Rightarrow> (None, w')
           | (Inr resp, w') \<Rightarrow> (parseVerdict Unmarshal (rs_Content resp), w')))"

section \<open>The worker\<close>

record WorkerConfig =
  wk_QueueSize :: int
  wk_Concurrency :: int
  wk_ScoreTimeout :: duration

definition WorkerConfig_withDefaults :: "WorkerConfig \<Rightarrow> WorkerConfig" where
  "WorkerConfig_withDefaults c =
     \<lparr>wk_QueueSize = (if wk_QueueSize c \<le> 0 then 256 else wk_QueueSize c),
      wk_Concurrency = (if wk_Concurrency c \<le> 0 then 4 else wk_Concurrency c),
      wk_ScoreTimeout = (if wk_ScoreTimeout c \<le> 0 then 20 * second else wk_ScoreTimeout c)\<rparr>"

record QWorker =
  qw_cfg :: WorkerConfig
  qw_sampler :: "QConfig option"
  qw_queue :: "Sample list"

definition NewWorker :: "WorkerConfig \<Rightarrow> QConfig option \<Rightarrow> QWorker" where
  "NewWorker cfg sampler = \<lparr>qw_cfg = WorkerConfig_withDefaults cfg, qw_sampler = sampler, qw_queue = []\<rparr>"

definition Enqueue :: "Sample \<Rightarrow> QWorker \<Rightarrow> QWorker" where
  "Enqueue s w =
     (if int (length (qw_queue w)) < wk_QueueSize (qw_cfg w) then w\<lparr>qw_queue := qw_queue w @ [s]\<rparr> else w)"

text \<open>
  One turn of a scoring loop: the oldest sample is scored and its score stored, and an error
  of either drops it.
\<close>

definition process ::
  "(Sample \<Rightarrow> 'w \<Rightarrow> Verdict option \<times> 'w) \<Rightarrow> (string \<Rightarrow> rat \<Rightarrow> string \<Rightarrow> 'w \<Rightarrow> bool \<times> 'w) \<Rightarrow> Sample \<Rightarrow> 'w \<Rightarrow> 'w" where
  "process scorer SetQualityScore s w =
     (case scorer s w of
        (None, w') \<Rightarrow> w'
      | (Some v, w') \<Rightarrow> snd (SetQualityScore (qs_RequestID s) (vd_Score v) (QReason_name (qs_Reason s)) w'))"

definition worker_step ::
  "(Sample \<Rightarrow> 'w \<Rightarrow> Verdict option \<times> 'w) \<Rightarrow> (string \<Rightarrow> rat \<Rightarrow> string \<Rightarrow> 'w \<Rightarrow> bool \<times> 'w) \<Rightarrow> QWorker \<times> 'w \<Rightarrow> QWorker \<times> 'w" where
  "worker_step scorer SetQualityScore qw =
     (case qw of
        (q, w) \<Rightarrow>
          (case qw_queue q of
             [] \<Rightarrow> (q, w)
           | s # rest \<Rightarrow> (q\<lparr>qw_queue := rest\<rparr>, process scorer SetQualityScore s w)))"

section \<open>Facts on scoring\<close>

lemma clamp_score_range: "1 \<le> clamp_score n" "clamp_score n \<le> 5"
  by (simp_all add: clamp_score_def minScore_def maxScore_def)

lemma parseVerdict_range:
  assumes "parseVerdict U raw = Some v"
  shows "1 \<le> vd_Score v" "vd_Score v \<le> 5"
  using assms clamp_score_range by (auto simp: parseVerdict_def Let_def split: option.splits if_splits)

lemma Enqueue_bounded:
  assumes "int (length (qw_queue w)) \<le> wk_QueueSize (qw_cfg w)"
  shows "int (length (qw_queue (Enqueue s w))) \<le> wk_QueueSize (qw_cfg (Enqueue s w))"
  using assms by (simp add: Enqueue_def)

lemma downgrade_never_missed:
  assumes "qc_Downgraded c"
  shows "\<exists>reason. Decide rng (Some cfg) c w = (Some reason, w)"
  using assms by (simp add: Decide_def)

end
