(* ===== verification/Adapters.thy ===== *)
theory Adapters
  imports Resilience
begin

text \<open>
  The provider adapters (\<open>internal/provider\<close>): the line scanner, the readers of server-sent
  events and of newline-delimited JSON (\<open>sse.go\<close>), the HTTP mechanics (\<open>http.go\<close>) and, for the
  four dialects, the translation of requests and replies, the decoding of stream events and the
  classification of errors (\<open>openai.go\<close>, \<open>anthropic.go\<close>, \<open>gemini.go\<close>, \<open>ollama.go\<close>).

  The network and \<open>encoding/json\<close>'s decoding are parameters. A body is the text that arrives
  before the connection ends, and how it ends. Text is in code points; a body that is not UTF-8
  is outside the model.
\<close>

section \<open>Lines of a body\<close>

record body =
  bd_text :: runes
  bd_err :: "GoError option"

definition maxStreamLineBytes :: nat where
  "maxStreamLineBytes = 2 ^ 20"

datatype ScanError = TooLong | ReadError GoError

datatype scanned = ScanLine runes | ScanStop "ScanError option"

text \<open>\<open>bufio.ScanLines\<close> drops the carriage return that ends a line.\<close>

definition drop_cr :: "runes \<Rightarrow> runes" where
  "drop_cr l = (if l \<noteq> [] \<and> last l = 13 then butlast l else l)"

text \<open>
  One call of \<open>bufio.Scanner.Scan\<close>. A line without its newline at the end of the body is still a
  line, also when a read error ended the body.
\<close>

definition Scan :: "body \<Rightarrow> scanned \<times> body" where
  "Scan b =
     (let l = takeWhile (\<lambda>x. x \<noteq> 10) (bd_text b); rest = dropWhile (\<lambda>x. x \<noteq> 10) (bd_text b) in
      if bd_text b = [] then (ScanStop (map_option ReadError (bd_err b)), b)
      else if byte_len l \<ge> maxStreamLineBytes then (ScanStop (Some TooLong), b)
      else (ScanLine (drop_cr l), b\<lparr>bd_text := tl rest\<rparr>))"

lemma Scan_shrinks: "Scan b = (ScanLine l, b') \<Longrightarrow> length (bd_text b') < length (bd_text b)"
proof -
  assume s: "Scan b = (ScanLine l, b')"
  then have ne: "bd_text b \<noteq> []" and b': "bd_text b' = tl (dropWhile (\<lambda>x. x \<noteq> 10) (bd_text b))"
    by (auto simp: Scan_def Let_def split: if_splits)
  have "length (dropWhile (\<lambda>x. x \<noteq> 10) (bd_text b)) \<le> length (bd_text b)" by (rule length_dropWhile_le)
  then show "length (bd_text b') < length (bd_text b)" using ne b' by (cases "dropWhile (\<lambda>x. x \<noteq> 10) (bd_text b)") auto
qed

section \<open>Server-sent events\<close>

record sseEvent =
  ev_Event :: runes
  ev_Data :: runes

datatype next_event = NextEvent sseEvent | NextEOF | NextError ScanError

definition trim_prefix :: "runes \<Rightarrow> runes \<Rightarrow> runes" where
  "trim_prefix s p = (if has_prefix s p then drop (length p) s else s)"

fun join_lines :: "runes \<Rightarrow> runes list \<Rightarrow> runes" where
  "join_lines sep [] = []"
| "join_lines sep [l] = l"
| "join_lines sep (l # ls) = l @ sep @ join_lines sep ls"

text \<open>The event a blank line or the end of the body completes.\<close>

definition finish_event :: "runes \<Rightarrow> runes list \<Rightarrow> sseEvent" where
  "finish_event event dataLines = \<lparr>ev_Event = event, ev_Data = join_lines [10] dataLines\<rparr>"

text \<open>The effect of one line that is not blank on the event being read.\<close>

definition sse_field :: "runes \<Rightarrow> runes \<times> runes list \<Rightarrow> runes \<times> runes list" where
  "sse_field line acc =
     (case acc of
        (event, dataLines) \<Rightarrow>
          (if has_prefix line (ascii ''event:'') then (TrimSpace (trim_prefix line (ascii ''event:'')), dataLines)
           else if has_prefix line (ascii ''data:'')
           then (event, dataLines @ [trim_prefix (trim_prefix line (ascii ''data:'')) (ascii '' '')])
           else acc))"

function sse_next :: "runes \<times> runes list \<Rightarrow> bool \<Rightarrow> body \<Rightarrow> next_event \<times> body" where
  "sse_next acc sawAny b =
     (case Scan b of
        (ScanLine line, b') \<Rightarrow>
          (if line = [] then
             (if sawAny then (NextEvent (finish_event (fst acc) (snd acc)), b') else sse_next acc sawAny b')
           else sse_next (sse_field line acc) True b')
      | (ScanStop (Some e), b') \<Rightarrow> (NextError e, b')
      | (ScanStop None, b') \<Rightarrow>
          (if sawAny then (NextEvent (finish_event (fst acc) (snd acc)), b') else (NextEOF, b')))"
  by pat_completeness auto
termination
  by (relation "measure (\<lambda>(acc, sawAny, b). length (bd_text b))") (auto dest: Scan_shrinks [OF sym])

declare sse_next.simps [simp del]

definition sse_Next :: "body \<Rightarrow> next_event \<times> body" where
  "sse_Next b = sse_next ([], []) False b"

section \<open>Reading a stream\<close>

text \<open>What decoding one event or line gives, with the state the decoder carries.\<close>

datatype decoded = NoChunk | OneChunk Chunk | StreamDone | DecodeError CallError

datatype received = RecvChunk Chunk | RecvEOF | RecvErr CallError

text \<open>A scanner's error is not a provider error: it has no kind.\<close>

definition scan_error :: "ScanError \<Rightarrow> CallError" where
  "scan_error e = OtherErr (case e of TooLong \<Rightarrow> ''bufio.Scanner: token too long'' | ReadError _ \<Rightarrow> ''read'')"

lemma sse_next_shrinks:
  "sse_next acc sawAny b = (NextEvent ev, b') \<Longrightarrow>
     length (bd_text b') \<le> length (bd_text b) \<and> (\<not> sawAny \<longrightarrow> length (bd_text b') < length (bd_text b))"
proof (induction acc sawAny b rule: sse_next.induct)
  case (1 acc sawAny b)
  obtain sc b1 where sc: "Scan b = (sc, b1)" by (rule prod.exhaust)
  show ?case
  proof (cases sc)
    case (ScanLine l)
    note less = Scan_shrinks [OF sc [unfolded ScanLine]]
    show ?thesis
    proof (cases "l = [] \<and> sawAny")
      case True
      then show ?thesis using 1(3) less by (simp add: sse_next.simps [of acc True b] sc ScanLine)
    next
      case False
      then show ?thesis
        using 1(3) less 1(1) [OF sc [symmetric] ScanLine] 1(2) [OF sc [symmetric] ScanLine]
        by (auto simp: sse_next.simps [of acc sawAny b] sc ScanLine split: if_splits)
    qed
  next
    case (ScanStop e)
    have "b1 = b" using sc ScanStop by (auto simp: Scan_def Let_def split: if_splits)
    then show ?thesis using 1(3) by (auto simp: sse_next.simps [of acc sawAny b] sc ScanStop split: option.splits if_splits)
  qed
qed

function sse_recv :: "('d \<Rightarrow> sseEvent \<Rightarrow> decoded \<times> 'd) \<Rightarrow> 'd \<times> body \<Rightarrow> received \<times> 'd \<times> body" where
  "sse_recv decode x =
     (case sse_Next (snd x) of
        (NextEOF, b') \<Rightarrow> (RecvEOF, fst x, b')
      | (NextError e, b') \<Rightarrow> (RecvErr (scan_error e), fst x, b')
      | (NextEvent ev, b') \<Rightarrow>
          (case decode (fst x) ev of
             (DecodeError e, d') \<Rightarrow> (RecvErr e, d', b')
           | (StreamDone, d') \<Rightarrow> (RecvEOF, d', b')
           | (NoChunk, d') \<Rightarrow> sse_recv decode (d', b')
           | (OneChunk chunk, d') \<Rightarrow> (RecvChunk chunk, d', b')))"
  by pat_completeness auto
termination
  by (relation "measure (\<lambda>(decode, d, b). length (bd_text b))") (auto simp: sse_Next_def dest: sse_next_shrinks [OF sym])

declare sse_recv.simps [simp del]

function ndjson_recv :: "(runes \<Rightarrow> decoded) \<Rightarrow> body \<Rightarrow> received \<times> body" where
  "ndjson_recv decode b =
     (case Scan b of
        (ScanStop (Some e), b') \<Rightarrow> (RecvErr (scan_error e), b')
      | (ScanStop None, b') \<Rightarrow> (RecvEOF, b')
      | (ScanLine l, b') \<Rightarrow>
          (let line = TrimSpace l in
           if line = [] then ndjson_recv decode b'
           else
             (case decode line of
                DecodeError e \<Rightarrow> (RecvErr e, b')
              | StreamDone \<Rightarrow> (RecvEOF, b')
              | NoChunk \<Rightarrow> ndjson_recv decode b'
              | OneChunk chunk \<Rightarrow> (RecvChunk chunk, b'))))"
  by pat_completeness auto
termination
  by (relation "measure (\<lambda>(decode, b). length (bd_text b))") (auto dest: Scan_shrinks [OF sym])

declare ndjson_recv.simps [simp del]

section \<open>HTTP\<close>

definition maxResponseBytes :: nat where
  "maxResponseBytes = 10 * 2 ^ 20"

text \<open>\<open>io.ReadAll\<close> of at most \<open>maxResponseBytes\<close>.\<close>

definition readBody :: "body \<Rightarrow> GoError + runes" where
  "readBody b =
     (if byte_len (bd_text b) \<ge> maxResponseBytes then Inr (byte_prefix maxResponseBytes (bd_text b))
      else case bd_err b of None \<Rightarrow> Inr (bd_text b) | Some e \<Rightarrow> Inl e)"

record http_answer =
  ha_Status :: int
  ha_RetryAfter :: string
  ha_Body :: body

text \<open>
  The client: whether a URL can be requested at all, and the round trip. \<open>'p\<close> is the payload;
  a timeout is given for a round trip and not for a stream.
\<close>

record ('p, 'w) network =
  nw_validURL :: "string \<Rightarrow> bool"
  nw_marshals :: "'p \<Rightarrow> bool"
  nw_Do :: "string \<Rightarrow> (string \<times> string) list \<Rightarrow> 'p \<Rightarrow> duration option \<Rightarrow> 'w \<Rightarrow> (GoError + http_answer) \<times> 'w"
  nw_now :: "'w \<Rightarrow> instant"
  nw_ParseTime :: "string \<Rightarrow> instant option"

record httpResult =
  hr_Status :: int
  hr_RetryAfter :: string
  hr_Body :: runes
  hr_Latency :: duration

definition postJSON ::
  "('p, 'w) network \<Rightarrow> ProviderConfig \<Rightarrow> string \<Rightarrow> string \<Rightarrow> (string \<times> string) list \<Rightarrow> 'p \<Rightarrow> 'w \<Rightarrow> (CallError + httpResult) \<times> 'w" where
  "postJSON net cfg url model headers payload w =
     (if \<not> nw_marshals net payload then (Inl (OtherErr (''encoding request for '' @ pc_Name cfg)), w)
      else if \<not> nw_validURL net url then (Inl (OtherErr (''building request for '' @ pc_Name cfg)), w)
      else
        (case nw_Do net url ((''Content-Type'', ''application/json'') # headers) payload (Some (pc_Timeout cfg)) w of
           (Inl e, w') \<Rightarrow> (Inl (ProviderErr (NewTransportError (pc_Name cfg) model e)), w')
         | (Inr resp, w') \<Rightarrow>
             (case readBody (ha_Body resp) of
                Inl e \<Rightarrow> (Inl (ProviderErr (NewTransportError (pc_Name cfg) model e)), w')
              | Inr b \<Rightarrow>
                  (Inr \<lparr>hr_Status = ha_Status resp, hr_RetryAfter = ha_RetryAfter resp, hr_Body = b,
                        hr_Latency = nw_now net w' - nw_now net w\<rparr>, w'))))"

definition openStream ::
  "('p, 'w) network \<Rightarrow> ProviderConfig \<Rightarrow> string \<Rightarrow> string \<Rightarrow> (string \<times> string) list \<Rightarrow> 'p \<Rightarrow> 'w \<Rightarrow> (CallError + http_answer) \<times> 'w" where
  "openStream net cfg url model headers payload w =
     (if \<not> nw_marshals net payload then (Inl (OtherErr (''encoding request for '' @ pc_Name cfg)), w)
      else if \<not> nw_validURL net url then (Inl (OtherErr (''building request for '' @ pc_Name cfg)), w)
      else
        (case nw_Do net url ((''Content-Type'', ''application/json'') # (''Accept'', ''text/event-stream'') # headers) payload None w of
           (Inl e, w') \<Rightarrow> (Inl (ProviderErr (NewTransportError (pc_Name cfg) model e)), w')
         | (Inr resp, w') \<Rightarrow> (Inr resp, w')))"

definition readStreamError ::
  "('p, 'w) network \<Rightarrow> ProviderConfig \<Rightarrow> string \<Rightarrow> (string \<Rightarrow> int \<Rightarrow> runes \<Rightarrow> PError) \<Rightarrow> http_answer \<Rightarrow> 'w \<Rightarrow> CallError" where
  "readStreamError net cfg model classify resp w =
     (case readBody (ha_Body resp) of
        Inl e \<Rightarrow> ProviderErr (NewTransportError (pc_Name cfg) model e)
      | Inr b \<Rightarrow>
          ProviderErr ((classify model (ha_Status resp) b)
            \<lparr>pe_RetryAfter := parseRetryAfter (nw_ParseTime net) (ha_RetryAfter resp) (nw_now net w)\<rparr>))"

definition trim_slash :: "string \<Rightarrow> string" where
  "trim_slash url = (if url \<noteq> [] \<and> last url = CHR ''/'' then butlast url else url)"

text \<open>What the error paths of the four adapters share.\<close>

definition error_text :: "runes \<Rightarrow> runes \<Rightarrow> runes" where
  "error_text fromEnvelope raw =
     (let message = truncateMessage fromEnvelope in if message = [] then truncateMessage raw else message)"

definition max_tokens_for :: "ProviderConfig \<Rightarrow> Request \<Rightarrow> int" where
  "max_tokens_for cfg req = (if rq_MaxTokens req = 0 then pc_DefaultMaxTokens cfg else rq_MaxTokens req)"

definition served_name :: "string \<Rightarrow> string \<Rightarrow> string" where
  "served_name reported model = (if reported = [] then model else reported)"

section \<open>The OpenAI dialect\<close>

record wireMessage =
  wm_Role :: string
  wm_Content :: runes

record oaiChatRequest =
  oq_Model :: string
  oq_Messages :: "wireMessage list"
  oq_MaxTokens :: int
  oq_Temperature :: "float32 option"
  oq_Stop :: "runes list"
  oq_Stream :: bool
  oq_IncludeUsage :: "bool option"

record oaiChoice =
  oc_Content :: runes
  oc_FinishReason :: string

record oaiChatResponse =
  or_Model :: string
  or_Choices :: "oaiChoice list"
  or_PromptTokens :: int
  or_CompletionTokens :: int

record oaiStreamChoice =
  os_Content :: runes
  os_FinishReason :: "string option"

record oaiStreamChunk =
  ok_Choices :: "oaiStreamChoice list"
  ok_Usage :: "(int \<times> int) option"

record oaiErrorEnvelope =
  oe_Message :: runes
  oe_Type :: string
  oe_Code :: string

definition openai_translateRequest :: "ProviderConfig \<Rightarrow> Request \<Rightarrow> bool \<Rightarrow> oaiChatRequest" where
  "openai_translateRequest cfg req stream =
     \<lparr>oq_Model = rq_Model req,
      oq_Messages = map (\<lambda>m. \<lparr>wm_Role = msg_Role m, wm_Content = msg_Content m\<rparr>) (rq_Messages req),
      oq_MaxTokens = max_tokens_for cfg req, oq_Temperature = rq_Temperature req, oq_Stop = rq_Stop req,
      oq_Stream = stream, oq_IncludeUsage = (if stream then Some True else None)\<rparr>"

definition oaiFinishReason :: "string \<Rightarrow> FinishReason" where
  "oaiFinishReason s =
     (if s = ''stop'' then FinishStop else if s = ''length'' then FinishLength
      else if s = ''content_filter'' then FinishContentFilter else FinishOther)"

definition openai_translateResponse ::
  "(runes \<Rightarrow> GoError + oaiChatResponse) \<Rightarrow> ProviderConfig \<Rightarrow> string \<Rightarrow> runes \<Rightarrow> duration \<Rightarrow> PError + Response" where
  "openai_translateResponse unmarshal cfg model raw latency =
     (case unmarshal raw of
        Inl e \<Rightarrow> Inl (malformedResponse (pc_Name cfg) model (ascii ''upstream returned a body that is not valid chat-completion JSON'') (Some e))
      | Inr out \<Rightarrow>
          (case or_Choices out of
             [] \<Rightarrow> Inl (malformedResponse (pc_Name cfg) model (ascii ''upstream returned no choices'') None)
           | choice # _ \<Rightarrow>
               Inr \<lparr>rs_Content = oc_Content choice, rs_FinishReason = oaiFinishReason (oc_FinishReason choice),
                    rs_Usage = \<lparr>us_InputTokens = or_PromptTokens out, us_OutputTokens = or_CompletionTokens out\<rparr>,
                    rs_Model = served_name (or_Model out) model, rs_Provider = pc_Name cfg, rs_Latency = latency\<rparr>))"

definition openai_decodeStreamEvent :: "(runes \<Rightarrow> oaiStreamChunk option) \<Rightarrow> ProviderConfig \<Rightarrow> sseEvent \<Rightarrow> decoded" where
  "openai_decodeStreamEvent unmarshal cfg ev =
     (let d = TrimSpace (ev_Data ev) in
      if d = [] then NoChunk
      else if d = ascii ''[DONE]'' then StreamDone
      else
        (case unmarshal d of
           None \<Rightarrow> DecodeError (OtherErr (''decoding '' @ pc_Name cfg @ '' stream chunk''))
         | Some wire \<Rightarrow>
             OneChunk
               \<lparr>ck_Content = (case ok_Choices wire of [] \<Rightarrow> [] | choice # _ \<Rightarrow> os_Content choice),
                ck_FinishReason =
                  (case ok_Choices wire of
                     [] \<Rightarrow> FinishNone
                   | choice # _ \<Rightarrow> (case os_FinishReason choice of None \<Rightarrow> FinishNone | Some s \<Rightarrow> oaiFinishReason s)),
                ck_Usage = map_option (\<lambda>(i, out). \<lparr>us_InputTokens = i, us_OutputTokens = out\<rparr>) (ok_Usage wire)\<rparr>))"

text \<open>A body that does not decode leaves the zero envelope.\<close>

definition openai_classify :: "(runes \<Rightarrow> oaiErrorEnvelope option) \<Rightarrow> ProviderConfig \<Rightarrow> string \<Rightarrow> int \<Rightarrow> runes \<Rightarrow> PError" where
  "openai_classify unmarshal cfg model status raw =
     (let env = (case unmarshal raw of Some e \<Rightarrow> e | None \<Rightarrow> \<lparr>oe_Message = [], oe_Type = [], oe_Code = []\<rparr>);
          e = NewHTTPError (pc_Name cfg) model status (error_text (oe_Message env) raw) in
      if oe_Code env = ''content_filter'' \<or> oe_Type env = ''content_filter''
      then e\<lparr>pe_Kind := KindContentPolicy, pe_Retryable := False\<rparr>
      else if oe_Type env = ''insufficient_quota'' then e\<lparr>pe_Retryable := False\<rparr>
      else e)"

section \<open>The Anthropic dialect\<close>

definition anthropicVersion :: string where
  "anthropicVersion = ''2023-06-01''"

record anthropicRequest =
  aq_Model :: string
  aq_Messages :: "wireMessage list"
  aq_MaxTokens :: int
  aq_System :: runes
  aq_Temperature :: "float32 option"
  aq_StopSequences :: "runes list"
  aq_Stream :: bool

record anthropicBlock =
  ab_Type :: string
  ab_Text :: runes

record anthropicResponse =
  ar_Model :: string
  ar_Content :: "anthropicBlock list"
  ar_StopReason :: string
  ar_InputTokens :: int
  ar_OutputTokens :: int

record anthropicErrorEnvelope =
  ae_Type :: string
  ae_Message :: runes

text \<open>The fields read from a \<open>content_block_delta\<close> and from a \<open>message_delta\<close> event.\<close>

record anthropicContentBlockDeltaEvent =
  ad_Type :: string
  ad_Text :: runes

record anthropicMessageDeltaEvent =
  am_StopReason :: string
  am_OutputTokens :: int

definition is_system :: "Message \<Rightarrow> bool" where
  "is_system msg \<longleftrightarrow> msg_Role msg = RoleSystem"

definition system_text :: "Request \<Rightarrow> runes" where
  "system_text req = join_lines [10, 10] (map msg_Content (filter is_system (rq_Messages req)))"

definition anthropic_translateRequest :: "ProviderConfig \<Rightarrow> Request \<Rightarrow> bool \<Rightarrow> anthropicRequest" where
  "anthropic_translateRequest cfg req stream =
     \<lparr>aq_Model = rq_Model req,
      aq_Messages = map (\<lambda>m. \<lparr>wm_Role = msg_Role m, wm_Content = msg_Content m\<rparr>) (filter (\<lambda>m. \<not> is_system m) (rq_Messages req)),
      aq_MaxTokens = max_tokens_for cfg req, aq_System = system_text req, aq_Temperature = rq_Temperature req,
      aq_StopSequences = rq_Stop req, aq_Stream = stream\<rparr>"

definition anthropicFinishReason :: "string \<Rightarrow> FinishReason" where
  "anthropicFinishReason s =
     (if s = ''end_turn'' \<or> s = ''stop_sequence'' then FinishStop else if s = ''max_tokens'' then FinishLength
      else if s = ''refusal'' then FinishContentFilter else FinishOther)"

definition anthropic_translateResponse ::
  "(runes \<Rightarrow> GoError + anthropicResponse) \<Rightarrow> ProviderConfig \<Rightarrow> string \<Rightarrow> runes \<Rightarrow> duration \<Rightarrow> PError + Response" where
  "anthropic_translateResponse unmarshal cfg model raw latency =
     (case unmarshal raw of
        Inl e \<Rightarrow> Inl (malformedResponse (pc_Name cfg) model (ascii ''upstream returned a body that is not a valid message'') (Some e))
      | Inr out \<Rightarrow>
          (if ar_Content out = []
           then Inl (malformedResponse (pc_Name cfg) model (ascii ''upstream returned no content blocks'') None)
           else
             Inr \<lparr>rs_Content = concat (map ab_Text (filter (\<lambda>b. ab_Type b = ''text'') (ar_Content out))),
                  rs_FinishReason = anthropicFinishReason (ar_StopReason out),
                  rs_Usage = \<lparr>us_InputTokens = ar_InputTokens out, us_OutputTokens = ar_OutputTokens out\<rparr>,
                  rs_Model = served_name (ar_Model out) model, rs_Provider = pc_Name cfg, rs_Latency = latency\<rparr>))"

text \<open>\<open>json.Unmarshal\<close> into each of the structs the stream decoder reads.\<close>

record anthropic_codec =
  ac_start :: "runes \<Rightarrow> int option"
  ac_block :: "runes \<Rightarrow> anthropicContentBlockDeltaEvent option"
  ac_delta :: "runes \<Rightarrow> anthropicMessageDeltaEvent option"
  ac_error :: "runes \<Rightarrow> anthropicErrorEnvelope option"

text \<open>The state is the input tokens that \<open>message_start\<close> reported.\<close>

definition anthropic_decode :: "anthropic_codec \<Rightarrow> ProviderConfig \<Rightarrow> string \<Rightarrow> int \<Rightarrow> sseEvent \<Rightarrow> decoded \<times> int" where
  "anthropic_decode cd cfg model inputTokens ev =
     (let d = TrimSpace (ev_Data ev); bad = (DecodeError (OtherErr (''decoding '' @ pc_Name cfg @ '' stream event'')), inputTokens) in
      if d = [] then (NoChunk, inputTokens)
      else if ev_Event ev = ascii ''message_start'' then
        (case ac_start cd d of None \<Rightarrow> bad | Some n \<Rightarrow> (NoChunk, n))
      else if ev_Event ev = ascii ''content_block_delta'' then
        (case ac_block cd d of
           None \<Rightarrow> bad
         | Some wire \<Rightarrow>
             (if ad_Type wire \<noteq> ''text_delta'' then (NoChunk, inputTokens)
              else (OneChunk \<lparr>ck_Content = ad_Text wire, ck_FinishReason = FinishNone, ck_Usage = None\<rparr>, inputTokens)))
      else if ev_Event ev = ascii ''message_delta'' then
        (case ac_delta cd d of
           None \<Rightarrow> bad
         | Some wire \<Rightarrow>
             (OneChunk
                \<lparr>ck_Content = [],
                 ck_FinishReason = (if am_StopReason wire = [] then FinishNone else anthropicFinishReason (am_StopReason wire)),
                 ck_Usage = Some \<lparr>us_InputTokens = inputTokens, us_OutputTokens = am_OutputTokens wire\<rparr>\<rparr>, inputTokens))
      else if ev_Event ev = ascii ''message_stop'' then (StreamDone, inputTokens)
      else if ev_Event ev = ascii ''error'' then
        (DecodeError (ProviderErr
           \<lparr>pe_Kind = KindServerError, pe_Provider = pc_Name cfg, pe_Model = model, pe_StatusCode = 0, pe_Retryable = True,
            pe_RetryAfter = 0, pe_Message = truncateMessage (case ac_error cd d of None \<Rightarrow> [] | Some e \<Rightarrow> ae_Message e), pe_Err = None\<rparr>),
         inputTokens)
      else (NoChunk, inputTokens))"

definition anthropic_classify :: "(runes \<Rightarrow> anthropicErrorEnvelope option) \<Rightarrow> ProviderConfig \<Rightarrow> string \<Rightarrow> int \<Rightarrow> runes \<Rightarrow> PError" where
  "anthropic_classify unmarshal cfg model status raw =
     (let env = (case unmarshal raw of Some e \<Rightarrow> e | None \<Rightarrow> \<lparr>ae_Type = [], ae_Message = []\<rparr>);
          e = NewHTTPError (pc_Name cfg) model status (error_text (ae_Message env) raw) in
      if ae_Type env = ''overloaded_error'' then e\<lparr>pe_Kind := KindServerError, pe_Retryable := True\<rparr> else e)"

section \<open>The Gemini dialect\<close>

record geminiContent =
  gc_Role :: string
  gc_Parts :: "runes list"

record geminiRequest =
  gq_Contents :: "geminiContent list"
  gq_SystemInstruction :: "geminiContent option"
  gq_Temperature :: "float32 option"
  gq_MaxOutputTokens :: int
  gq_StopSequences :: "runes list"

record geminiCandidate =
  gd_Content :: geminiContent
  gd_FinishReason :: string

record geminiResponse =
  gr_Candidates :: "geminiCandidate list"
  gr_BlockReason :: runes
  gr_PromptTokenCount :: int
  gr_CandidatesTokenCount :: int
  gr_ModelVersion :: string

record geminiErrorEnvelope =
  ge_Message :: runes
  ge_Status :: string

definition geminiRole :: "Role \<Rightarrow> string" where
  "geminiRole r = (if r = RoleAssistant then ''model'' else r)"

definition gemini_translateRequest :: "ProviderConfig \<Rightarrow> Request \<Rightarrow> geminiRequest" where
  "gemini_translateRequest cfg req =
     \<lparr>gq_Contents = map (\<lambda>m. \<lparr>gc_Role = geminiRole (msg_Role m), gc_Parts = [msg_Content m]\<rparr>)
        (filter (\<lambda>m. \<not> is_system m) (rq_Messages req)),
      gq_SystemInstruction =
        (if filter is_system (rq_Messages req) = [] then None else Some \<lparr>gc_Role = [], gc_Parts = [system_text req]\<rparr>),
      gq_Temperature = rq_Temperature req, gq_MaxOutputTokens = max_tokens_for cfg req, gq_StopSequences = rq_Stop req\<rparr>"

definition geminiFinishReason :: "string \<Rightarrow> FinishReason" where
  "geminiFinishReason s =
     (if s = ''STOP'' then FinishStop else if s = ''MAX_TOKENS'' then FinishLength
      else if s \<in> set [''SAFETY'', ''RECITATION'', ''BLOCKLIST'', ''PROHIBITED_CONTENT'', ''SPII''] then FinishContentFilter
      else FinishOther)"

text \<open>A refused prompt is answered with 200 and a reason.\<close>

definition gemini_blocked :: "ProviderConfig \<Rightarrow> string \<Rightarrow> runes \<Rightarrow> PError" where
  "gemini_blocked cfg model reason =
     \<lparr>pe_Kind = KindContentPolicy, pe_Provider = pc_Name cfg, pe_Model = model, pe_StatusCode = 200, pe_Retryable = False,
      pe_RetryAfter = 0, pe_Message = ascii ''prompt blocked: '' @ truncateMessage reason, pe_Err = None\<rparr>"

definition gemini_translateResponse ::
  "(runes \<Rightarrow> GoError + geminiResponse) \<Rightarrow> ProviderConfig \<Rightarrow> string \<Rightarrow> runes \<Rightarrow> duration \<Rightarrow> PError + Response" where
  "gemini_translateResponse unmarshal cfg model raw latency =
     (case unmarshal raw of
        Inl e \<Rightarrow>
          Inl (malformedResponse (pc_Name cfg) model (ascii ''upstream returned a body that is not a valid generateContent response'') (Some e))
      | Inr out \<Rightarrow>
          (if gr_BlockReason out \<noteq> [] then Inl (gemini_blocked cfg model (gr_BlockReason out))
           else
             (case gr_Candidates out of
                [] \<Rightarrow> Inl (malformedResponse (pc_Name cfg) model (ascii ''upstream returned no candidates'') None)
              | candidate # _ \<Rightarrow>
                  Inr \<lparr>rs_Content = concat (gc_Parts (gd_Content candidate)), rs_FinishReason = geminiFinishReason (gd_FinishReason candidate),
                       rs_Usage = \<lparr>us_InputTokens = gr_PromptTokenCount out, us_OutputTokens = gr_CandidatesTokenCount out\<rparr>,
                       rs_Model = served_name (gr_ModelVersion out) model, rs_Provider = pc_Name cfg, rs_Latency = latency\<rparr>)))"

definition gemini_decodeStreamEvent :: "(runes \<Rightarrow> geminiResponse option) \<Rightarrow> ProviderConfig \<Rightarrow> string \<Rightarrow> sseEvent \<Rightarrow> decoded" where
  "gemini_decodeStreamEvent unmarshal cfg model ev =
     (let d = TrimSpace (ev_Data ev) in
      if d = [] then NoChunk
      else
        (case unmarshal d of
           None \<Rightarrow> DecodeError (OtherErr (''decoding '' @ pc_Name cfg @ '' stream chunk''))
         | Some wire \<Rightarrow>
             (if gr_BlockReason wire \<noteq> [] then DecodeError (ProviderErr (gemini_blocked cfg model (gr_BlockReason wire)))
              else
                OneChunk
                  \<lparr>ck_Content = (case gr_Candidates wire of [] \<Rightarrow> [] | candidate # _ \<Rightarrow> concat (gc_Parts (gd_Content candidate))),
                   ck_FinishReason =
                     (case gr_Candidates wire of
                        [] \<Rightarrow> FinishNone
                      | candidate # _ \<Rightarrow>
                          (if gd_FinishReason candidate = [] then FinishNone else geminiFinishReason (gd_FinishReason candidate))),
                   ck_Usage =
                     (if gr_PromptTokenCount wire \<noteq> 0 \<or> gr_CandidatesTokenCount wire \<noteq> 0
                      then Some \<lparr>us_InputTokens = gr_PromptTokenCount wire, us_OutputTokens = gr_CandidatesTokenCount wire\<rparr>
                      else None)\<rparr>)))"

definition gemini_classify :: "(runes \<Rightarrow> geminiErrorEnvelope option) \<Rightarrow> ProviderConfig \<Rightarrow> string \<Rightarrow> int \<Rightarrow> runes \<Rightarrow> PError" where
  "gemini_classify unmarshal cfg model status raw =
     (let env = (case unmarshal raw of Some e \<Rightarrow> e | None \<Rightarrow> \<lparr>ge_Message = [], ge_Status = []\<rparr>);
          e = NewHTTPError (pc_Name cfg) model status (error_text (ge_Message env) raw); st = ge_Status env in
      if st = ''RESOURCE_EXHAUSTED'' then e\<lparr>pe_Kind := KindRateLimited, pe_Retryable := True\<rparr>
      else if st \<in> set [''UNAUTHENTICATED'', ''PERMISSION_DENIED''] then e\<lparr>pe_Kind := KindAuthFailed, pe_Retryable := False\<rparr>
      else if st \<in> set [''INVALID_ARGUMENT'', ''FAILED_PRECONDITION'', ''NOT_FOUND'']
      then e\<lparr>pe_Kind := KindInvalidRequest, pe_Retryable := False\<rparr>
      else if st \<in> set [''UNAVAILABLE'', ''INTERNAL'', ''DEADLINE_EXCEEDED''] then e\<lparr>pe_Kind := KindServerError, pe_Retryable := True\<rparr>
      else e)"

section \<open>The Ollama dialect\<close>

record ollamaRequest =
  lq_Model :: string
  lq_Messages :: "wireMessage list"
  lq_Stream :: bool
  lq_Temperature :: "float32 option"
  lq_NumPredict :: int
  lq_Stop :: "runes list"

record ollamaResponse =
  ol_Model :: string
  ol_Message :: wireMessage
  ol_Done :: bool
  ol_DoneReason :: string
  ol_PromptEvalCount :: int
  ol_EvalCount :: int

definition ollama_translateRequest :: "ProviderConfig \<Rightarrow> Request \<Rightarrow> bool \<Rightarrow> ollamaRequest" where
  "ollama_translateRequest cfg req stream =
     \<lparr>lq_Model = rq_Model req,
      lq_Messages = map (\<lambda>m. \<lparr>wm_Role = msg_Role m, wm_Content = msg_Content m\<rparr>) (rq_Messages req), lq_Stream = stream,
      lq_Temperature = rq_Temperature req, lq_NumPredict = max_tokens_for cfg req, lq_Stop = rq_Stop req\<rparr>"

definition ollamaFinishReason :: "string \<Rightarrow> FinishReason" where
  "ollamaFinishReason s = (if s = ''stop'' then FinishStop else if s = ''length'' then FinishLength else FinishOther)"

definition ollama_translateResponse ::
  "(runes \<Rightarrow> GoError + ollamaResponse) \<Rightarrow> ProviderConfig \<Rightarrow> string \<Rightarrow> runes \<Rightarrow> duration \<Rightarrow> PError + Response" where
  "ollama_translateResponse unmarshal cfg model raw latency =
     (case unmarshal raw of
        Inl e \<Rightarrow> Inl (malformedResponse (pc_Name cfg) model (ascii ''upstream returned a body that is not a valid chat response'') (Some e))
      | Inr out \<Rightarrow>
          Inr \<lparr>rs_Content = wm_Content (ol_Message out), rs_FinishReason = ollamaFinishReason (ol_DoneReason out),
               rs_Usage = \<lparr>us_InputTokens = ol_PromptEvalCount out, us_OutputTokens = ol_EvalCount out\<rparr>,
               rs_Model = served_name (ol_Model out) model, rs_Provider = pc_Name cfg, rs_Latency = latency\<rparr>)"

definition ollama_decodeStreamLine :: "(runes \<Rightarrow> ollamaResponse option) \<Rightarrow> ProviderConfig \<Rightarrow> runes \<Rightarrow> decoded" where
  "ollama_decodeStreamLine unmarshal cfg line =
     (case unmarshal line of
        None \<Rightarrow> DecodeError (OtherErr (''decoding '' @ pc_Name cfg @ '' stream line''))
      | Some wire \<Rightarrow>
          OneChunk
            \<lparr>ck_Content = wm_Content (ol_Message wire),
             ck_FinishReason = (if ol_Done wire then ollamaFinishReason (ol_DoneReason wire) else FinishNone),
             ck_Usage = (if ol_Done wire
               then Some \<lparr>us_InputTokens = ol_PromptEvalCount wire, us_OutputTokens = ol_EvalCount wire\<rparr> else None)\<rparr>)"

definition ollama_classify ::
  "(rune \<Rightarrow> rune) \<Rightarrow> (runes \<Rightarrow> runes option) \<Rightarrow> ProviderConfig \<Rightarrow> string \<Rightarrow> int \<Rightarrow> runes \<Rightarrow> PError" where
  "ollama_classify lower unmarshal cfg model status raw =
     (let env = (case unmarshal raw of Some e \<Rightarrow> e | None \<Rightarrow> []);
          e = NewHTTPError (pc_Name cfg) model status (error_text env raw) in
      if status = 404 \<and> contains (map lower env) (ascii ''not found'')
      then e\<lparr>pe_Kind := KindInvalidRequest, pe_Retryable := False\<rparr> else e)"

section \<open>An adapter as a provider\<close>

record json_codec =
  cd_openai :: "runes \<Rightarrow> GoError + oaiChatResponse"
  cd_openaiChunk :: "runes \<Rightarrow> oaiStreamChunk option"
  cd_openaiError :: "runes \<Rightarrow> oaiErrorEnvelope option"
  cd_anthropic :: "runes \<Rightarrow> GoError + anthropicResponse"
  cd_anthropicEvent :: anthropic_codec
  cd_gemini :: "runes \<Rightarrow> GoError + geminiResponse"
  cd_geminiError :: "runes \<Rightarrow> geminiErrorEnvelope option"
  cd_ollama :: "runes \<Rightarrow> GoError + ollamaResponse"
  cd_ollamaError :: "runes \<Rightarrow> runes option"
  cd_lower :: "rune \<Rightarrow> rune"

definition right_of :: "'e + 'a \<Rightarrow> 'a option" where
  "right_of x = (case x of Inl _ \<Rightarrow> None | Inr y \<Rightarrow> Some y)"

datatype payload =
  OpenAIPayload oaiChatRequest | AnthropicPayload anthropicRequest | GeminiPayload geminiRequest | OllamaPayload ollamaRequest

text \<open>\<open>url.PathEscape\<close>, on bytes.\<close>

definition hex_upper :: "nat \<Rightarrow> char" where
  "hex_upper n = ''0123456789ABCDEF'' ! n"

definition path_safe :: "char \<Rightarrow> bool" where
  "path_safe c \<longleftrightarrow>
     c \<in> set ''ABCDEFGHIJKLMNOPQRSTUVWXYZabcdefghijklmnopqrstuvwxyz0123456789-_.~$&+:=@''"

definition PathEscape :: "string \<Rightarrow> string" where
  "PathEscape s =
     concat (map (\<lambda>c. if path_safe c then [c]
       else [CHR ''%'', hex_upper (of_char c div 16), hex_upper (of_char c mod 16)]) s)"

text \<open>The body that the four \<open>Complete\<close> methods share, and that of the four \<open>Stream\<close> methods.\<close>

definition complete_with ::
  "('p, 'w) network \<Rightarrow> ProviderConfig \<Rightarrow> string \<Rightarrow> (string \<times> string) list \<Rightarrow> 'p \<Rightarrow>
   (string \<Rightarrow> int \<Rightarrow> runes \<Rightarrow> PError) \<Rightarrow> (string \<Rightarrow> runes \<Rightarrow> duration \<Rightarrow> PError + Response) \<Rightarrow> string \<Rightarrow> 'w \<Rightarrow>
   (CallError + Response) \<times> 'w" where
  "complete_with net cfg url headers payload classify translate model w =
     (case postJSON net cfg url model headers payload w of
        (Inl e, w') \<Rightarrow> (Inl e, w')
      | (Inr res, w') \<Rightarrow>
          (if hr_Status res \<ge> 400
           then (Inl (ProviderErr ((classify model (hr_Status res) (hr_Body res))
                   \<lparr>pe_RetryAfter := parseRetryAfter (nw_ParseTime net) (hr_RetryAfter res) (nw_now net w')\<rparr>)), w')
           else
             (case translate model (hr_Body res) (hr_Latency res) of
                Inl e \<Rightarrow> (Inl (ProviderErr e), w')
              | Inr r \<Rightarrow> (Inr r, w'))))"

text \<open>A live stream: the adapter and the model it was opened for, the decoder's state and the body.\<close>

record adapter_stream =
  as_adapter :: Adapter
  as_model :: string
  as_inputTokens :: int
  as_body :: body

definition stream_with ::
  "('p, 'w) network \<Rightarrow> Adapter \<Rightarrow> string \<Rightarrow> (string \<times> string) list \<Rightarrow> 'p \<Rightarrow>
   (string \<Rightarrow> int \<Rightarrow> runes \<Rightarrow> PError) \<Rightarrow> string \<Rightarrow> 'w \<Rightarrow> (CallError + adapter_stream) \<times> 'w" where
  "stream_with net p url headers payload classify model w =
     (case openStream net (adapter_cfg p) url model headers payload w of
        (Inl e, w') \<Rightarrow> (Inl e, w')
      | (Inr resp, w') \<Rightarrow>
          (if ha_Status resp \<ge> 400 then (Inl (readStreamError net (adapter_cfg p) model classify resp w'), w')
           else (Inr \<lparr>as_adapter = p, as_model = model, as_inputTokens = 0, as_body = ha_Body resp\<rparr>, w')))"

definition openai_headers :: "ProviderConfig \<Rightarrow> (string \<times> string) list" where
  "openai_headers cfg = (if pc_APIKey cfg = [] then [] else [(''Authorization'', ''Bearer '' @ pc_APIKey cfg)])"

definition openai_Complete ::
  "(payload, 'w) network \<Rightarrow> json_codec \<Rightarrow> ProviderConfig \<Rightarrow> Request \<Rightarrow> 'w \<Rightarrow> (CallError + Response) \<times> 'w" where
  "openai_Complete net cd cfg req =
     complete_with net cfg (trim_slash (pc_BaseURL cfg) @ ''/chat/completions'') (openai_headers cfg)
       (OpenAIPayload (openai_translateRequest cfg req False)) (openai_classify (cd_openaiError cd) cfg)
       (openai_translateResponse (cd_openai cd) cfg) (rq_Model req)"

definition openai_Stream ::
  "(payload, 'w) network \<Rightarrow> json_codec \<Rightarrow> ProviderConfig \<Rightarrow> Request \<Rightarrow> 'w \<Rightarrow> (CallError + adapter_stream) \<times> 'w" where
  "openai_Stream net cd cfg req =
     stream_with net (OpenAICompatible cfg) (trim_slash (pc_BaseURL cfg) @ ''/chat/completions'') (openai_headers cfg)
       (OpenAIPayload (openai_translateRequest cfg req True)) (openai_classify (cd_openaiError cd) cfg) (rq_Model req)"

definition anthropic_headers :: "ProviderConfig \<Rightarrow> (string \<times> string) list" where
  "anthropic_headers cfg =
     (''anthropic-version'', anthropicVersion) # (if pc_APIKey cfg = [] then [] else [(''x-api-key'', pc_APIKey cfg)])"

definition anthropic_Complete ::
  "(payload, 'w) network \<Rightarrow> json_codec \<Rightarrow> ProviderConfig \<Rightarrow> Request \<Rightarrow> 'w \<Rightarrow> (CallError + Response) \<times> 'w" where
  "anthropic_Complete net cd cfg req =
     complete_with net cfg (trim_slash (pc_BaseURL cfg) @ ''/messages'') (anthropic_headers cfg)
       (AnthropicPayload (anthropic_translateRequest cfg req False)) (anthropic_classify (ac_error (cd_anthropicEvent cd)) cfg)
       (anthropic_translateResponse (cd_anthropic cd) cfg) (rq_Model req)"

definition anthropic_Stream ::
  "(payload, 'w) network \<Rightarrow> json_codec \<Rightarrow> ProviderConfig \<Rightarrow> Request \<Rightarrow> 'w \<Rightarrow> (CallError + adapter_stream) \<times> 'w" where
  "anthropic_Stream net cd cfg req =
     stream_with net (Anthropic cfg) (trim_slash (pc_BaseURL cfg) @ ''/messages'') (anthropic_headers cfg)
       (AnthropicPayload (anthropic_translateRequest cfg req True)) (anthropic_classify (ac_error (cd_anthropicEvent cd)) cfg)
       (rq_Model req)"

definition gemini_headers :: "ProviderConfig \<Rightarrow> (string \<times> string) list" where
  "gemini_headers cfg = (if pc_APIKey cfg = [] then [] else [(''x-goog-api-key'', pc_APIKey cfg)])"

definition gemini_Complete ::
  "(payload, 'w) network \<Rightarrow> json_codec \<Rightarrow> ProviderConfig \<Rightarrow> Request \<Rightarrow> 'w \<Rightarrow> (CallError + Response) \<times> 'w" where
  "gemini_Complete net cd cfg req =
     complete_with net cfg (trim_slash (pc_BaseURL cfg) @ ''/models/'' @ PathEscape (rq_Model req) @ '':generateContent'') (gemini_headers cfg)
       (GeminiPayload (gemini_translateRequest cfg req)) (gemini_classify (cd_geminiError cd) cfg)
       (gemini_translateResponse (cd_gemini cd) cfg) (rq_Model req)"

definition gemini_Stream ::
  "(payload, 'w) network \<Rightarrow> json_codec \<Rightarrow> ProviderConfig \<Rightarrow> Request \<Rightarrow> 'w \<Rightarrow> (CallError + adapter_stream) \<times> 'w" where
  "gemini_Stream net cd cfg req =
     stream_with net (Gemini cfg)
       (trim_slash (pc_BaseURL cfg) @ ''/models/'' @ PathEscape (rq_Model req) @ '':streamGenerateContent?alt=sse'') (gemini_headers cfg)
       (GeminiPayload (gemini_translateRequest cfg req)) (gemini_classify (cd_geminiError cd) cfg) (rq_Model req)"

definition ollama_Complete ::
  "(payload, 'w) network \<Rightarrow> json_codec \<Rightarrow> ProviderConfig \<Rightarrow> Request \<Rightarrow> 'w \<Rightarrow> (CallError + Response) \<times> 'w" where
  "ollama_Complete net cd cfg req =
     complete_with net cfg (trim_slash (pc_BaseURL cfg) @ ''/api/chat'') []
       (OllamaPayload (ollama_translateRequest cfg req False)) (ollama_classify (cd_lower cd) (cd_ollamaError cd) cfg)
       (ollama_translateResponse (cd_ollama cd) cfg) (rq_Model req)"

definition ollama_Stream ::
  "(payload, 'w) network \<Rightarrow> json_codec \<Rightarrow> ProviderConfig \<Rightarrow> Request \<Rightarrow> 'w \<Rightarrow> (CallError + adapter_stream) \<times> 'w" where
  "ollama_Stream net cd cfg req =
     stream_with net (Ollama cfg) (trim_slash (pc_BaseURL cfg) @ ''/api/chat'') []
       (OllamaPayload (ollama_translateRequest cfg req True)) (ollama_classify (cd_lower cd) (cd_ollamaError cd) cfg) (rq_Model req)"

text \<open>The methods of the \<open>Provider\<close> interface.\<close>

definition adapter_classify :: "json_codec \<Rightarrow> Adapter \<Rightarrow> string \<Rightarrow> int \<Rightarrow> runes \<Rightarrow> PError" where
  "adapter_classify cd p =
     (case p of
        OpenAICompatible cfg \<Rightarrow> openai_classify (cd_openaiError cd) cfg
      | Anthropic cfg \<Rightarrow> anthropic_classify (ac_error (cd_anthropicEvent cd)) cfg
      | Gemini cfg \<Rightarrow> gemini_classify (cd_geminiError cd) cfg
      | Ollama cfg \<Rightarrow> ollama_classify (cd_lower cd) (cd_ollamaError cd) cfg)"

definition adapter_Complete ::
  "(payload, 'w) network \<Rightarrow> json_codec \<Rightarrow> Adapter \<Rightarrow> Request \<Rightarrow> 'w \<Rightarrow> (CallError + Response) \<times> 'w" where
  "adapter_Complete net cd p =
     (case p of
        OpenAICompatible cfg \<Rightarrow> openai_Complete net cd cfg | Anthropic cfg \<Rightarrow> anthropic_Complete net cd cfg
      | Gemini cfg \<Rightarrow> gemini_Complete net cd cfg | Ollama cfg \<Rightarrow> ollama_Complete net cd cfg)"

definition adapter_Stream ::
  "(payload, 'w) network \<Rightarrow> json_codec \<Rightarrow> Adapter \<Rightarrow> Request \<Rightarrow> 'w \<Rightarrow> (CallError + adapter_stream) \<times> 'w" where
  "adapter_Stream net cd p =
     (case p of
        OpenAICompatible cfg \<Rightarrow> openai_Stream net cd cfg | Anthropic cfg \<Rightarrow> anthropic_Stream net cd cfg
      | Gemini cfg \<Rightarrow> gemini_Stream net cd cfg | Ollama cfg \<Rightarrow> ollama_Stream net cd cfg)"

definition adapter_decode :: "json_codec \<Rightarrow> Adapter \<Rightarrow> string \<Rightarrow> int \<Rightarrow> sseEvent \<Rightarrow> decoded \<times> int" where
  "adapter_decode cd p model n ev =
     (case p of
        OpenAICompatible cfg \<Rightarrow> (openai_decodeStreamEvent (cd_openaiChunk cd) cfg ev, n)
      | Anthropic cfg \<Rightarrow> anthropic_decode (cd_anthropicEvent cd) cfg model n ev
      | Gemini cfg \<Rightarrow> (gemini_decodeStreamEvent (right_of \<circ> cd_gemini cd) cfg model ev, n)
      | Ollama _ \<Rightarrow> (NoChunk, n))"

definition adapter_Recv :: "json_codec \<Rightarrow> adapter_stream \<Rightarrow> received \<times> adapter_stream" where
  "adapter_Recv cd s =
     (case as_adapter s of
        Ollama cfg \<Rightarrow>
          (case ndjson_recv (ollama_decodeStreamLine (right_of \<circ> cd_ollama cd) cfg) (as_body s) of
             (got, b') \<Rightarrow> (got, s\<lparr>as_body := b'\<rparr>))
      | p \<Rightarrow>
          (case sse_recv (adapter_decode cd p (as_model s)) (as_inputTokens s, as_body s) of
             (got, n, b') \<Rightarrow> (got, s\<lparr>as_inputTokens := n, as_body := b'\<rparr>)))"

text \<open>The cheapest completion, for the health checker.\<close>

definition adapter_Ping ::
  "(payload, 'w) network \<Rightarrow> json_codec \<Rightarrow> Adapter \<Rightarrow> 'w \<Rightarrow> CallError option \<times> 'w" where
  "adapter_Ping net cd p w =
     (case pingModel (adapter_cfg p) of
        None \<Rightarrow> (Some (OtherErr (''provider '' @ adapter_Name p @ '' has no model to ping'')), w)
      | Some model \<Rightarrow>
          (case adapter_Complete net cd p (pingRequest model) w of
             (Inl e, w') \<Rightarrow> (Some e, w')
           | (Inr _, w') \<Rightarrow> (None, w')))"

section \<open>Events as a provider writes them\<close>

text \<open>
  The reader against its reference: a list of events. An event is written as an optional
  \<open>event\<close> line and a \<open>data\<close> line; \<open>writable\<close> is what fits on such lines.
\<close>

definition write_event :: "sseEvent \<Rightarrow> runes" where
  "write_event ev =
     (if ev_Event ev = [] then [] else ascii ''event: '' @ ev_Event ev @ [10]) @ ascii ''data: '' @ ev_Data ev @ [10, 10]"

definition writable :: "sseEvent \<Rightarrow> bool" where
  "writable ev \<longleftrightarrow> 10 \<notin> set (ev_Event ev @ ev_Data ev) \<and> 13 \<notin> set (ev_Event ev @ ev_Data ev) \<and>
     TrimSpace (ev_Event ev) = ev_Event ev \<and>
     byte_len (ev_Event ev) + 7 < maxStreamLineBytes \<and> byte_len (ev_Data ev) + 6 < maxStreamLineBytes"

fun recv_events :: "('d \<Rightarrow> sseEvent \<Rightarrow> decoded \<times> 'd) \<Rightarrow> received \<Rightarrow> 'd \<Rightarrow> sseEvent list \<Rightarrow> received \<times> 'd \<times> sseEvent list" where
  "recv_events decode stop d [] = (stop, d, [])"
| "recv_events decode stop d (ev # evs) =
     (case decode d ev of
        (DecodeError e, d') \<Rightarrow> (RecvErr e, d', evs)
      | (StreamDone, d') \<Rightarrow> (RecvEOF, d', evs)
      | (NoChunk, d') \<Rightarrow> recv_events decode stop d' evs
      | (OneChunk chunk, d') \<Rightarrow> (RecvChunk chunk, d', evs))"

definition body_end :: "GoError option \<Rightarrow> received" where
  "body_end e = (case e of None \<Rightarrow> RecvEOF | Some err \<Rightarrow> RecvErr (scan_error (ReadError err)))"

lemma Scan_line:
  assumes "10 \<notin> set l" "13 \<notin> set l" "byte_len l < maxStreamLineBytes"
  shows "Scan \<lparr>bd_text = l @ 10 # rest, bd_err = e\<rparr> = (ScanLine l, \<lparr>bd_text = rest, bd_err = e\<rparr>)"
proof -
  have "takeWhile (\<lambda>x. x \<noteq> 10) (l @ 10 # rest) = l" "dropWhile (\<lambda>x. x \<noteq> 10) (l @ 10 # rest) = 10 # rest"
    using assms(1) by (induction l) auto
  moreover have "drop_cr l = l" using assms(2) last_in_set [of l] unfolding drop_cr_def by metis
  ultimately show ?thesis using assms(3) by (simp add: Scan_def)
qed

lemma sse_next_line:
  assumes "10 \<notin> set l" "13 \<notin> set l" "byte_len l < maxStreamLineBytes" "l \<noteq> []"
  shows "sse_next acc sawAny \<lparr>bd_text = l @ 10 # rest, bd_err = e\<rparr> =
    sse_next (sse_field l acc) True \<lparr>bd_text = rest, bd_err = e\<rparr>"
  using assms by (subst sse_next.simps) (simp add: Scan_line)

lemma sse_next_blank:
  "sse_next acc True \<lparr>bd_text = 10 # rest, bd_err = e\<rparr> =
    (NextEvent (finish_event (fst acc) (snd acc)), \<lparr>bd_text = rest, bd_err = e\<rparr>)"
  using Scan_line [of "[]" rest e] by (subst sse_next.simps) (simp add: maxStreamLineBytes_def byte_len_def)

lemma sse_field_event:
  "TrimSpace name = name \<Longrightarrow> sse_field (ascii ''event: '' @ name) (ev, ds) = (name, ds)"
  by (simp add: sse_field_def trim_prefix_def ascii_def TrimSpace_def is_space_def)

lemma sse_field_data: "sse_field (ascii ''data: '' @ d) (ev, ds) = (ev, ds @ [d])"
  by (simp add: sse_field_def trim_prefix_def ascii_def)

lemma sse_Next_written:
  assumes "writable ev"
  shows "sse_Next \<lparr>bd_text = write_event ev @ rest, bd_err = e\<rparr> = (NextEvent ev, \<lparr>bd_text = rest, bd_err = e\<rparr>)"
proof -
  let ?b = "\<lambda>t. \<lparr>bd_text = t, bd_err = e\<rparr>" and ?d = "ascii ''data: '' @ ev_Data ev" and ?n = "ascii ''event: '' @ ev_Event ev"
  have len: "byte_len (ascii ''data: '') = 6" "byte_len (ascii ''event: '') = 7"
    "10 \<notin> set (ascii ''data: '')" "13 \<notin> set (ascii ''data: '')" "10 \<notin> set (ascii ''event: '')" "13 \<notin> set (ascii ''event: '')"
    "ascii ''data: '' \<noteq> []" "ascii ''event: '' \<noteq> []"
    by (simp_all add: ascii_def byte_len_def utf8_len_def)
  have d: "sse_next (name, []) saw (?b (?d @ 10 # 10 # rest)) = (NextEvent (finish_event name [ev_Data ev]), ?b rest)" for name saw
    using assms len by (subst sse_next_line) (auto simp: writable_def sse_field_data sse_next_blank)
  show ?thesis
  proof (cases "ev_Event ev = []")
    case True
    then show ?thesis using d [of "[]" False] by (simp add: sse_Next_def write_event_def finish_event_def)
  next
    case False
    have "sse_next ([], []) False (?b (?n @ 10 # ?d @ 10 # 10 # rest)) =
        sse_next (sse_field ?n ([], [])) True (?b (?d @ 10 # 10 # rest))"
      using assms len by (subst sse_next_line) (auto simp: writable_def)
    then show ?thesis using False d [of "ev_Event ev" True] assms
      by (simp add: sse_Next_def write_event_def sse_field_event writable_def finish_event_def)
  qed
qed

lemma sse_Next_end: "sse_Next \<lparr>bd_text = [], bd_err = e\<rparr> =
    ((case e of None \<Rightarrow> NextEOF | Some err \<Rightarrow> NextError (ReadError err)), \<lparr>bd_text = [], bd_err = e\<rparr>)"
  unfolding sse_Next_def by (subst sse_next.simps) (simp add: Scan_def split: option.split)

text \<open>Reading written events is reading the list.\<close>

lemma sse_recv_events:
  assumes "\<forall>ev \<in> set evs. writable ev" "recv_events decode (body_end e) d evs = (got, d', evs')"
  shows "sse_recv decode (d, \<lparr>bd_text = concat (map write_event evs), bd_err = e\<rparr>) =
    (got, d', \<lparr>bd_text = concat (map write_event evs'), bd_err = e\<rparr>)"
  using assms
proof (induction evs arbitrary: d)
  case Nil
  then show ?case by (subst sse_recv.simps) (simp add: sse_Next_end body_end_def split: option.splits)
next
  case (Cons ev evs)
  then show ?case
    by (subst sse_recv.simps) (simp add: sse_Next_written split: prod.splits decoded.splits)
qed

text \<open>All that a list of events holds: the chunks and how they end.\<close>

fun decode_all :: "('d \<Rightarrow> sseEvent \<Rightarrow> decoded \<times> 'd) \<Rightarrow> received \<Rightarrow> 'd \<Rightarrow> sseEvent list \<Rightarrow> Chunk list \<times> received" where
  "decode_all decode stop d [] = ([], stop)"
| "decode_all decode stop d (ev # evs) =
     (case decode d ev of
        (DecodeError e, d') \<Rightarrow> ([], RecvErr e)
      | (StreamDone, d') \<Rightarrow> ([], RecvEOF)
      | (NoChunk, d') \<Rightarrow> decode_all decode stop d' evs
      | (OneChunk chunk, d') \<Rightarrow> (case decode_all decode stop d' evs of (chunks, e) \<Rightarrow> (chunk # chunks, e)))"

lemma recv_events_chunk:
  "recv_events decode stop d evs = (RecvChunk ch, d', evs') \<Longrightarrow> \<forall>ch. stop \<noteq> RecvChunk ch \<Longrightarrow>
     decode_all decode stop d evs = (ch # fst (decode_all decode stop d' evs'), snd (decode_all decode stop d' evs')) \<and>
     set evs' \<subseteq> set evs \<and> length evs' < length evs"
  by (induction evs arbitrary: d) (fastforce split: prod.splits decoded.splits)+

lemma recv_events_stop:
  "recv_events decode stop d evs = (got, d', evs') \<Longrightarrow> \<forall>ch. got \<noteq> RecvChunk ch \<Longrightarrow> decode_all decode stop d evs = ([], got)"
  by (induction evs arbitrary: d) (fastforce split: prod.splits decoded.splits)+

section \<open>A chunk is progress\<close>

lemma sse_recv_shrinks:
  "sse_recv decode x = (RecvChunk ch, d', b') \<Longrightarrow> length (bd_text b') < length (bd_text (snd x))"
proof (induction decode x rule: sse_recv.induct)
  case (1 decode x)
  obtain nx b1 where nx: "sse_Next (snd x) = (nx, b1)" by (rule prod.exhaust)
  show ?case
  proof (cases nx)
    case (NextEvent ev)
    have less: "length (bd_text b1) < length (bd_text (snd x))"
      using sse_next_shrinks nx NextEvent unfolding sse_Next_def by blast
    obtain r d1 where r: "decode (fst x) ev = (r, d1)" by (rule prod.exhaust)
    show ?thesis
      using 1(2) less 1(1) [OF nx [symmetric] NextEvent r [symmetric]]
      by (cases r) (simp_all add: sse_recv.simps [of decode x] nx NextEvent r)
  qed (use 1(2) in \<open>simp_all add: sse_recv.simps [of decode x] nx\<close>)
qed

lemma ndjson_recv_shrinks:
  "ndjson_recv decode b = (RecvChunk ch, b') \<Longrightarrow> length (bd_text b') < length (bd_text b)"
proof (induction decode b rule: ndjson_recv.induct)
  case (1 decode b)
  obtain sc b1 where sc: "Scan b = (sc, b1)" by (rule prod.exhaust)
  show ?case
  proof (cases sc)
    case (ScanLine l)
    note less = Scan_shrinks [OF sc [unfolded ScanLine]]
    show ?thesis
      using 1(3) less 1(1) [OF sc [symmetric] ScanLine refl] 1(2) [OF sc [symmetric] ScanLine refl]
      by (cases "decode (TrimSpace l)") (auto simp: ndjson_recv.simps [of decode b] sc ScanLine Let_def split: if_splits)
  qed (use 1(3) in \<open>auto simp: ndjson_recv.simps [of decode b] sc split: option.splits\<close>)
qed

lemma adapter_Recv_shrinks:
  "adapter_Recv cd s = (RecvChunk ch, s') \<Longrightarrow> length (bd_text (as_body s')) < length (bd_text (as_body s))"
  by (auto simp: adapter_Recv_def split: Adapter.splits prod.splits dest!: sse_recv_shrinks ndjson_recv_shrinks)

section \<open>Classified errors\<close>

lemma error_text_bounded: "byte_len (error_text e raw) \<le> maxErrorMessageBytes + 3"
  unfolding error_text_def Let_def using truncateMessage_bounded by simp

lemma classify_names:
  "pe_Provider (adapter_classify cd p model status raw) = adapter_Name p" "pe_Model (adapter_classify cd p model status raw) = model"
  "pe_StatusCode (adapter_classify cd p model status raw) = status"
  "byte_len (pe_Message (adapter_classify cd p model status raw)) \<le> maxErrorMessageBytes + 3"
  using error_text_bounded
  by (simp_all add: adapter_classify_def openai_classify_def anthropic_classify_def gemini_classify_def ollama_classify_def
      NewHTTPError_def adapter_Name_def Let_def split: Adapter.split)

text \<open>A model that an Ollama server does not have ends the walk over the chain.\<close>

lemma ollama_missing_model_stops: "\<not> ShouldFallback (ProviderErr (adapter_classify cd (Ollama cfg) model 404 raw))"
  by (simp add: adapter_classify_def ollama_classify_def NewHTTPError_def KindForStatus_def ShouldFallback_def Let_def)

end
