(* ===== verification/Gateway.thy ===== *)
theory Gateway
  imports Middleware Cache Chaos Quality Adapters
begin

text \<open>
  The chat-completions handler (\<open>internal/proxy/handler.go\<close>), with the parts of
  \<open>internal/proxy/cache.go\<close> and \<open>internal/proxy/quality.go\<close> it calls: from the decoded body
  through routing, authorization, the cache, the two reservations and the fallback chain to the
  reply, and the settlement afterwards. Providers, their streams and the client's connection are
  parameters. Every route is behind the timing layer, so the metrics are there; a fault that is
  injected as a panic is carried by the flag of the shared state. Spans, counters and logs are
  left out.
\<close>

section \<open>The handler and its world\<close>

text \<open>
  Beside what requests share: the time the request spent upstream and the start of its latest
  call, the quality worker, and the rest of the world.
\<close>

record 'x req_env =
  qe_providerTime :: duration
  qe_callStart :: instant
  qe_quality :: "QWorker option"
  qe_rest :: 'x

type_synonym ('r, 'x) gcore = "('r, 'x req_env) core"

record ('r, 'x, 's) handler =
  hd_gw :: "'r gateway"
  hd_chaos :: "Chaos option"
  hd_cache :: "(('r, 'x) gcore SemCache \<times> TTLPolicy) option"
  hd_Complete :: "Adapter \<Rightarrow> Request \<Rightarrow> ('r, 'x) gcore \<Rightarrow> (CallError + Response) \<times> ('r, 'x) gcore"
  hd_Stream :: "Adapter \<Rightarrow> Request \<Rightarrow> ('r, 'x) gcore \<Rightarrow> (CallError + 's) \<times> ('r, 'x) gcore"
  hd_Recv :: "'s \<Rightarrow> ('r, 'x) gcore \<Rightarrow> received \<times> 's \<times> ('r, 'x) gcore"
  hd_Close :: "'s \<Rightarrow> ('r, 'x) gcore \<Rightarrow> ('r, 'x) gcore"
  hd_write :: "sse_event \<Rightarrow> ('r, 'x) gcore \<Rightarrow> bool \<times> ('r, 'x) gcore"
  hd_sleep :: "duration \<Rightarrow> ('r, 'x) gcore \<Rightarrow> bool \<times> ('r, 'x) gcore"
  hd_rand :: "int \<Rightarrow> ('r, 'x) gcore \<Rightarrow> int \<times> ('r, 'x) gcore"
  hd_draw :: "('r, 'x) gcore \<Rightarrow> rat \<times> ('r, 'x) gcore"
  hd_flushable :: bool
  hd_fmt32 :: "float32 \<Rightarrow> string"

definition unix_now :: "('r, 'e) core \<Rightarrow> int" where
  "unix_now c = tdiv (now_of c - abs_nanos \<lparr>cv_year = 1970, cv_month = 1, cv_day = 1, cv_nanos = 0\<rparr>) second"

section \<open>The request\<close>

text \<open>\<open>BodyInvalid\<close> carries the decoder's message.\<close>

datatype decoded_body = BodyTooLarge | BodyInvalid runes | BodyOK chatRequest

record http_request =
  hq_ID :: string
  hq_ContentType :: string
  hq_CacheTTL :: string
  hq_Body :: decoded_body

definition RequestError_text :: "(float32 \<Rightarrow> string) \<Rightarrow> RequestError \<Rightarrow> string" where
  "RequestError_text fmt e =
     (case e of
        ModelRequired \<Rightarrow> ''model is required''
      | NoMessages \<Rightarrow> ''messages must contain at least one message''
      | RoleRequired i \<Rightarrow> ''messages['' @ show_nat i @ '']: role is required''
      | UnknownRole i role \<Rightarrow>
          ''messages['' @ show_nat i @ '']: unknown role '' @ quote role @ '' (want system, user, or assistant)''
      | NegativeMaxTokens \<Rightarrow> ''max_tokens cannot be negative''
      | BadTemperature t \<Rightarrow> ''temperature '' @ fmt t @ '' is outside the supported range 0 to 2'')"

definition decode :: "(float32 \<Rightarrow> string) \<Rightarrow> http_request \<Rightarrow> http_reply + chatRequest" where
  "decode fmt hq =
     (if hq_ContentType hq \<noteq> [] \<and> \<not> has_prefix (hq_ContentType hq) ''application/json''
      then Inl (writeError 415 ''invalid_request_error'' (ascii ''Content-Type must be application/json''))
      else
        (case hq_Body hq of
           BodyTooLarge \<Rightarrow> Inl (writeError 413 ''invalid_request_error'' (ascii ''request body exceeds the 1 MiB limit''))
         | BodyInvalid msg \<Rightarrow>
             Inl (writeError 400 ''invalid_request_error'' (ascii ''request body is not valid JSON: '' @ msg))
         | BodyOK req \<Rightarrow>
             (case chatRequest_validate req of
                Some e \<Rightarrow> Inl (writeError 400 ''invalid_request_error'' (ascii (RequestError_text fmt e)))
              | None \<Rightarrow> Inr req)))"

definition no_team :: http_reply where
  "no_team = writeError 500 ''internal_error'' (ascii ''the gateway could not resolve the caller's team'')"

definition authorizeModel :: "Team option \<Rightarrow> string \<Rightarrow> http_reply option" where
  "authorizeModel team model =
     (case team of
        None \<Rightarrow> Some no_team
      | Some t \<Rightarrow>
          (if \<not> AllowsModel t model
           then Some (writeError 403 ''model_not_allowed''
             (ascii (''team '' @ quote (tm_ID t) @ '' is not permitted to use model '' @ quote model @
                ''; allowed models: '' @ join '', '' (tm_AllowedModels t))))
           else None))"

definition resolve :: "'r gateway \<Rightarrow> string \<Rightarrow> http_reply + Adapter" where
  "resolve g model =
     (case store_ForModel (gw_store g) model of
        None \<Rightarrow> Inl (writeError 404 ''model_not_found'' (ascii (''no provider is configured to serve model '' @ quote model)))
      | Some prov \<Rightarrow> Inr prov)"

section \<open>Reservations\<close>

definition tpm_reconcile :: "'r gateway \<Rightarrow> Reservation option \<Rightarrow> int \<Rightarrow> ('r, 'e) core \<Rightarrow> ('r, 'e) core" where
  "tpm_reconcile g rsv actual c = snd (at_server (on_server (\<lambda>d. Reconcile (gw_redis g) d rsv actual)) c)"

definition reserveTokens ::
  "'r gateway \<Rightarrow> Team option \<Rightarrow> chatRequest \<Rightarrow> ('r, 'e) core \<Rightarrow> (http_reply + Reservation option) \<times> ('r, 'e) core" where
  "reserveTokens g team req c =
     (case team of
        None \<Rightarrow> (Inl no_team, c)
      | Some t \<Rightarrow>
          (case store_DefaultMaxTokensFor (gw_store g) (cr_Model req) of
             None \<Rightarrow>
               (Inl (writeError 500 ''internal_error''
                  (ascii ''the gateway could not size this request's token reservation'')), c)
           | Some defaultMaxTokens \<Rightarrow>
               (let limit = rl_TPM (tm_RateLimits t) in
                case at_server (on_server (\<lambda>d r.
                       case Reserve (gw_redis g) d (tm_ID t) TPM limit (estimateTokens req defaultMaxTokens) bucketTTL r of
                         (rsv, res, r') \<Rightarrow> ((rsv, res), r'))) c of
                  ((rsv, Inl _), c') \<Rightarrow> (Inr None, c')
                | ((rsv, Inr res), c') \<Rightarrow>
                    (if \<not> rl_Allowed res then (Inl (writeRateLimitError TPM limit res), c')
                     else if shouldShedForPriority t limit res
                     then (Inl (writePriorityShedError TPM limit res), tpm_reconcile g rsv 0 c')
                     else (Inr rsv, c')))))"

text \<open>The reservation, what it was sized at, and the headers it sets.\<close>

definition reserveBudget ::
  "'r gateway \<Rightarrow> Team option \<Rightarrow> chatRequest \<Rightarrow> ('r, 'e) core \<Rightarrow>
   (http_reply + BudgetReservation option \<times> int \<times> (string \<times> string) list) \<times> ('r, 'e) core" where
  "reserveBudget g team req c =
     (case team of
        None \<Rightarrow> (Inl no_team, c)
      | Some t \<Rightarrow>
          (case store_DefaultMaxTokensFor (gw_store g) (cr_Model req) of
             None \<Rightarrow>
               (Inl (writeError 500 ''internal_error''
                  (ascii ''the gateway could not size this request's budget reservation'')), c)
           | Some defaultMaxTokens \<Rightarrow>
               (case store_Cost (gw_store g) (cr_Model req) (estimateInputTokens req)
                   (estimateOutputCeiling req defaultMaxTokens) of
                  Inl _ \<Rightarrow> (Inl (writeError 500 ''internal_error'' (ascii ''the gateway could not price this request'')), c)
                | Inr estimatedMicros \<Rightarrow>
                    (case budget_reserve g t estimatedMicros c of
                       ((rsv, Inl _), c') \<Rightarrow> (Inl writeBudgetUnavailableError, c')
                     | ((rsv, Inr res), c') \<Rightarrow>
                         (if \<not> bud_Allowed res
                          then (Inl (writeBudgetExceededError (tm_ID t) (bud_SpentMicros res) (tm_MonthlyBudgetMicros t)), c')
                          else
                            (Inr (rsv, estimatedMicros,
                               if utilization (bud_SpentMicros res) (tm_MonthlyBudgetMicros t) \<ge> budgetWarnThreshold
                               then [(''X-Switchyard-Budget-Warning'', ''true'')] else []), c'))))))"

section \<open>Pricing\<close>

definition recordRoutingSavings :: "'r gateway \<Rightarrow> Usage \<Rightarrow> requestMetrics \<Rightarrow> requestMetrics" where
  "recordRoutingSavings g usage m =
     (if mt_routedTier m = [] \<or> mt_routeBaselineModel m = [] then m
      else
        (case store_Cost (gw_store g) (mt_routeBaselineModel m) (us_InputTokens usage) (us_OutputTokens usage) of
           Inl _ \<Rightarrow> m
         | Inr baseline \<Rightarrow> m\<lparr>mt_routingSavingsMicros := Some (i64 (baseline - mt_costMicros m))\<rparr>))"

definition recordCost :: "'r gateway \<Rightarrow> string \<Rightarrow> Usage \<Rightarrow> requestMetrics \<Rightarrow> requestMetrics" where
  "recordCost g model usage m =
     (case store_Cost (gw_store g) model (us_InputTokens usage) (us_OutputTokens usage) of
        Inl _ \<Rightarrow> m
      | Inr cost \<Rightarrow>
          (let m1 = recordRoutingSavings g usage (m\<lparr>mt_costMicros := cost\<rparr>); baseline = baselineModel m1 in
           if mt_fellBack m1 \<and> baseline \<noteq> [] \<and> baseline \<noteq> model then
             (case store_Cost (gw_store g) baseline (us_InputTokens usage) (us_OutputTokens usage) of
                Inl _ \<Rightarrow> m1
              | Inr want \<Rightarrow> m1\<lparr>mt_fallbackCostDeltaMicros := Some (i64 (cost - want))\<rparr>)
           else m1))"

section \<open>The cache on the request path\<close>

definition no_key :: Key where
  "no_key = \<lparr>ky_Fingerprint = [], ky_Query = [], ky_EntryID = [], ky_TeamID = [], ky_ScopeID = []\<rparr>"

definition no_result :: LookupResult where
  "no_result =
     \<lparr>lk_Hit = False, lk_Tier = TierNone, lk_Entry = None, lk_Similarity = 0, lk_Embedding = [], lk_EmbedLatency = 0,
      lk_Latency = 0, lk_Threshold = 0\<rparr>"

definition CacheTier_name :: "CacheTier \<Rightarrow> string" where
  "CacheTier_name t = (case t of TierNone \<Rightarrow> [] | TierExact \<Rightarrow> ''exact'' | TierSemantic \<Rightarrow> ''semantic'')"

definition consultCache ::
  "('r, 'x, 's) handler \<Rightarrow> Team option \<Rightarrow> chatRequest \<Rightarrow> requestMetrics \<Rightarrow> ('r, 'x) gcore \<Rightarrow>
   (Key \<times> LookupResult \<times> bool) \<times> requestMetrics \<times> ('r, 'x) gcore" where
  "consultCache h team req m c =
     (case (hd_cache h, team) of
        (Some (ca, _), Some t) \<Rightarrow>
          (let key = NewKey \<lparr>sc_Org = tm_OrganizationID t, sc_Team = tm_ID t, sc_Isolated = tm_CacheIsolated t\<rparr>
                 (toProviderRequest req) in
           case Lookup ca key c of
             (result, c') \<Rightarrow>
               ((key, result, True),
                m\<lparr>mt_cacheHit := Some (lk_Hit result),
                  mt_cacheTier := (if lk_Hit result then CacheTier_name (lk_Tier result) else ''miss''),
                  mt_embedTime := lk_EmbedLatency result\<rparr>, c'))
      | _ \<Rightarrow> ((no_key, no_result, False), m, c))"

definition storeInCache ::
  "('r, 'x, 's) handler \<Rightarrow> http_request \<Rightarrow> Key \<Rightarrow> LookupResult \<Rightarrow> Response \<Rightarrow> ('r, 'x) gcore \<Rightarrow> ('r, 'x) gcore" where
  "storeInCache h hq k result resp c =
     (case hd_cache h of
        None \<Rightarrow> c
      | Some (ca, policy) \<Rightarrow>
          (if \<not> Cacheable resp then c
           else
             (case TTLFor (gw_lower (hd_gw h)) policy (ky_Query k) (parseCacheTTLHeader (hq_CacheTTL hq)) of
                None \<Rightarrow> c
              | Some ttl \<Rightarrow>
                  Store ca k (lk_Embedding result)
                    \<lparr>en_Response = rs_Content resp, en_FinishReason = rs_FinishReason resp,
                     en_InputTokens = us_InputTokens (rs_Usage resp), en_OutputTokens = us_OutputTokens (rs_Usage resp),
                     en_Model = rs_Model resp, en_Provider = rs_Provider resp, en_CreatedAt = Some (now_of c), en_Hits = 0,
                     en_Embedding = []\<rparr> ttl c)))"

section \<open>Quality sampling\<close>

definition quality_candidate :: "requestMetrics \<Rightarrow> LookupResult \<Rightarrow> QCandidate" where
  "quality_candidate m result =
     \<lparr>qc_Routed = (mt_routedTier m \<noteq> []),
      qc_Downgraded = (case mt_routingSavingsMicros m of Some s \<Rightarrow> s > 0 | None \<Rightarrow> False),
      qc_CacheHit = lk_Hit result, qc_CacheSemantic = (lk_Tier result = TierSemantic),
      qc_Similarity = lk_Similarity result, qc_Threshold = lk_Threshold result, qc_Flagged = False\<rparr>"

definition considerQuality ::
  "('r, 'x, 's) handler \<Rightarrow> string \<Rightarrow> chatRequest \<Rightarrow> string \<Rightarrow> string \<Rightarrow> runes \<Rightarrow> LookupResult \<Rightarrow> requestMetrics \<Rightarrow>
   ('r, 'x) gcore \<Rightarrow> ('r, 'x) gcore" where
  "considerQuality h rid req servedModel servedProvider response result m c =
     (case qe_quality (co_env c) of
        None \<Rightarrow> c
      | Some worker \<Rightarrow>
          (if response = [] \<or> mt_teamID m = [] then c
           else
             (case Decide (hd_draw h) (qw_sampler worker) (quality_candidate m result) c of
                (None, c') \<Rightarrow> c'
              | (Some reason, c') \<Rightarrow>
                  c'\<lparr>co_env := (co_env c')\<lparr>qe_quality := map_option (Enqueue
                       \<lparr>qs_RequestID = rid, qs_TeamID = mt_teamID m, qs_Model = servedModel, qs_Provider = servedProvider,
                        qs_Reason = reason, qs_Prompt = rq_Messages (toProviderRequest req), qs_Response = response\<rparr>)
                     (qe_quality (co_env c'))\<rparr>\<rparr>)))"

section \<open>Calling a provider\<close>

definition note_time :: "duration \<Rightarrow> ('r, 'x) gcore \<Rightarrow> ('r, 'x) gcore" where
  "note_time d c = c\<lparr>co_env := (co_env c)\<lparr>qe_providerTime := qe_providerTime (co_env c) + d\<rparr>\<rparr>"

definition outcome_of :: "CallError option \<Rightarrow> outcome" where
  "outcome_of err =
     (case err of
        None \<Rightarrow> CallOK
      | Some e \<Rightarrow> (case asProviderError e of Some pe \<Rightarrow> CallFailed pe | None \<Rightarrow> CallBroken))"

definition record_health :: "string \<Rightarrow> duration \<Rightarrow> CallError option \<Rightarrow> ('r, 'e) core \<Rightarrow> ('r, 'e) core" where
  "record_health name latency err c = c\<lparr>co_recorder := Record (now_of c) name latency (outcome_of err) (co_recorder c)\<rparr>"

text \<open>The outbound request carries the candidate's model.\<close>

definition attempt_request :: "chatRequest \<Rightarrow> Candidate \<Rightarrow> Request" where
  "attempt_request req cand = (toProviderRequest req)\<lparr>rq_Model := cn_Model cand\<rparr>"

text \<open>A call that failed after it began at \<open>start\<close>.\<close>

definition call_failed :: "Candidate \<Rightarrow> instant \<Rightarrow> CallError \<Rightarrow> ('r, 'x) gcore \<Rightarrow> ('r, 'x) gcore" where
  "call_failed cand start e c =
     (let elapsed = now_of c - start in record_health (cn_Provider cand) elapsed (Some e) (note_time elapsed c))"

definition call_panicked :: "('r, 'x) gcore \<Rightarrow> ('r, 'x) gcore" where
  "call_panicked c = c\<lparr>co_panicked := True\<rparr>"

definition complete_call ::
  "('r, 'x, 's) handler \<Rightarrow> chatRequest \<Rightarrow> Adapter \<Rightarrow> Candidate \<Rightarrow> ('r, 'x) gcore \<Rightarrow>
   (Response option \<times> CallError option) \<times> ('r, 'x) gcore" where
  "complete_call h req prov cand c =
     (let start = now_of c in
      case Chaos_Apply (hd_sleep h) (hd_chaos h) (cn_Provider cand) (cn_Model cand) c of
        (InjectedPanic, c1) \<Rightarrow> ((None, Some (OtherErr ''panic'')), call_panicked c1)
      | (Fault e, c1) \<Rightarrow> ((None, Some (ProviderErr e)), call_failed cand start (ProviderErr e) c1)
      | (Proceed, c1) \<Rightarrow>
          (case hd_Complete h prov (attempt_request req cand) c1 of
             (Inl e, c2) \<Rightarrow> ((None, Some e), call_failed cand start e c2)
           | (Inr resp, c2) \<Rightarrow>
               ((Some resp, None), record_health (rs_Provider resp) (rs_Latency resp) None (note_time (rs_Latency resp) c2))))"

definition stream_call ::
  "('r, 'x, 's) handler \<Rightarrow> chatRequest \<Rightarrow> Adapter \<Rightarrow> Candidate \<Rightarrow> ('r, 'x) gcore \<Rightarrow>
   ('s option \<times> CallError option) \<times> ('r, 'x) gcore" where
  "stream_call h req prov cand c0 =
     (let start = now_of c0; c = c0\<lparr>co_env := (co_env c0)\<lparr>qe_callStart := start\<rparr>\<rparr> in
      case Chaos_Apply (hd_sleep h) (hd_chaos h) (cn_Provider cand) (cn_Model cand) c of
        (InjectedPanic, c1) \<Rightarrow> ((None, Some (OtherErr ''panic'')), call_panicked c1)
      | (Fault e, c1) \<Rightarrow> ((None, Some (ProviderErr e)), call_failed cand start (ProviderErr e) c1)
      | (Proceed, c1) \<Rightarrow>
          (case hd_Stream h prov (attempt_request req cand) c1 of
             (Inl e, c2) \<Rightarrow> ((None, Some e), call_failed cand start e c2)
           | (Inr s, c2) \<Rightarrow> ((Some s, None), c2)))"

definition outside_of ::
  "('r, 'x, 's) handler \<Rightarrow> (Adapter \<Rightarrow> Candidate \<Rightarrow> ('r, 'x) gcore \<Rightarrow> ('a option \<times> CallError option) \<times> ('r, 'x) gcore) \<Rightarrow>
   ('a, 'r, 'x req_env) outside" where
  "outside_of h call = \<lparr>os_call = call, os_sleep = hd_sleep h, os_rand = hd_rand h\<rparr>"

definition start_calls :: "('r, 'x) gcore \<Rightarrow> ('r, 'x) gcore" where
  "start_calls c = c\<lparr>co_env := (co_env c)\<lparr>qe_providerTime := 0, qe_callStart := 0\<rparr>\<rparr>"

section \<open>A complete answer\<close>

text \<open>
  What serving a request leaves: the reply, the tokens it used, the top-ups of its budget and
  the provider calls it made.
\<close>

record served_request =
  sr_handled :: handled
  sr_actual :: int
  sr_budget :: "chainBudget option"
  sr_spans :: "call_span list"

definition failed_chain ::
  "string \<Rightarrow> chainFailure list \<Rightarrow> CallError \<Rightarrow> (string \<times> string) list \<Rightarrow> chainBudget option \<Rightarrow> call_span list \<Rightarrow>
   requestMetrics \<Rightarrow> ('r, 'x) gcore \<Rightarrow> served_request" where
  "failed_chain model failures err hdrs cb sps m c =
     (let r = writeChainError model failures err in
      \<lparr>sr_handled = \<lparr>hn_reply = Some (r\<lparr>rp_Headers := hdrs @ rp_Headers r\<rparr>), hn_panicked = False, hn_at = now_of c,
         hn_metrics = m\<lparr>mt_providerName := cn_Provider (lastAttempted failures),
                        mt_providerTime := qe_providerTime (co_env c)\<rparr>\<rparr>,
       sr_actual = 0, sr_budget = cb, sr_spans = sps\<rparr>)"

definition panicked_request ::
  "chainBudget option \<Rightarrow> call_span list \<Rightarrow> requestMetrics \<Rightarrow> ('r, 'x) gcore \<Rightarrow> served_request" where
  "panicked_request cb sps m c =
     \<lparr>sr_handled = \<lparr>hn_reply = None, hn_panicked = True, hn_at = now_of c, hn_metrics = m\<rparr>,
      sr_actual = 0, sr_budget = cb, sr_spans = sps\<rparr>"

text \<open>A success without a response would be dereferenced, hence a panic.\<close>

definition completeChat ::
  "('r, 'x, 's) handler \<Rightarrow> http_request \<Rightarrow> chatRequest \<Rightarrow> Candidate \<Rightarrow> Candidate list \<Rightarrow> chainBudget \<Rightarrow> Key \<Rightarrow> LookupResult \<Rightarrow>
   bool \<Rightarrow> (string \<times> string) list \<Rightarrow> requestMetrics \<Rightarrow> ('r, 'x) gcore \<Rightarrow> served_request \<times> ('r, 'x) gcore" where
  "completeChat h hq req requested chain cb key result cacheOn hdrs m c =
     (case runChain (hd_gw h) (outside_of h (complete_call h req)) chain (Some cb) (start_calls c, []) of
        (ChainServed (Some resp) served failures, cb', c1, sps) \<Rightarrow>
          (let m1 = recordCost (hd_gw h) (rs_Model resp) (rs_Usage resp)
                 (m\<lparr>mt_providerName := rs_Provider resp, mt_servedModel := rs_Model resp, mt_fellBack := (served \<noteq> requested),
                    mt_providerTime := qe_providerTime (co_env c1), mt_usage := rs_Usage resp\<rparr>);
               r = writeSuccess (hq_ID hq) (unix_now c1) resp;
               c2 = (if cacheOn then storeInCache h hq key result resp c1 else c1);
               c3 = considerQuality h (hq_ID hq) req (rs_Model resp) (rs_Provider resp) (rs_Content resp) result m1 c2
           in (\<lparr>sr_handled = \<lparr>hn_reply = Some (r\<lparr>rp_Headers := hdrs @ rp_Headers r\<rparr>), hn_panicked = False,
                  hn_at = now_of c1, hn_metrics = m1\<rparr>,
                sr_actual = i64 (us_InputTokens (rs_Usage resp) + us_OutputTokens (rs_Usage resp)),
                sr_budget = cb', sr_spans = sps\<rparr>, c3))
      | (ChainFailed failures err, cb', c1, sps) \<Rightarrow> (failed_chain (cr_Model req) failures err hdrs cb' sps m c1, c1)
      | (_, cb', c1, sps) \<Rightarrow> (panicked_request cb' sps m c1, c1))"

section \<open>A streamed answer\<close>

record relay_state =
  ry_content :: runes
  ry_finish :: FinishReason
  ry_usage :: Usage
  ry_latency :: "duration option"
  ry_events :: "sse_event list"
  ry_at :: instant

text \<open>How a relay ends: the upstream finished, it failed, or the client is gone.\<close>

datatype relay_end = RelayDone | RelayFailed CallError | RelayCut

definition first_byte :: "('r, 'x) gcore \<Rightarrow> relay_state \<Rightarrow> relay_state" where
  "first_byte c st =
     (if ry_latency st = None
      then st\<lparr>ry_latency := Some (qe_providerTime (co_env c) + (now_of c - qe_callStart (co_env c)))\<rparr> else st)"

definition absorb :: "Chunk \<Rightarrow> relay_state \<Rightarrow> relay_state" where
  "absorb chunk st =
     st\<lparr>ry_content := ry_content st @ ck_Content chunk,
        ry_finish := (if ck_FinishReason chunk \<noteq> FinishNone then ck_FinishReason chunk else ry_finish st),
        ry_usage := (case ck_Usage chunk of Some u \<Rightarrow> u | None \<Rightarrow> ry_usage st)\<rparr>"

definition empty_chunk :: "Chunk \<Rightarrow> bool" where
  "empty_chunk chunk \<longleftrightarrow> ck_Content chunk = [] \<and> ck_FinishReason chunk = FinishNone"

text \<open>
  The receive loop, which ends when the upstream or the client does. An event whose write
  failed is not counted as sent.
\<close>

definition relay_step ::
  "('r, 'x, 's) handler \<Rightarrow> (Chunk \<Rightarrow> bool \<Rightarrow> sse_event) \<Rightarrow> relay_state \<times> 's \<times> ('r, 'x) gcore \<Rightarrow>
   (relay_end \<times> relay_state \<times> 's \<times> ('r, 'x) gcore) + (relay_state \<times> 's \<times> ('r, 'x) gcore)" where
  "relay_step h event x =
     (case x of
        (st, s, c) \<Rightarrow>
          (case hd_Recv h s c of
             (RecvEOF, s1, c1) \<Rightarrow> Inl (RelayDone, first_byte c1 st, s1, c1)
           | (RecvErr e, s1, c1) \<Rightarrow> Inl (RelayFailed e, first_byte c1 st, s1, c1)
           | (RecvChunk chunk, s1, c1) \<Rightarrow>
               (let st1 = absorb chunk (first_byte c1 st) in
                if empty_chunk chunk then Inr (st1, s1, c1)
                else
                  (let ev = event chunk (ry_events st1 = []) in
                   case hd_write h ev c1 of
                     (False, c2) \<Rightarrow> Inl (RelayCut, st1, s1, c2)
                   | (True, c2) \<Rightarrow>
                       Inr (st1\<lparr>ry_events := ry_events st1 @ [ev],
                               ry_at := (if ry_events st1 = [] then now_of c1 else ry_at st1)\<rparr>, s1, c2)))))"

partial_function (option) relay ::
  "('r, 'x, 's) handler \<Rightarrow> (Chunk \<Rightarrow> bool \<Rightarrow> sse_event) \<Rightarrow> relay_state \<times> 's \<times> ('r, 'x) gcore \<Rightarrow>
   (relay_end \<times> relay_state \<times> 's \<times> ('r, 'x) gcore) option" where
  "relay h event x = (case relay_step h event x of Inl r \<Rightarrow> Some r | Inr x' \<Rightarrow> relay h event x')"



definition stream_headers :: "(string \<times> string) list" where
  "stream_headers = [(''Content-Type'', ''text/event-stream''), (''Cache-Control'', ''no-cache''), (''Connection'', ''keep-alive'')]"

text \<open>What the reservation of tokens is settled with.\<close>

definition stream_tokens :: "chatRequest \<Rightarrow> relay_state \<Rightarrow> int" where
  "stream_tokens req st =
     (let n = i64 (us_InputTokens (ry_usage st) + us_OutputTokens (ry_usage st)) in
      if n = 0 \<and> ry_content st \<noteq> []
      then estimateInputTokens req + tdiv (int (byte_len (ry_content st)) + charsPerToken - 1) charsPerToken
      else n)"

definition stream_response :: "Candidate \<Rightarrow> relay_state \<Rightarrow> Response" where
  "stream_response served st =
     \<lparr>rs_Content = ry_content st, rs_FinishReason = ry_finish st, rs_Usage = ry_usage st, rs_Model = cn_Model served,
      rs_Provider = cn_Provider served, rs_Latency = 0\<rparr>"

text \<open>
  The reply and the state once the relay has ended. A failure before the first event is an
  ordinary error reply; after it, an error event ends the stream without an end marker. A
  failure while the caller's context has ended writes nothing more. Only a completed stream is
  priced, and only one whose end marker was written is stored.
\<close>

definition finish_stream ::
  "('r, 'x, 's) handler \<Rightarrow> http_request \<Rightarrow> chatRequest \<Rightarrow> Candidate \<Rightarrow> Key \<Rightarrow> LookupResult \<Rightarrow> bool \<Rightarrow> (string \<times> string) list \<Rightarrow>
   relay_end \<Rightarrow> relay_state \<Rightarrow> requestMetrics \<Rightarrow> ('r, 'x) gcore \<Rightarrow> handled \<times> ('r, 'x) gcore" where
  "finish_stream h hq req served key result cacheOn hdrs ending st m0 c =
     (let latency = the (ry_latency st);
          m = m0\<lparr>mt_providerTime := latency\<rparr>;
          streamed = (\<lambda>evs m'. \<lparr>hn_reply = Some \<lparr>rp_Status = 200, rp_Headers = hdrs @ stream_headers, rp_Body = StreamBody evs\<rparr>,
             hn_panicked = False, hn_at = (if ry_events st = [] then now_of c else ry_at st), hn_metrics = m'\<rparr>) in
      case ending of
        RelayCut \<Rightarrow> (streamed (ry_events st) m, c)
      | RelayFailed e \<Rightarrow>
          (if co_ended c then (streamed (ry_events st) m, c)
           else
             (let c1 = record_health (cn_Provider served) latency (Some e) c in
              if ry_events st = []
              then (let r = writeProviderError (asProviderError e)
                    in (\<lparr>hn_reply = Some (r\<lparr>rp_Headers := hdrs @ tl stream_headers @ rp_Headers r\<rparr>), hn_panicked = False,
                         hn_at = now_of c1, hn_metrics = m\<rparr>, c1))
              else (case hd_write h (writeSSEError (asProviderError e)) c1 of
                      (ok, c2) \<Rightarrow> (streamed (ry_events st @ (if ok then [writeSSEError (asProviderError e)] else [])) m, c2))))
      | RelayDone \<Rightarrow>
          (let c1 = record_health (cn_Provider served) latency None c;
               m1 = recordCost (hd_gw h) (cn_Model served) (ry_usage st) (m\<lparr>mt_usage := ry_usage st\<rparr>) in
           case hd_write h SSEDone c1 of
             (False, c2) \<Rightarrow> (streamed (ry_events st) m1, c2)
           | (True, c2) \<Rightarrow>
               (let c3 = (if cacheOn then storeInCache h hq key result (stream_response served st) c2 else c2);
                    c4 = considerQuality h (hq_ID hq) req (cn_Model served) (cn_Provider served) (ry_content st) result m1 c3
                in (streamed (ry_events st @ [SSEDone]) m1, c4))))"

definition streamChatCompletions ::
  "('r, 'x, 's) handler \<Rightarrow> http_request \<Rightarrow> chatRequest \<Rightarrow> Candidate \<Rightarrow> Candidate list \<Rightarrow> chainBudget \<Rightarrow> Key \<Rightarrow> LookupResult \<Rightarrow>
   bool \<Rightarrow> (string \<times> string) list \<Rightarrow> requestMetrics \<Rightarrow> ('r, 'x) gcore \<Rightarrow> (served_request \<times> ('r, 'x) gcore) option" where
  "streamChatCompletions h hq req requested chain cb key result cacheOn hdrs m c =
     (if \<not> hd_flushable h then
        (let r = writeError 500 ''internal_error'' (ascii ''the gateway cannot stream a response'') in
         Some (\<lparr>sr_handled = \<lparr>hn_reply = Some (r\<lparr>rp_Headers := hdrs @ rp_Headers r\<rparr>), hn_panicked = False, hn_at = now_of c,
                  hn_metrics = m\<rparr>, sr_actual = 0, sr_budget = Some cb, sr_spans = []\<rparr>, c))
      else
        (case runChain (hd_gw h) (outside_of h (stream_call h req)) chain (Some cb) (start_calls c, []) of
           (ChainServed (Some s) served failures, cb', c1, sps) \<Rightarrow>
             (let m1 = m\<lparr>mt_providerName := cn_Provider served, mt_servedModel := cn_Model served,
                        mt_fellBack := (served \<noteq> requested)\<rparr>;
                  created = unix_now c1;
                  event = (\<lambda>chunk first. SSEChunk (toChatChunk (chatCompletionID (hq_ID hq)) created (cn_Model served) chunk first));
                  st0 = \<lparr>ry_content = [], ry_finish = FinishNone, ry_usage = \<lparr>us_InputTokens = 0, us_OutputTokens = 0\<rparr>,
                         ry_latency = None, ry_events = [], ry_at = 0\<rparr> in
              case relay h event (st0, s, c1) of
                None \<Rightarrow> None
              | Some (ending, st, s', c2) \<Rightarrow>
                  (case finish_stream h hq req served key result cacheOn hdrs ending st m1 c2 of
                     (hnd, c3) \<Rightarrow>
                       Some (\<lparr>sr_handled = hnd, sr_actual = stream_tokens req st, sr_budget = cb', sr_spans = sps\<rparr>,
                             hd_Close h s' c3)))
         | (ChainFailed failures err, cb', c1, sps) \<Rightarrow> Some (failed_chain (cr_Model req) failures err hdrs cb' sps m c1, c1)
         | (_, cb', c1, sps) \<Rightarrow> Some (panicked_request cb' sps m c1, c1)))"

section \<open>The handler\<close>

definition refuse :: "http_reply \<Rightarrow> requestMetrics \<Rightarrow> ('r, 'x) gcore \<Rightarrow> (handled \<times> call_span list \<times> ('r, 'x) gcore) option" where
  "refuse r m c = Some (\<lparr>hn_reply = Some r, hn_panicked = False, hn_at = now_of c, hn_metrics = m\<rparr>, [], c)"

definition note_route :: "routeNote option \<Rightarrow> requestMetrics \<Rightarrow> requestMetrics" where
  "note_route note m =
     (case note of
        None \<Rightarrow> m
      | Some n \<Rightarrow> m\<lparr>mt_routedModel := rn_routedModel n, mt_routedTier := rn_routedTier n, mt_routeReason := rn_routeReason n,
                   mt_routeBaselineModel := rn_routeBaselineModel n\<rparr>)"

text \<open>A hit is served without any reservation.\<close>

definition serveHit ::
  "('r, 'x, 's) handler \<Rightarrow> http_request \<Rightarrow> chatRequest \<Rightarrow> Entry \<Rightarrow> LookupResult \<Rightarrow> requestMetrics \<Rightarrow> ('r, 'x) gcore \<Rightarrow>
   (handled \<times> call_span list \<times> ('r, 'x) gcore) option" where
  "serveHit h hq req e result m c =
     (let r = (if cr_Stream req then serveStreamFromCache (hd_flushable h) (hq_ID hq) (unix_now c) e
               else serveFromCache (hq_ID hq) (unix_now c) e);
          m1 = (if cr_Stream req \<and> \<not> hd_flushable h then m
                else m\<lparr>mt_providerName := en_Provider e, mt_servedModel := en_Model e,
                      mt_usage := \<lparr>us_InputTokens = en_InputTokens e, us_OutputTokens = en_OutputTokens e\<rparr>\<rparr>)
      in Some (\<lparr>hn_reply = Some r, hn_panicked = False, hn_at = now_of c, hn_metrics = m1\<rparr>, [],
           considerQuality h (hq_ID hq) req (en_Model e) (en_Provider e) (en_Response e) result m1 c))"

text \<open>The deferred settlements, in the order they run: money first, then tokens.\<close>

definition settle ::
  "'r gateway \<Rightarrow> Reservation option \<Rightarrow> BudgetReservation option \<Rightarrow> served_request \<Rightarrow> ('r, 'x) gcore \<Rightarrow> ('r, 'x) gcore" where
  "settle g tokens money sr c =
     (let c1 = budget_reconcile g money (mt_costMicros (hn_metrics (sr_handled sr))) c;
          c2 = (case sr_budget sr of None \<Rightarrow> c1 | Some cb \<Rightarrow> reconcileExtras g cb c1)
      in tpm_reconcile g tokens (sr_actual sr) c2)"

definition reserveAndServe ::
  "('r, 'x, 's) handler \<Rightarrow> Team option \<Rightarrow> http_request \<Rightarrow> chatRequest \<Rightarrow> Candidate \<Rightarrow> Candidate list \<Rightarrow> Key \<Rightarrow> LookupResult \<Rightarrow>
   bool \<Rightarrow> requestMetrics \<Rightarrow> ('r, 'x) gcore \<Rightarrow> (handled \<times> call_span list \<times> ('r, 'x) gcore) option" where
  "reserveAndServe h team hq req requested chain key result cacheOn m c =
     (case reserveTokens (hd_gw h) team req c of
        (Inl r, c1) \<Rightarrow> refuse r m c1
      | (Inr tokens, c1) \<Rightarrow>
          (case reserveBudget (hd_gw h) team req c1 of
             (Inl r, c2) \<Rightarrow>
               Some (\<lparr>hn_reply = Some r, hn_panicked = False, hn_at = now_of c2, hn_metrics = m\<rparr>, [],
                 tpm_reconcile (hd_gw h) tokens 0 c2)
           | (Inr (money, estimatedMicros, hdrs), c2) \<Rightarrow>
               (let cb = \<lparr>cb_team = the team, cb_req = req, cb_baseMicros = estimatedMicros, cb_extra = []\<rparr> in
                case (if cr_Stream req
                      then streamChatCompletions h hq req requested chain cb key result cacheOn hdrs m c2
                      else Some (completeChat h hq req requested chain cb key result cacheOn hdrs m c2)) of
                  None \<Rightarrow> None
                | Some (sr, c3) \<Rightarrow> Some (sr_handled sr, sr_spans sr, settle (hd_gw h) tokens money sr c3))))"

definition ChatCompletions ::
  "('r, 'x, 's) handler \<Rightarrow> Team option \<Rightarrow> http_request \<Rightarrow> requestMetrics \<Rightarrow> ('r, 'x) gcore \<Rightarrow>
   (handled \<times> call_span list \<times> ('r, 'x) gcore) option" where
  "ChatCompletions h team hq m0 c0 =
     (case decode (hd_fmt32 h) hq of
        Inl r \<Rightarrow> refuse r m0 c0
      | Inr req0 \<Rightarrow>
          (let m1 = m0\<lparr>mt_requestedModel := cr_Model req0, mt_stream := cr_Stream req0\<rparr> in
           case route (hd_gw h) team req0 c0 of
             (Inl r, c1) \<Rightarrow> refuse r m1 c1
           | (Inr (req, note), c1) \<Rightarrow>
               (let m2 = note_route note m1 in
                case authorizeModel team (cr_Model req) of
                  Some r \<Rightarrow> refuse r m2 c1
                | None \<Rightarrow>
                    (case resolve (hd_gw h) (cr_Model req) of
                       Inl r \<Rightarrow> refuse r m2 c1
                     | Inr prov \<Rightarrow>
                         (let requested = \<lparr>cn_Provider = adapter_Name prov, cn_Model = cr_Model req\<rparr>;
                              chain = chainFor (hd_gw h) team c1 requested in
                          if chain = [] then
                            refuse (writeError 403 ''provider_not_allowed''
                              (ascii (''team '' @ quote (teamID team) @ '' is not permitted to use any provider that serves model '' @
                                 quote (cr_Model req)))) m2 c1
                          else
                            (case consultCache h team req m2 c1 of
                               ((key, result, cacheOn), m3, c2) \<Rightarrow>
                                 (case (if lk_Hit result then lk_Entry result else None) of
                                    Some e \<Rightarrow> serveHit h hq req e result m3 c2
                                  | None \<Rightarrow> reserveAndServe h team hq req requested chain key result cacheOn m3 c2)))))))"

section \<open>Facts on the walk\<close>

text \<open>An invariant of the budget and the shared state that everything the walk does keeps.\<close>

lemma try_candidate_inv:
  assumes max: "1 \<le> MaxAttempts (gw_retry g)" "0 < remaining"
    and check: "\<And>cand cb c. I cb c \<Longrightarrow> I cb (snd (breaker_check g cand c))"
    and report: "\<And>cand ok cb c. I cb c \<Longrightarrow> I cb (breaker_report g cand ok c)"
    and admits: "\<And>model cb c x cb' c'. I cb c \<Longrightarrow> admit g model cb c = (x, cb', c') \<Longrightarrow> I cb' c'"
    and call: "\<And>prov cand cb c. I cb c \<Longrightarrow> I cb (snd (os_call os prov cand c))"
    and sleep: "\<And>d cb c. I cb c \<Longrightarrow> I cb (snd (os_sleep os d c))"
    and rand: "\<And>u cb c. I cb c \<Longrightarrow> I cb (snd (os_rand os u c))"
    and start: "I cb c" "try_candidate g os i remaining fs cand cb (c, sps) = (t, cb', c', sps')"
  shows "I cb' c'"
proof -
  let ?cfg = "if remaining < MaxAttempts (gw_retry g) then (gw_retry g)\<lparr>MaxAttempts := remaining\<rparr> else gw_retry g"
  obtain allowed c1 where b: "breaker_check g cand c = (allowed, c1)" by (rule prod.exhaust)
  have i1: "I cb c1" using check [OF start(1), of cand] b by simp
  obtain x cb2 c2 where a: "admit g (cn_Model cand) cb c1 = (x, cb2, c2)" by (rule prod_cases3)
  have i2: "I cb2 c2" using admits [OF i1 a] .
  have i3: "I cb2 (fst (snd (Do ?cfg (attempt_env os prov cand (0 < i)) (c2, sps))))" for prov
    by (rule Do_inv [where P = "\<lambda>w. I cb2 (fst w)"])
      (use max i2 call sleep rand in \<open>auto simp: attempt_env_def split_beta\<close>)
  show ?thesis using start(2) i1 i2 i3 report unfolding try_candidate_def b a prod.case
    by (auto simp: Let_def split: option.splits bool.splits if_splits prod.splits) (metis fst_conv snd_conv)+
qed

lemma walk_inv:
  assumes max: "1 \<le> MaxAttempts (gw_retry g)"
    and check: "\<And>cand cb c. I cb c \<Longrightarrow> I cb (snd (breaker_check g cand c))"
    and report: "\<And>cand ok cb c. I cb c \<Longrightarrow> I cb (breaker_report g cand ok c)"
    and admits: "\<And>model cb c x cb' c'. I cb c \<Longrightarrow> admit g model cb c = (x, cb', c') \<Longrightarrow> I cb' c'"
    and call: "\<And>prov cand cb c. I cb c \<Longrightarrow> I cb (snd (os_call os prov cand c))"
    and sleep: "\<And>d cb c. I cb c \<Longrightarrow> I cb (snd (os_sleep os d c))"
    and rand: "\<And>u cb c. I cb c \<Longrightarrow> I cb (snd (os_rand os u c))"
  shows "walk g os i chain spent fs cb w = (res, cb', c', sps') \<Longrightarrow> I cb (fst w) \<Longrightarrow> I cb' c'"
proof (induction chain arbitrary: i spent fs cb w)
  case (Cons cand rest)
  let ?rem = "MaxTotalAttempts (gw_retry g) - spent"
  show ?case
  proof (cases "?rem \<le> 0 \<or> 0 < i \<and> co_ended (fst w)")
    case True
    then show ?thesis using Cons.prems walk_stops [OF True, of os "cand # rest" fs cb] by auto
  next
    case False
    obtain t cb1 c1 sps1 where t: "try_candidate g os i ?rem fs cand cb w = (t, cb1, c1, sps1)" by (metis prod.exhaust)
    have "try_candidate g os i ?rem fs cand cb (fst w, snd w) = (t, cb1, c1, sps1)" "0 < ?rem" using t False by simp_all
    from try_candidate_inv [where I = I, OF max this(2) check report admits call sleep rand Cons.prems(2) this(1)]
    have "I cb1 c1" by simp
    then show ?thesis
      using Cons.prems(1) [unfolded walk_unfold [OF False t]] Cons.IH [where w = "(c1, sps1)"]
      by (auto split: tried.splits option.splits if_splits)
  qed
qed auto

section \<open>Facts on serving\<close>

lemma completeChat_run:
  assumes "completeChat h hq req rq chain cb k rs on hdrs m c = (sr, c')"
  shows "\<exists>res c1. runChain (hd_gw h) (outside_of h (complete_call h req)) chain (Some cb) (start_calls c, []) =
    (res, sr_budget sr, c1, sr_spans sr)"
  using assms unfolding completeChat_def
  by (auto simp: Let_def failed_chain_def panicked_request_def split: prod.splits chain_result.splits option.splits)

lemma streamChat_run:
  assumes "streamChatCompletions h hq req rq chain cb k rs on hdrs m c = Some (sr, c')"
  shows "sr_spans sr = [] \<and> sr_budget sr = Some cb \<or>
    (\<exists>res c1. runChain (hd_gw h) (outside_of h (stream_call h req)) chain (Some cb) (start_calls c, []) =
       (res, sr_budget sr, c1, sr_spans sr))"
  using assms unfolding streamChatCompletions_def
  by (auto simp: Let_def failed_chain_def panicked_request_def split: prod.splits chain_result.splits option.splits if_splits)

lemma runChain_spans:
  assumes "1 \<le> MaxAttempts (gw_retry g)" "runChain g os chain cb (c, []) = (res, cb', c', sps)" "sp \<in> set sps"
  shows "sp_Candidate sp \<in> set chain"
  using walk_trace [OF assms(1), of os 0 chain 0 "[]" cb "(c, [])"] assms(2,3) walk_spans_in
  by (auto simp: runChain_def)

lemma runChain_bound:
  assumes "1 \<le> MaxAttempts (gw_retry g)" "runChain g os chain cb (c, []) = (res, cb', c', sps)"
  shows "int (length sps) \<le> max 0 (MaxTotalAttempts (gw_retry g))"
proof -
  obtain ks where "walk_report (gw_retry g) chain 0 [] res ks" "sps = walk_spans 0 chain ks"
    using walk_trace [OF assms(1), of os 0 chain 0 "[]" cb "(c, [])"] assms(2) by (auto simp: runChain_def)
  then show ?thesis using length_walk_spans [of ks chain 0] by (simp add: walk_report_def)
qed

lemma budget_reserve_granted:
  assumes "budget_reserve g t est c = ((rsv, Inr res), c')" "bud_Allowed res"
  shows "rsv = Some \<lparr>br_teamID = tm_ID t, br_period = currentPeriod (co_clock c), br_reserved = est\<rparr>"
  using assms by (auto simp: budget_reserve_def at_server_def on_server_def BudgetReserve_def Let_def
      split: prod.splits option.splits if_splits)

text \<open>The request that a call to a provider implies was admitted: its budget was granted.\<close>

definition budget_granted :: "'r gateway \<Rightarrow> Team \<Rightarrow> chatRequest \<Rightarrow> ('r, 'e) core \<Rightarrow> bool" where
  "budget_granted g t req c \<longleftrightarrow>
     (\<exists>d est rsv res c'. store_DefaultMaxTokensFor (gw_store g) (cr_Model req) = Some d \<and>
        store_Cost (gw_store g) (cr_Model req) (estimateInputTokens req) (estimateOutputCeiling req d) = Inr est \<and>
        budget_reserve g t est c = ((Some rsv, Inr res), c') \<and> bud_Allowed res \<and> br_reserved rsv = est)"

lemma reserveBudget_granted:
  assumes "reserveBudget g team req c = (Inr (money, est, hdrs), c')"
  shows "\<exists>t. team = Some t \<and> budget_granted g t req c \<and>
    money = Some \<lparr>br_teamID = tm_ID t, br_period = currentPeriod (co_clock c), br_reserved = est\<rparr>"
  using assms budget_reserve_granted [of g _ est c money _ c'] unfolding reserveBudget_def budget_granted_def
  by (fastforce split: option.splits sum.splits prod.splits if_splits)

lemma reserveAndServe_calls:
  fixes h :: "('r, 'x, 's) handler"
  assumes max: "1 \<le> MaxAttempts (gw_retry (hd_gw h))"
    and run: "reserveAndServe h team hq req rq chain k rs on m c = Some (hnd, sps, c')" and "sps \<noteq> []"
  shows "set (map sp_Candidate sps) \<subseteq> set chain \<and> int (length sps) \<le> MaxTotalAttempts (gw_retry (hd_gw h)) \<and>
    (\<exists>t tokens c1. team = Some t \<and> reserveTokens (hd_gw h) team req c = (Inr tokens, c1) \<and> budget_granted (hd_gw h) t req c1)"
proof -
  obtain tokens c1 money est hdrs c2 cb sr c3 where
    tok: "reserveTokens (hd_gw h) team req c = (Inr tokens, c1)" and
    r: "reserveBudget (hd_gw h) team req c1 = (Inr (money, est, hdrs), c2)" "sps = sr_spans sr"
      "(if cr_Stream req then streamChatCompletions h hq req rq chain cb k rs on hdrs m c2
        else Some (completeChat h hq req rq chain cb k rs on hdrs m c2)) = Some (sr, c3)"
    using run assms(3) unfolding reserveAndServe_def refuse_def
    by (auto simp: Let_def split: prod.splits sum.splits option.splits)
  have "set (map sp_Candidate sps) \<subseteq> set chain \<and> int (length sps) \<le> max 0 (MaxTotalAttempts (gw_retry (hd_gw h)))"
  proof (cases "cr_Stream req")
    case True
    then obtain res c4 where "runChain (hd_gw h) (outside_of h (stream_call h req)) chain (Some cb) (start_calls c2, []) =
        (res, sr_budget sr, c4, sps)"
      using streamChat_run [of h hq req rq chain cb k rs on hdrs m c2 sr c3] r(2,3) assms(3) by auto
    from runChain_spans [OF max this] runChain_bound [OF max this] show ?thesis by auto
  next
    case False
    then obtain res c4 where "runChain (hd_gw h) (outside_of h (complete_call h req)) chain (Some cb) (start_calls c2, []) =
        (res, sr_budget sr, c4, sps)"
      using completeChat_run [of h hq req rq chain cb k rs on hdrs m c2 sr c3] r(2,3) by auto
    from runChain_spans [OF max this] runChain_bound [OF max this] show ?thesis by auto
  qed
  moreover have "0 < int (length sps)" using assms(3) by simp
  ultimately show ?thesis using reserveBudget_granted [OF r(1)] tok by (auto simp: max_def split: if_splits)
qed

lemma ChatCompletions_serves:
  fixes h :: "('r, 'x, 's) handler"
  assumes "ChatCompletions h team hq m c = Some (hnd, sps, c')" "sps \<noteq> []"
  shows "\<exists>t req0 req nt m2 prov c1 k rs on m3 c2. team = Some t \<and> decode (hd_fmt32 h) hq = Inr req0 \<and>
    route (hd_gw h) team req0 c = (Inr (req, nt), c1) \<and> AllowsModel t (cr_Model req) \<and>
    store_ForModel (gw_store (hd_gw h)) (cr_Model req) = Some prov \<and>
    consultCache h team req m2 c1 = ((k, rs, on), m3, c2) \<and>
    reserveAndServe h team hq req \<lparr>cn_Provider = adapter_Name prov, cn_Model = cr_Model req\<rparr>
      (chainFor (hd_gw h) team c1 \<lparr>cn_Provider = adapter_Name prov, cn_Model = cr_Model req\<rparr>) k rs on m3 c2 =
      Some (hnd, sps, c')"
  using assms unfolding ChatCompletions_def
  by (auto simp: Let_def refuse_def serveHit_def authorizeModel_def resolve_def
      split: sum.splits prod.splits option.splits if_splits) blast+

section \<open>Facts on streams\<close>

text \<open>
  An upstream that sends the chunks of a list and then ends, well or badly, whatever happens
  elsewhere in the meantime.
\<close>

fun delivers :: "('r, 'x, 's) handler \<Rightarrow> 's \<Rightarrow> Chunk list \<Rightarrow> received \<Rightarrow> bool" where
  "delivers h s [] e \<longleftrightarrow> (\<forall>c. fst (hd_Recv h s c) = e) \<and> (\<forall>ch. e \<noteq> RecvChunk ch)"
| "delivers h s (ch # chs) e \<longleftrightarrow>
     (\<exists>s'. (\<forall>c. fst (hd_Recv h s c) = RecvChunk ch \<and> fst (snd (hd_Recv h s c)) = s') \<and> delivers h s' chs e)"

fun relayed :: "(Chunk \<Rightarrow> bool \<Rightarrow> sse_event) \<Rightarrow> bool \<Rightarrow> Chunk list \<Rightarrow> sse_event list" where
  "relayed event first [] = []"
| "relayed event first (ch # chs) =
     (if empty_chunk ch then relayed event first chs else event ch first # relayed event False chs)"

definition stream_text :: "Chunk list \<Rightarrow> runes" where
  "stream_text chunks = concat (map ck_Content chunks)"

definition end_of :: "received \<Rightarrow> relay_end" where
  "end_of e = (case e of RecvErr err \<Rightarrow> RelayFailed err | _ \<Rightarrow> RelayDone)"

lemma first_byte_keeps [simp]:
  "ry_content (first_byte c st) = ry_content st" "ry_finish (first_byte c st) = ry_finish st"
  "ry_usage (first_byte c st) = ry_usage st" "ry_events (first_byte c st) = ry_events st"
  by (simp_all add: first_byte_def)

lemma absorb_simps [simp]:
  "ry_content (absorb ch st) = ry_content st @ ck_Content ch"
  "ry_finish (absorb ch st) = (if ck_FinishReason ch \<noteq> FinishNone then ck_FinishReason ch else ry_finish st)"
  "ry_events (absorb ch st) = ry_events st"
  by (simp_all add: absorb_def)

lemma relay_returns: "delivers h s chunks e \<Longrightarrow> \<exists>x. relay h event (st, s, c) = Some x"
proof (induction chunks arbitrary: s st c)
  case Nil
  then obtain s1 c1 where "hd_Recv h s c = (e, s1, c1)" "\<forall>ch. e \<noteq> RecvChunk ch" by (metis delivers.simps(1) prod.exhaust_sel)
  then show ?case by (subst relay.simps) (cases e; simp add: relay_step_def)
next
  case (Cons ch chs)
  then obtain s1 c1 where recv: "hd_Recv h s c = (RecvChunk ch, s1, c1)" and rest: "delivers h s1 chs e"
    by (metis delivers.simps(2) prod.exhaust_sel)
  show ?case
    by (subst relay.simps)
      (use Cons.IH [OF rest] in \<open>auto simp: relay_step_def recv Let_def split: prod.splits bool.splits if_splits\<close>)
qed

lemma relay_accepted:
  assumes accepts: "\<And>ev c. fst (hd_write h ev c)"
  shows "delivers h s chunks e \<Longrightarrow> \<exists>st' s' c'. relay h event (st, s, c) = Some (end_of e, st', s', c') \<and>
    ry_content st' = ry_content st @ stream_text chunks \<and>
    ry_events st' = ry_events st @ relayed event (ry_events st = []) chunks"
proof (induction chunks arbitrary: s st c)
  case Nil
  then obtain s1 c1 where "hd_Recv h s c = (e, s1, c1)" "\<forall>ch. e \<noteq> RecvChunk ch" by (metis delivers.simps(1) prod.exhaust_sel)
  then show ?case by (subst relay.simps) (cases e; simp add: relay_step_def end_of_def stream_text_def)
next
  case (Cons ch chs)
  then obtain s1 c1 where recv: "hd_Recv h s c = (RecvChunk ch, s1, c1)" and rest: "delivers h s1 chs e"
    by (metis delivers.simps(2) prod.exhaust_sel)
  let ?st = "absorb ch (first_byte c1 st)"
  let ?ev = "event ch (ry_events st = [])"
  obtain c2 where w: "hd_write h ?ev c1 = (True, c2)" using accepts [of ?ev c1] by (metis prod.exhaust_sel)
  show ?case
  proof (cases "empty_chunk ch")
    case True
    then have "relay h event (st, s, c) = relay h event (?st, s1, c1)"
      by (subst relay.simps) (simp add: relay_step_def recv)
    then show ?thesis using Cons.IH [OF rest, of ?st c1] True by (simp add: stream_text_def)
  next
    case False
    define st1 where "st1 = ?st\<lparr>ry_events := ry_events st @ [?ev], ry_at := (if ry_events st = [] then now_of c1 else ry_at ?st)\<rparr>"
    have "relay h event (st, s, c) = relay h event (st1, s1, c2)"
      using False w by (subst relay.simps) (simp add: relay_step_def recv st1_def)
    then show ?thesis using Cons.IH [OF rest, of st1 c2] False by (simp add: st1_def stream_text_def)
  qed
qed

lemma assemble_relayed:
  "fst (assemble (relayed (\<lambda>ch f. SSEChunk (toChatChunk cid created model ch f)) first chunks @ [SSEDone])) = stream_text chunks"
  "fst (assemble (relayed (\<lambda>ch f. SSEChunk (toChatChunk cid created model ch f)) first chunks)) = stream_text chunks"
  by (induction chunks arbitrary: first)
    (simp_all add: stream_text_def toChatChunk_def empty_chunk_def split_beta)

lemma relayed_chunks:
  "ev \<in> set (relayed (\<lambda>ch f. SSEChunk (toChatChunk cid created model ch f)) first chunks) \<Longrightarrow>
   \<exists>ck. ev = SSEChunk ck \<and> cc_ID ck = cid \<and> cc_Model ck = model"
  by (induction chunks arbitrary: first) (auto simp: toChatChunk_def split: if_splits)

lemma assemble_relayed_error:
  "fst (assemble (relayed (\<lambda>ch f. SSEChunk (toChatChunk cid created model ch f)) first chunks @ [writeSSEError x])) =
     stream_text chunks"
  by (induction chunks arbitrary: first)
    (simp_all add: stream_text_def toChatChunk_def empty_chunk_def split_beta writeSSEError_def split: option.splits)

lemma writeProviderError_body: "rp_Body (writeProviderError x) \<noteq> StreamBody evs"
  by (simp add: writeProviderError_def writeError_def Let_def split: option.splits)

lemma finish_stream_reply:
  assumes accepts: "\<And>ev c. fst (hd_write h ev c)"
    and "finish_stream h hq req served k rs on hdrs (end_of e) st m c = (hnd, c')"
  shows "\<exists>r. hn_reply hnd = Some r \<and>
    (e = RecvEOF \<longrightarrow> rp_Status r = 200 \<and> rp_Body r = StreamBody (ry_events st @ [SSEDone])) \<and>
    (\<forall>err evs. e = RecvErr err \<and> rp_Body r = StreamBody evs \<longrightarrow>
       evs = ry_events st \<or> evs = ry_events st @ [writeSSEError (asProviderError err)])"
proof -
  obtain wr where w: "\<And>ev c0. hd_write h ev c0 = (True, wr ev c0)"
    by (rule that [of "\<lambda>ev c0. snd (hd_write h ev c0)"]) (use accepts in \<open>simp add: prod_eq_iff\<close>)
  show ?thesis
  proof (cases e)
    case (RecvErr err)
    then show ?thesis using assms(2) writeProviderError_body
      by (auto simp: w finish_stream_def end_of_def Let_def split: if_splits prod.splits)
  qed (use assms(2) in \<open>auto simp: w finish_stream_def end_of_def Let_def split: if_splits prod.splits\<close>)
qed

text \<open>The one call that may not return is the relay of a stream.\<close>

lemma streamChat_returns:
  assumes "\<And>event st s c. relay h event (st, s, c) \<noteq> None"
  shows "streamChatCompletions h hq req rq chain cb k rs on hdrs m c \<noteq> None"
proof -
  obtain res cb' c1 sps where run: "runChain (hd_gw h) (outside_of h (stream_call h req)) chain (Some cb) (start_calls c, []) =
      (res, cb', c1, sps)" by (metis prod.exhaust)
  show ?thesis unfolding streamChatCompletions_def run
    by (simp add: assms Let_def split: prod.split chain_result.split option.split del: not_None_eq)
qed

lemma reserveAndServe_returns:
  assumes "\<And>cb hdrs c. streamChatCompletions h hq req rq chain cb k rs on hdrs m c \<noteq> None"
  shows "reserveAndServe h team hq req rq chain k rs on m c \<noteq> None"
  unfolding reserveAndServe_def refuse_def
  by (simp add: assms Let_def split: prod.split sum.split option.split del: not_None_eq)

lemma ChatCompletions_returns:
  assumes "\<And>req rq chain k rs on m c. reserveAndServe h team hq req rq chain k rs on m c \<noteq> None"
  shows "ChatCompletions h team hq m c \<noteq> None"
  unfolding ChatCompletions_def refuse_def serveHit_def
  by (simp add: assms Let_def split: prod.split sum.split option.split del: not_None_eq)

section \<open>Properties of the handler\<close>

text \<open>
  C2. A provider is called only for an authenticated team, only at candidates that the team's
  allowlists of providers and of models permit, and only after the request was decoded and
  routed to a model the team may use, its tokens were admitted, and then the team's monthly
  budget, in the state that left, admitted the estimated price: where the budget refuses, or
  cannot be asked, nothing is sent upstream. The calls are at most the configured total.
\<close>

theorem calls_authorized:
  fixes h :: "('r, 'x, 's) handler"
  assumes "1 \<le> MaxAttempts (gw_retry (hd_gw h))" "ChatCompletions h team hq m c = Some (hnd, sps, c')" "sps \<noteq> []"
  shows "\<exists>t req0 req nt m2 c1 found m3 c2 tokens c3. team = Some t \<and>
    (\<forall>sp \<in> set sps. AllowsProvider t (cn_Provider (sp_Candidate sp)) \<and> AllowsModel t (cn_Model (sp_Candidate sp))) \<and>
    int (length sps) \<le> MaxTotalAttempts (gw_retry (hd_gw h)) \<and>
    decode (hd_fmt32 h) hq = Inr req0 \<and> route (hd_gw h) team req0 c = (Inr (req, nt), c1) \<and>
    AllowsModel t (cr_Model req) \<and> consultCache h team req m2 c1 = (found, m3, c2) \<and>
    reserveTokens (hd_gw h) team req c2 = (Inr tokens, c3) \<and> budget_granted (hd_gw h) t req c3"
proof -
  obtain t req0 req nt m2 prov c1 k rs on m3 c2 where
    r: "team = Some t" "decode (hd_fmt32 h) hq = Inr req0" "route (hd_gw h) team req0 c = (Inr (req, nt), c1)"
      "AllowsModel t (cr_Model req)" "consultCache h team req m2 c1 = ((k, rs, on), m3, c2)"
    and serve: "reserveAndServe h team hq req \<lparr>cn_Provider = adapter_Name prov, cn_Model = cr_Model req\<rparr>
       (chainFor (hd_gw h) team c1 \<lparr>cn_Provider = adapter_Name prov, cn_Model = cr_Model req\<rparr>) k rs on m3 c2 =
       Some (hnd, sps, c')"
    using ChatCompletions_serves [OF assms(2,3)] by blast
  note calls = reserveAndServe_calls [OF assms(1) serve assms(3)]
  have "AllowsProvider t (cn_Provider cand) \<and> AllowsModel t (cn_Model cand)" if "cand \<in> sp_Candidate ` set sps" for cand
  proof -
    have "cand \<in> set (chainFor (hd_gw h) team c1 \<lparr>cn_Provider = adapter_Name prov, cn_Model = cr_Model req\<rparr>)"
      using calls that by auto
    from buildChain_candidates [OF this [unfolded chainFor_def]] show ?thesis using r(1) by (simp add: team_allows_def)
  qed
  then show ?thesis using calls r by (elim conjE exE, intro exI conjI) auto
qed

text \<open>
  The handler returns: where every upstream stream ends after some number of chunks, no
  request hangs, whatever the client's connection, Redis, the cache and the other providers do.
\<close>

lemma handler_returns:
  fixes h :: "('r, 'x, 's) handler"
  assumes "\<forall>s. \<exists>chunks e. delivers h s chunks e"
  shows "\<exists>x. ChatCompletions h team hq m c = Some x"
proof -
  have "relay h event (st, s, c1) \<noteq> None" for event st s c1
  proof -
    obtain chunks e where "delivers h s chunks e" using assms by blast
    then show ?thesis using relay_returns [of h s chunks e event st c1] by auto
  qed
  then show ?thesis
    using ChatCompletions_returns [OF reserveAndServe_returns [OF streamChat_returns], of h team hq m c] by blast
qed

text \<open>
  C6. A streamed answer is the upstream's: for a client that keeps reading, once a provider
  accepted the stream, the client's events put together are the text of the chunks the provider
  sent, under the model that served. A clean end is marked and only a clean end is: after a failure the end marker is never sent.
\<close>

theorem stream_relayed:
  assumes "hd_flushable h" "\<And>ev c. fst (hd_write h ev c)"
    and run: "runChain (hd_gw h) (outside_of h (stream_call h req)) chain (Some cb) (start_calls c, []) =
      (ChainServed (Some s) served fs, cb', c1, sps)"
    and up: "delivers h s chunks e"
  shows "\<exists>sr c' r. streamChatCompletions h hq req rq chain cb k rs on hdrs m c = Some (sr, c') \<and>
    sr_spans sr = sps \<and> sr_budget sr = cb' \<and> hn_reply (sr_handled sr) = Some r \<and>
    (e = RecvEOF \<longrightarrow> rp_Status r = 200 \<and>
      (\<exists>evs. rp_Body r = StreamBody (evs @ [SSEDone]) \<and> fst (assemble (evs @ [SSEDone])) = stream_text chunks \<and>
        (\<forall>ev \<in> set evs. \<exists>ck. ev = SSEChunk ck \<and> cc_Model ck = cn_Model served))) \<and>
    (\<forall>err evs. e = RecvErr err \<and> rp_Body r = StreamBody evs \<longrightarrow>
      SSEDone \<notin> set evs \<and> fst (assemble evs) = stream_text chunks)"
proof -
  let ?event = "\<lambda>chunk first. SSEChunk (toChatChunk (chatCompletionID (hq_ID hq)) (unix_now c1) (cn_Model served) chunk first)"
  let ?st0 = "\<lparr>ry_content = [], ry_finish = FinishNone, ry_usage = \<lparr>us_InputTokens = 0, us_OutputTokens = 0\<rparr>,
    ry_latency = None, ry_events = [], ry_at = 0\<rparr>"
  obtain st s' c2 where rel: "relay h ?event (?st0, s, c1) = Some (end_of e, st, s', c2)"
    "ry_events st = relayed ?event True chunks"
    using relay_accepted [OF assms(2) up, of ?event ?st0 c1] by auto
  let ?m = "m\<lparr>mt_providerName := cn_Provider served, mt_servedModel := cn_Model served, mt_fellBack := (served \<noteq> rq)\<rparr>"
  obtain hnd c3 where fin: "finish_stream h hq req served k rs on hdrs (end_of e) st ?m c2 = (hnd, c3)" by (rule prod.exhaust)
  have res: "streamChatCompletions h hq req rq chain cb k rs on hdrs m c =
      Some (\<lparr>sr_handled = hnd, sr_actual = stream_tokens req st, sr_budget = cb', sr_spans = sps\<rparr>, hd_Close h s' c3)"
    using assms(1) by (simp add: streamChatCompletions_def run rel(1) fin)
  obtain r where r: "hn_reply hnd = Some r"
    "e = RecvEOF \<longrightarrow> rp_Status r = 200 \<and> rp_Body r = StreamBody (ry_events st @ [SSEDone])"
    "\<And>err evs. e = RecvErr err \<Longrightarrow> rp_Body r = StreamBody evs \<Longrightarrow>
       evs = ry_events st \<or> evs = ry_events st @ [writeSSEError (asProviderError err)]"
    using finish_stream_reply [OF assms(2) fin] by blast
  have chunk: "\<exists>ck. ev = SSEChunk ck \<and> cc_Model ck = cn_Model served" if "ev \<in> set (ry_events st)" for ev
    using relayed_chunks [OF that [unfolded rel(2)]] by blast
  have put: "fst (assemble (ry_events st @ [SSEDone])) = stream_text chunks" "fst (assemble (ry_events st)) = stream_text chunks"
    "fst (assemble (ry_events st @ [writeSSEError x])) = stream_text chunks" for x
    unfolding rel(2) by (rule assemble_relayed assemble_relayed_error)+
  have "SSEDone \<notin> set (ry_events st)" "SSEDone \<noteq> writeSSEError x" for x
    using chunk [of SSEDone] by (auto simp: writeSSEError_def split: option.splits)
  then have "SSEDone \<notin> set evs \<and> fst (assemble evs) = stream_text chunks" if "e = RecvErr err" "rp_Body r = StreamBody evs" for err evs
    using r(3) [OF that] put by auto
  then show ?thesis using res r(1,2) chunk put(1)
    by (intro exI [of _ r] exI conjI) (assumption, simp_all)
qed

section \<open>A small gateway at work\<close>

text \<open>
  A provider whose streams are lists of chunks and whose other calls time out, a client that
  reads everything.
\<close>

definition demo_chunks :: "Chunk list" where
  "demo_chunks =
     [\<lparr>ck_Content = ascii ''o'', ck_FinishReason = FinishNone, ck_Usage = None\<rparr>,
      \<lparr>ck_Content = ascii ''k'', ck_FinishReason = FinishStop, ck_Usage = Some \<lparr>us_InputTokens = 9, us_OutputTokens = 2\<rparr>\<rparr>]"

definition demo_handler :: "(mem, unit, Chunk list) handler" where
  "demo_handler =
     \<lparr>hd_gw = demo_gateway, hd_chaos = None, hd_cache = None,
      hd_Complete = (\<lambda>p rq c. (Inl (ProviderErr (NewHTTPError (adapter_Name p) (rq_Model rq) 504 [])), c)),
      hd_Stream = (\<lambda>p rq c. (Inr demo_chunks, c)),
      hd_Recv = (\<lambda>s c. case s of [] \<Rightarrow> (RecvEOF, [], c) | ch # chs \<Rightarrow> (RecvChunk ch, chs, c)),
      hd_Close = (\<lambda>s c. c), hd_write = (\<lambda>ev c. (True, c)), hd_sleep = (\<lambda>d c. (False, c)), hd_rand = (\<lambda>u c. (0, c)),
      hd_draw = (\<lambda>c. (0, c)), hd_flushable = True, hd_fmt32 = (\<lambda>_. [])\<rparr>"

definition demo_gcore :: "(mem, unit) gcore" where
  "demo_gcore =
     \<lparr>co_clock = may_noon, co_redis = empty_mem, co_fates = [], co_breakers = None, co_monitor = None,
      co_recorder = (\<lambda>_. None), co_ended = False, co_panicked = False,
      co_env = \<lparr>qe_providerTime = 0, qe_callStart = 0, qe_quality = None, qe_rest = ()\<rparr>\<rparr>"

definition demo_http :: http_request where
  "demo_http =
     \<lparr>hq_ID = ''r1'', hq_ContentType = ''application/json'', hq_CacheTTL = [],
      hq_Body = BodyOK ((demo_request ''llama'')\<lparr>cr_Stream := True\<rparr>)\<rparr>"

lemma demo_delivers_all: "delivers demo_handler demo_chunks demo_chunks RecvEOF"
  by (simp add: demo_handler_def demo_chunks_def)

lemma demo_store:
  "store_DefaultMaxTokensFor (gw_store demo_gateway) ''llama'' = Some 512"
  "store_Cost (gw_store demo_gateway) ''llama'' a b = Inr (tdiv (i64 (i64 (a * 150000) + i64 (b * 600000))) microsPerUnit)"
  "TierFor (gw_store demo_gateway) ''llama'' = [\<lparr>cn_Provider = ''groq'', cn_Model = ''llama''\<rparr>]"
  "\<exists>prov. store_ForModel (gw_store demo_gateway) ''llama'' = Some prov \<and> adapter_Name prov = ''groq''"
proof -
  have "\<lfloor>300001 / 2 :: rat\<rfloor> = 150000" "\<lfloor>1200001 / 2 :: rat\<rfloor> = 600000" by (rule floor_unique; simp)+
  then show "store_DefaultMaxTokensFor (gw_store demo_gateway) ''llama'' = Some 512"
    "store_Cost (gw_store demo_gateway) ''llama'' a b = Inr (tdiv (i64 (i64 (a * 150000) + i64 (b * 600000))) microsPerUnit)"
    "TierFor (gw_store demo_gateway) ''llama'' = [\<lparr>cn_Provider = ''groq'', cn_Model = ''llama''\<rparr>]"
    "\<exists>prov. store_ForModel (gw_store demo_gateway) ''llama'' = Some prov \<and> adapter_Name prov = ''groq''"
    by (simp_all add: demo_gateway_def newConfigStore_def store_DefaultMaxTokensFor_def DefaultMaxTokensFor_def store_Cost_def Cost_def
      TierFor_def store_ForModel_def ForModel_def demo_live_def demo_eval Let_def adapter_Name_def)
qed

abbreviation "demo_stream_request \<equiv> (demo_request ''llama'')\<lparr>cr_Stream := True\<rparr>"

lemma demo_estimate: "estimateInputTokens demo_stream_request = 5" "estimateTokens demo_stream_request 512 = 517"
   "estimateOutputCeiling demo_stream_request 512 = 512"
  by (simp_all add: estimateTokens_def estimateInputTokens_def estimateOutputCeiling_def demo_request_def ascii_def byte_len_def
    charsPerToken_def perMessageTokenOverhead_def i64_id utf8_len_def tdiv_def)

lemma demo_fields: "cr_Model (demo_request m) = m" "tm_ID demo_team = ''acme''" "rl_TPM (tm_RateLimits demo_team) = 1000"
  "gw_redis demo_gateway = mem_redis" "tm_Priority demo_team = PriorityRealtime" "tm_MonthlyBudgetMicros demo_team = 1000000"
  by (simp_all add: demo_request_def demo_team_def acme_def demo_gateway_def)

lemma demo_read: "bucket_read mem_redis key cap empty_mem = Some (cap, 0)" "bucket_now mem_redis empty_mem = 0"
  by (simp_all add: bucket_read_def bucket_now_def mem_defs empty_mem_def tonumber_def)

lemma demo_consume:
  "Consume mem_redis Delivered ''acme'' TPM 1000 517 bucketTTL empty_mem =
     (Inr \<lparr>rl_Allowed = True, rl_Remaining = 483, rl_RetryAfter = 0\<rparr>,
      bucket_write mem_redis (bucketKey ''acme'' TPM) 483 0 120000 empty_mem)"
  by (simp add: Consume_def rcall_def consumeScript_def demo_read bucket_refill_def Let_def bucketTTL_def milliseconds_def tdiv_def
     rtrunc_def)

lemma demo_tokens:
  "\<exists>tokens. reserveTokens demo_gateway (Some demo_team) demo_stream_request demo_gcore =
     (Inr tokens, demo_gcore\<lparr>co_redis := bucket_write mem_redis (bucketKey ''acme'' TPM) 483 0 120000 empty_mem\<rparr>)"
  by (simp add: reserveTokens_def demo_store demo_estimate demo_fields at_server_def on_server_def Let_def Reserve_def
    demo_consume demo_gcore_def shouldShedForPriority_def)


abbreviation "demo_bucket \<equiv> bucket_write mem_redis (bucketKey ''acme'' TPM) 483 0 120000 empty_mem"

lemma demo_counter:
  "counter_wf mem_redis (periodKey ''acme'' p) demo_bucket" "counter_spent mem_redis (periodKey ''acme'' p) demo_bucket = 0"
  by (simp_all add: counter_wf_def counter_spent_def bucket_write_def mem_defs empty_mem_def periodKey_def bucketKey_def)

abbreviation "demo_slip \<equiv> \<lparr>br_teamID = ''acme'', br_period = currentPeriod may_noon, br_reserved = 307\<rparr>"

lemma demo_budget:
  "\<exists>r. reserveBudget demo_gateway (Some demo_team) demo_stream_request (demo_gcore\<lparr>co_redis := demo_bucket\<rparr>) =
     (Inr (Some demo_slip, 307, []), demo_gcore\<lparr>co_redis := r\<rparr>)"
proof -
  have "store_Cost (gw_store demo_gateway) ''llama'' 5 512 = Inr 307"
    by (simp add: demo_store i64_id tdiv_def microsPerUnit_def)
  moreover have "tracker mem_redis may_noon 1000000" by (rule trackerI [OF mem.redis_server_axioms may_noon_wf]) (simp_all add: in_i64_def)
  ultimately show ?thesis using tracker.Reserve_fits [of mem_redis may_noon 1000000 "''acme''" demo_bucket 307]
    by (simp add: reserveBudget_def demo_store demo_estimate demo_fields budget_reserve_def at_server_def on_server_def Let_def
      demo_gcore_def demo_counter in_i64_def utilization_def budgetWarnThreshold_def)
qed

abbreviation "demo_cand \<equiv> \<lparr>cn_Provider = ''groq'', cn_Model = ''llama''\<rparr>"

abbreviation "demo_cb \<equiv> \<lparr>cb_team = demo_team, cb_req = demo_stream_request, cb_baseMicros = 307, cb_extra = []\<rparr>"

lemma demo_chain:
  "runChain demo_gateway (outside_of demo_handler (stream_call demo_handler demo_stream_request)) [demo_cand] (Some demo_cb)
     (start_calls (demo_gcore\<lparr>co_redis := r\<rparr>), []) =
   (ChainServed (Some demo_chunks) demo_cand [], Some demo_cb,
    (demo_gcore\<lparr>co_redis := r, co_env := (co_env demo_gcore)\<lparr>qe_callStart := now_of demo_gcore\<rparr>\<rparr>,
     [\<lparr>sp_Candidate = demo_cand, sp_attempt = 1, sp_fallback = False\<rparr>]))"
proof -
  obtain prov where p: "store_ForModel (gw_store demo_gateway) ''llama'' = Some prov" using demo_store(4) by blast
  show ?thesis
    by (simp add: runChain_def try_candidate_def breaker_check_def on_breaker_def breakerFor_def demo_gcore_def start_calls_def
      admit_def demo_fields p Do_def attempt_env_def outside_of_def stream_call_def Let_def Chaos_Apply_def Chaos_Available_def
      demo_handler_def do_from.simps now_of_def) (simp add: demo_gateway_def do_from.simps)
qed

lemma demo_stream:
  "\<exists>hnd c'. streamChatCompletions demo_handler demo_http demo_stream_request demo_cand [demo_cand] demo_cb k rs False [] m
      (demo_gcore\<lparr>co_redis := r\<rparr>) =
     Some (\<lparr>sr_handled = hnd, sr_actual = 11, sr_budget = Some demo_cb,
            sr_spans = [\<lparr>sp_Candidate = demo_cand, sp_attempt = 1, sp_fallback = False\<rparr>]\<rparr>, c') \<and>
     mt_costMicros (hn_metrics hnd) = 2"
proof -
  have "hd_flushable demo_handler" "hd_gw demo_handler = demo_gateway" by (simp_all add: demo_handler_def)
  then show ?thesis
    by (simp add: streamChatCompletions_def demo_chain)
      (simp add: relay.simps relay_step_def demo_handler_def Let_def demo_chunks_def empty_chunk_def absorb_def first_byte_def
        finish_stream_def stream_tokens_def recordCost_def recordRoutingSavings_def demo_store considerQuality_def demo_gcore_def
        record_health_def split_beta i64_id tdiv_def microsPerUnit_def ascii_def split: sum.split)
qed

lemma demo_served:
  "\<exists>hnd c'. ChatCompletions demo_handler (Some demo_team) demo_http (fresh_metrics 0) demo_gcore =
     Some (hnd, [\<lparr>sp_Candidate = demo_cand, sp_attempt = 1, sp_fallback = False\<rparr>], c') \<and> mt_costMicros (hn_metrics hnd) = 2"
proof -
  obtain prov where p: "store_ForModel (gw_store demo_gateway) ''llama'' = Some prov" "adapter_Name prov = ''groq''"
    using demo_store(4) by blast
  obtain tokens where tok: "reserveTokens demo_gateway (Some demo_team) demo_stream_request demo_gcore =
     (Inr tokens, demo_gcore\<lparr>co_redis := demo_bucket\<rparr>)" using demo_tokens by blast
  obtain r where bud: "reserveBudget demo_gateway (Some demo_team) demo_stream_request (demo_gcore\<lparr>co_redis := demo_bucket\<rparr>) =
     (Inr (Some demo_slip, 307, []), demo_gcore\<lparr>co_redis := r\<rparr>)" using demo_budget by blast
  have dec: "decode (hd_fmt32 demo_handler) demo_http = Inr demo_stream_request"
    by (simp add: decode_def demo_http_def chatRequest_validate_def demo_request_def RoleUser_def)
  have rt: "route demo_gateway (Some demo_team) demo_stream_request demo_gcore = (Inr (demo_stream_request, None), demo_gcore)"
    by (simp add: route_def demo_gateway_def Routes_def demo_fields AutoModel_def)
  have auth: "authorizeModel (Some demo_team) ''llama'' = None"
    by (simp add: authorizeModel_def AllowsModel_def demo_team_def)
  have ch: "chainFor demo_gateway (Some demo_team) demo_gcore demo_cand = [demo_cand]"
    by (simp add: chainFor_def demo_store buildChain_def BuildChain_def permitted_def status_of_def chain_add_def
      demo_team_def acme_def AllowsProvider_def AllowsModel_def demo_gcore_def)
  have gw: "hd_gw demo_handler = demo_gateway" "hd_cache demo_handler = None" by (simp_all add: demo_handler_def)
  show ?thesis
    using demo_stream [of no_key no_result "(fresh_metrics 0)\<lparr>mt_requestedModel := ''llama'', mt_stream := True\<rparr>" r]
    by (auto simp: ChatCompletions_def dec gw rt auth resolve_def demo_fields p ch consultCache_def Let_def reserveAndServe_def tok bud
        note_route_def) (auto simp: no_result_def)
qed

theorem calls_authorized_witness:
  "\<exists>hnd sps c' req0 req nt c1 m2 found m3 c2 tokens c3.
     ChatCompletions demo_handler (Some demo_team) demo_http (fresh_metrics 0) demo_gcore = Some (hnd, sps, c') \<and> sps \<noteq> [] \<and>
     AllowsProvider demo_team ''groq'' \<and> AllowsModel demo_team ''llama'' \<and>
     route demo_gateway (Some demo_team) req0 demo_gcore = (Inr (req, nt), c1) \<and>
     consultCache demo_handler (Some demo_team) req m2 c1 = (found, m3, c2) \<and>
     reserveTokens demo_gateway (Some demo_team) req c2 = (Inr tokens, c3) \<and> budget_granted demo_gateway demo_team req c3"
proof -
  let ?sps = "[\<lparr>sp_Candidate = demo_cand, sp_attempt = 1, sp_fallback = False\<rparr>]"
  obtain hnd c' where run: "ChatCompletions demo_handler (Some demo_team) demo_http (fresh_metrics 0) demo_gcore = Some (hnd, ?sps, c')"
    using demo_served by blast
  have "1 \<le> MaxAttempts (gw_retry (hd_gw demo_handler))" "hd_gw demo_handler = demo_gateway"
    by (simp_all add: demo_handler_def demo_gateway_def)
  from calls_authorized [OF this(1) run] this(2) run show ?thesis by (simp, elim exE conjE, intro exI conjI) simp_all
qed

theorem stream_relayed_witness:
  "\<exists>sr c' r evs. streamChatCompletions demo_handler demo_http demo_stream_request demo_cand [demo_cand] demo_cb no_key no_result False []
      (fresh_metrics 0) (demo_gcore\<lparr>co_redis := demo_bucket\<rparr>) = Some (sr, c') \<and> hn_reply (sr_handled sr) = Some r \<and>
     rp_Status r = 200 \<and> rp_Body r = StreamBody (evs @ [SSEDone]) \<and> fst (assemble (evs @ [SSEDone])) = ascii ''ok''"
proof -
  have h: "hd_flushable demo_handler" "\<And>ev c. fst (hd_write demo_handler ev c)" by (simp_all add: demo_handler_def)
  have gw: "hd_gw demo_handler = demo_gateway" by (simp add: demo_handler_def)
  have "stream_text demo_chunks = ascii ''ok''" by (simp add: stream_text_def demo_chunks_def ascii_def)
  then show ?thesis
    using stream_relayed [OF h demo_chain [folded gw, of demo_bucket] demo_delivers_all, of demo_http demo_cand no_key no_result False "[]" "fresh_metrics 0"]
    by (simp, elim exE conjE, intro exI conjI) simp_all
qed

end
