(* ===== verification/Spend.thy ===== *)
theory Spend
  imports Gateway
begin

text \<open>
  What a request does to its team's monthly spend: the handler of \<open>Gateway\<close> over the tracker of
  \<open>Budget\<close>. A request reserves an estimate, tops it up when it falls back to a dearer model, and
  settles everything when it returns. The facts here follow the counter through all of it: the
  reservation, the walk over the chain, the stream or the answer, and the deferred settlements.
\<close>

section \<open>A world that leaves something alone\<close>

text \<open>
  \<open>P\<close> is a property of the clock, the server and its calls that the provider calls, the client's
  connection, the cache and the waits all keep. Circuit breakers hold their state in memory.
\<close>

locale still =
  fixes h :: "('r, 'x, 's) handler" and P :: "('r, 'x) gcore \<Rightarrow> bool"
  assumes outside_core: "P c \<Longrightarrow> co_clock c' = co_clock c \<Longrightarrow> co_redis c' = co_redis c \<Longrightarrow> co_fates c' = co_fates c \<Longrightarrow> P c'"
    and still_Complete: "P c \<Longrightarrow> P (snd (hd_Complete h prov rq c))"
    and still_Stream: "P c \<Longrightarrow> P (snd (hd_Stream h prov rq c))"
    and still_Recv: "P c \<Longrightarrow> P (snd (snd (hd_Recv h s c)))"
    and still_Close: "P c \<Longrightarrow> P (hd_Close h s c)"
    and still_write: "P c \<Longrightarrow> P (snd (hd_write h ev c))"
    and still_sleep: "P c \<Longrightarrow> P (snd (hd_sleep h d c))"
    and still_rand: "P c \<Longrightarrow> P (snd (hd_rand h u c))"
    and still_draw: "P c \<Longrightarrow> P (snd (hd_draw h c))"
    and still_Exact: "hd_cache h = Some (ca, pol) \<Longrightarrow> P c \<Longrightarrow> P (snd (es_Exact (ca_store ca) k c))"
    and still_Candidates: "hd_cache h = Some (ca, pol) \<Longrightarrow> P c \<Longrightarrow> P (snd (es_Candidates (ca_store ca) k c))"
    and still_Fetch: "hd_cache h = Some (ca, pol) \<Longrightarrow> P c \<Longrightarrow> P (snd (es_Fetch (ca_store ca) i c))"
    and still_Put: "hd_cache h = Some (ca, pol) \<Longrightarrow> P c \<Longrightarrow> P (snd (es_Put (ca_store ca) k en ttl c))"
    and still_RecordHit: "hd_cache h = Some (ca, pol) \<Longrightarrow> P c \<Longrightarrow> P (snd (es_RecordHit (ca_store ca) i c))"
    and still_embed: "hd_cache h = Some (ca, pol) \<Longrightarrow> ca_embed ca = Some emb \<Longrightarrow> P c \<Longrightarrow> P (snd (emb q c))"
    and own_breakers: "gw_newStore (hd_gw h) = None"
begin

lemma still_on_breaker:
  assumes "\<And>cfg bw. snd (snd (f cfg None bw)) = snd bw" "P c"
  shows "P (snd (on_breaker (hd_gw h) cand f c))"
proof -
  obtain b c1 where b: "breakerFor cand c = (b, c1)" by (rule prod.exhaust)
  have "P c1" using assms(2) b by (auto simp: breakerFor_def split: option.splits prod.splits elim: outside_core)
  moreover have "P (snd (on_breaker (hd_gw h) cand f c))" if "b = Some b1" "co_breakers c1 = Some reg" for b1 reg
  proof -
    obtain x b2 r ds where "f (br_cfg reg) None (b1, co_redis c1, co_fates c1) = (x, b2, r, ds)" by (metis prod.exhaust)
    then show ?thesis using assms(1) [of "br_cfg reg" "(b1, co_redis c1, co_fates c1)"] \<open>P c1\<close> that
      by (auto simp: on_breaker_def b store_for_def own_breakers elim: outside_core)
  qed
  ultimately show ?thesis by (cases b; cases "co_breakers c1") (simp_all add: on_breaker_def b)
qed

lemma still_check: "P c \<Longrightarrow> P (snd (breaker_check (hd_gw h) cand c))"
  unfolding breaker_check_def by (rule still_on_breaker) (simp_all add: Allow_def split_beta)

lemma still_report: "P c \<Longrightarrow> P (breaker_report (hd_gw h) cand ok c)"
  unfolding breaker_report_def
  by (rule still_on_breaker) (auto simp: RecordSuccess_def RecordFailure_def split_beta split: option.splits)

lemma still_breakers: "P c \<Longrightarrow> P (c\<lparr>co_breakers := b\<rparr>)"
  by (erule outside_core) simp_all

lemma still_first: "P c \<Longrightarrow> P (snd (first_not_open cands c))"
  by (induction cands arbitrary: c) (auto simp: breakerFor_def still_breakers split: option.splits prod.splits)

lemma still_select: "P c \<Longrightarrow> P (snd (selectCandidate (hd_gw h) team tier c))"
  by (simp add: selectCandidate_def Let_def split_beta still_first del: first_not_open.simps split: list.split option.split)

lemma still_route: "P c \<Longrightarrow> P (snd (route (hd_gw h) team req c))"
proof -
  assume p: "P c"
  have "P (snd (snd (route_select (hd_gw h) team ro plan c)))" for ro plan
    using still_select [OF p, of team "pl_Tier plan"] still_select [of "snd (selectCandidate (hd_gw h) team (pl_Tier plan) c)" team]
    by (auto simp: route_select_def split: prod.splits sum.splits option.splits) (metis snd_conv)+
  then show ?thesis using p
    by (auto simp: route_def Let_def split: option.splits prod.splits sum.splits RouteError.splits) (metis snd_conv)+
qed

lemma still_chaos: "P c \<Longrightarrow> P (snd (Chaos_Apply (hd_sleep h) x p m c))"
  using still_sleep by (auto simp: Chaos_Apply_def split_beta split: option.splits)

lemma still_health: "P c \<Longrightarrow> P (record_health p l e c)"
  by (erule outside_core) (simp_all add: record_health_def)

lemma still_note: "P c \<Longrightarrow> P (note_time d c)"
  by (erule outside_core) (simp_all add: note_time_def)

lemma still_env: "P c \<Longrightarrow> P (c\<lparr>co_env := e\<rparr>)"
  by (erule outside_core) simp_all

lemma still_panic: "P c \<Longrightarrow> P (call_panicked c)"
  by (erule outside_core) (simp_all add: call_panicked_def)

lemma still_failed: "P c \<Longrightarrow> P (call_failed cand start e c)"
  by (simp add: call_failed_def Let_def still_health still_note)

lemma still_complete_call: "P c \<Longrightarrow> P (snd (complete_call h req prov cand c))"
  using still_chaos [of c "hd_chaos h" "cn_Provider cand" "cn_Model cand"]
    still_Complete [of "snd (Chaos_Apply (hd_sleep h) (hd_chaos h) (cn_Provider cand) (cn_Model cand) c)" prov "attempt_request req cand"]
  by (auto simp: complete_call_def Let_def still_panic still_failed still_health still_note
      split: prod.splits injected.splits sum.splits)

lemma still_stream_call: "P c \<Longrightarrow> P (snd (stream_call h req prov cand c))"
  using still_chaos [of "c\<lparr>co_env := (co_env c)\<lparr>qe_callStart := now_of c\<rparr>\<rparr>" "hd_chaos h" "cn_Provider cand" "cn_Model cand"]
    still_env [of c "(co_env c)\<lparr>qe_callStart := now_of c\<rparr>"]
    still_Stream [of "snd (Chaos_Apply (hd_sleep h) (hd_chaos h) (cn_Provider cand) (cn_Model cand)
        (c\<lparr>co_env := (co_env c)\<lparr>qe_callStart := now_of c\<rparr>\<rparr>))" prov "attempt_request req cand"]
  by (auto simp: stream_call_def Let_def still_panic still_failed
      split: prod.splits injected.splits sum.splits)

lemma still_Lookup: "hd_cache h = Some (ca, pol) \<Longrightarrow> P c \<Longrightarrow> P (snd (Lookup ca k c))"
  by (simp add: Lookup_def Let_def split_beta still_Exact still_Candidates still_Fetch still_RecordHit still_embed split: option.split)

lemma still_consult: "P c \<Longrightarrow> consultCache h team req m c = (x, m', c') \<Longrightarrow> P c'"
  using still_Lookup by (auto simp: consultCache_def Let_def split: option.splits prod.splits) (metis snd_conv)+

lemma still_storeInCache: "P c \<Longrightarrow> P (storeInCache h hq k rs resp c)"
  using still_Put by (auto simp: storeInCache_def Store_def split: option.splits prod.splits)

lemma still_quality: "P c \<Longrightarrow> P (considerQuality h i req sm sp resp rs m c)"
proof -
  assume p: "P c"
  have d: "P (snd (Decide (hd_draw h) s q c))" for s q
    using p still_draw [OF p] by (auto simp: Decide_def split: option.splits prod.splits)
  show ?thesis
    using p d by (auto simp: considerQuality_def split: option.splits prod.splits intro!: still_env) (metis snd_conv)+
qed

lemma still_relay:
  assumes "relay h event (st, s, c) = Some (ending, st', s', c')" "P c"
  shows "P c'"
proof -
  have step: "h' = h \<longrightarrow> P (snd (snd x)) \<longrightarrow> P (snd (snd (snd y)))"
    if loop: "\<And>h' event x y. loop h' event x = Some y \<Longrightarrow> h' = h \<longrightarrow> P (snd (snd x)) \<longrightarrow> P (snd (snd (snd y)))"
      and body: "(case relay_step h' event x of Inl r \<Rightarrow> Some r | Inr x' \<Rightarrow> loop h' event x') = Some y" for loop h' event x y
  proof (intro impI)
    assume p: "h' = h" "P (snd (snd x))"
    obtain st s c where x: "x = (st, s, c)" by (rule prod_cases3)
    obtain got s1 c1 where recv: "hd_Recv h s c = (got, s1, c1)" by (rule prod_cases3)
    have c1: "P c1" "\<And>ev ok c2. hd_write h ev c1 = (ok, c2) \<Longrightarrow> P c2"
      using still_Recv [of c s] still_write [of c1] p recv by (simp_all add: x) (metis snd_conv)
    show "P (snd (snd (snd y)))"
      using body p c1 loop [of h event "(_, _, _)" y] unfolding x relay_step_def
      by (auto simp: recv Let_def split: received.splits if_splits prod.splits bool.splits)
  qed
  note ind = relay.raw_induct [of "\<lambda>h' event x y. h' = h \<longrightarrow> P (snd (snd x)) \<longrightarrow> P (snd (snd (snd y)))"
      "((h, event), (st, s, c))" "(ending, st', s', c')", unfolded prod.case]
  have "h = h \<longrightarrow> P (snd (snd (st, s, c))) \<longrightarrow> P (snd (snd (snd (ending, st', s', c'))))"
    by (rule ind) (rule step, assumption, assumption, rule assms(1))
  then show ?thesis using assms(2) by simp
qed

lemma still_finish:
  assumes p: "P c" and fin: "finish_stream h hq req served k rs on hdrs ending st m c = (hnd, c')"
  shows "P c'"
proof -
  have w: "P c2" if "hd_write h ev (record_health (cn_Provider served) (the (ry_latency st)) e c) = (ok, c2)" for ev e ok c2
    using still_write [OF still_health [OF p]] that by (metis snd_conv)
  show ?thesis using fin p
    by (auto simp: finish_stream_def Let_def still_storeInCache still_quality still_health w
        split: relay_end.splits if_splits prod.splits bool.splits)
qed

end

section \<open>The books of one team\<close>

text \<open>
  The server answers, the month is \<open>p\<close>, the team's counter for it stands at \<open>n\<close>, and its token
  bucket is not a plain value.
\<close>

definition at_desk :: "'r redis_api \<Rightarrow> string \<Rightarrow> string \<Rightarrow> int \<Rightarrow> ('r, 'e) core \<Rightarrow> bool" where
  "at_desk R tid p n c \<longleftrightarrow>
     co_fates c = [] \<and> civil_wf (co_clock c) \<and> currentPeriod (co_clock c) = p \<and>
     counter_wf R (periodKey tid p) (co_redis c) \<and> counter_spent R (periodKey tid p) (co_redis c) = n \<and>
     rGET R (co_redis c) (bucketKey tid TPM) = None"

text \<open>What reserves tokens under the team's own name.\<close>

definition token_slip :: "string \<Rightarrow> Reservation option \<Rightarrow> bool" where
  "token_slip tid rsv \<longleftrightarrow>
     (case rsv of None \<Rightarrow> True | Some v \<Rightarrow> rsv_teamID v = tid \<and> rsv_kind v = TPM \<and> rsv_ttl v = bucketTTL)"

lemma desk_fates: "at_desk R tid p n c \<Longrightarrow> at_desk R tid p n (c\<lparr>co_fates := []\<rparr>)"
  by (simp add: at_desk_def)

lemma keys_apart: "periodKey tid p \<noteq> bucketKey tid k"
  by (simp add: periodKey_def bucketKey_def)

lemma store_Cost_i64: "store_Cost s model a b = Inr est \<Longrightarrow> in_i64 est"
proof -
  have "in_i64 (tdiv (i64 x) microsPerUnit)" for x
  proof -
    have "\<bar>i64 x\<bar> \<le> 2 ^ 63" using i64_lower [of x] i64_upper [of x] by linarith
    then have "\<bar>i64 x\<bar> div 1000000 \<le> 2 ^ 63 div 1000000" by (rule zdiv_mono1) simp
    moreover have "0 \<le> \<bar>i64 x\<bar> div 1000000" by simp
    ultimately show ?thesis unfolding tdiv_def microsPerUnit_def in_i64_def
      by (cases "i64 x = 0"; cases "0 < i64 x") simp_all
  qed
  then show "store_Cost s model a b = Inr est \<Longrightarrow> in_i64 est"
    by (auto simp: store_Cost_def Cost_def split: option.splits)
qed

context redis_server
begin

lemma bucket_write_frame:
  assumes "rGET R r bk = None" "0 < ttl" "k \<noteq> bk"
  shows "rGET R (bucket_write R bk tok now ttl r) k = rGET R r k" "rGET R (bucket_write R bk tok now ttl r) bk = None"
    "rEXISTS R (bucket_write R bk tok now ttl r) k \<longleftrightarrow> rEXISTS R r k"
  using assms by (simp_all add: bucket_write_def get_pexpire get_hset exists_iff hget_pexpire hget_hset)

lemma bucket_write_desk:
  assumes "at_desk R tid p n c" "0 < ttl"
  shows "at_desk R tid p n (c\<lparr>co_redis := bucket_write R (bucketKey tid TPM) tok now ttl (co_redis c), co_fates := []\<rparr>)"
  using assms bucket_write_frame [of "co_redis c" "bucketKey tid TPM" ttl "periodKey tid p" tok now] keys_apart [of tid p TPM]
  by (simp add: at_desk_def counter_wf_def counter_spent_def)

lemma settle_desk:
  assumes "at_desk R tid p n c" "token_slip tid rsv"
  shows "at_desk R tid p n (c\<lparr>co_redis := snd (Reconcile R Delivered rsv a (co_redis c)), co_fates := []\<rparr>)"
  using assms bucket_write_desk [OF assms(1)] desk_fates [OF assms(1)]
  by (auto simp: Reconcile_def token_slip_def rcall_def settleScript_def Let_def milliseconds_def bucketTTL_def tdiv_nonneg
      split: option.splits prod.splits if_splits)

lemma Consume_desk:
  assumes "at_desk R tid p n c"
  shows "at_desk R tid p n (c\<lparr>co_redis := snd (Consume R Delivered tid TPM cap a bucketTTL (co_redis c)), co_fates := []\<rparr>)"
  using assms bucket_write_desk [OF assms(1)] desk_fates [OF assms(1)]
  by (auto simp: Consume_def rcall_def consumeScript_def Let_def milliseconds_def bucketTTL_def tdiv_nonneg
      split: option.splits prod.splits if_splits)

lemma incr_desk:
  assumes "at_desk R tid p n c" "in_i64 d" "in_i64 (n + d)"
  shows "at_desk R tid p (n + d) (c\<lparr>co_redis := snd (rINCRBY R (periodKey tid p) d (co_redis c)), co_fates := []\<rparr>)"
proof -
  have d: "counter_wf R (periodKey tid p) (co_redis c)" "counter_spent R (periodKey tid p) (co_redis c) = n"
    using assms(1) by (simp_all add: at_desk_def)
  have "fst (rINCRBY R (periodKey tid p) d (co_redis c)) = Some (n + d)"
    using incr_counter [OF d(1) assms(2)] assms(3) d(2) by (metis fst_conv)
  from incrby_stored [OF this] show ?thesis
    using assms keys_apart [of tid p TPM] wf_of_get spent_of_get by (simp add: at_desk_def) metis
qed

lemma reserveScript_frame:
  assumes "k \<noteq> key" "0 < ttl"
  shows "rGET R (snd (reserveScript R key cap a ttl r)) k = rGET R r k"
proof -
  have incr: "rGET R (snd (rINCRBY R key d r)) k = rGET R r k" for d r
    using incrby_stored [of key d r] incrby_failed [of key d r] assms(1) by (cases "fst (rINCRBY R key d r)") simp_all
  then have "rGET R r1 k = rGET R r k" if "rINCRBY R key d r = (x, r1)" for d r x r1 using that by (metis snd_conv)
  then show ?thesis using assms
    by (auto simp: reserveScript_def Let_def get_pexpire split: prod.splits option.splits)
qed

end

locale till = redis_server "gw_redis (hd_gw h)" for h :: "('r, 'x, 's) handler" +
  fixes t :: Team and p :: string
  assumes world: "\<And>n. still h (at_desk (gw_redis (hd_gw h)) (tm_ID t) p n)"
    and cap_pos: "0 < tm_MonthlyBudgetMicros t" and cap_i64: "in_i64 (tm_MonthlyBudgetMicros t)"
    and attempts: "1 \<le> MaxAttempts (gw_retry (hd_gw h))"
begin

abbreviation "desk \<equiv> at_desk (gw_redis (hd_gw h)) (tm_ID t) p"

abbreviation "slip v \<equiv> \<lparr>br_teamID = tm_ID t, br_period = p, br_reserved = v\<rparr>"

lemma desk_reserve:
  assumes d: "desk n c" and a: "in_i64 a" and run: "budget_reserve (hd_gw h) t a c = ((rsv, res), c')"
  shows "rsv = Some (slip a) \<and> (\<exists>x. res = Inr x \<and> bud_Allowed x) \<and> 0 \<le> a \<and> n + a \<le> tm_MonthlyBudgetMicros t \<and> desk (n + a) c' \<or>
    rsv = None \<and> desk n c' \<and> (\<forall>x. res = Inr x \<longrightarrow> \<not> bud_Allowed x)"
proof -
  let ?R = "gw_redis (hd_gw h)" and ?cap = "tm_MonthlyBudgetMicros t" and ?r = "co_redis c" and ?k = "periodKey (tm_ID t) p"
  have f: "co_fates c = []" "civil_wf (co_clock c)" "currentPeriod (co_clock c) = p" "counter_wf ?R ?k ?r" "counter_spent ?R ?k ?r = n"
    using d by (simp_all add: at_desk_def)
  have tr: "tracker ?R (co_clock c) ?cap" by (rule trackerI [OF redis_server_axioms f(2) cap_pos cap_i64])
  obtain r' where b: "BudgetReserve ?R Delivered (co_clock c) (tm_ID t) ?cap a ?r = (rsv, res, r')"
    and c': "c' = c\<lparr>co_redis := r', co_fates := []\<rparr>"
    using run f(1) by (auto simp: budget_reserve_def at_server_def on_server_def Let_def split: prod.splits)
  have allowed: "rsv \<noteq> None" if "res = Inr x" "bud_Allowed x" for x
    using budget_reserve_granted [of "hd_gw h" t a c rsv x c'] run that by simp
  show ?thesis
  proof (cases "0 \<le> a")
    case True
    let ?sc = "snd (reserveScript ?R ?k ?cap a (tdiv (ttlUntilPeriodEnd (co_clock c)) second) ?r)"
    have r': "r' = ?sc" using tracker.Reserve_store [OF tr True, of Delivered "tm_ID t" ?r] b by (simp add: f(3))
    note sc = tracker.script_outcome [OF tr, of "tm_ID t" ?r a, unfolded f(3,5), OF f(4) True a]
    have "desk (if n + a \<le> ?cap then n + a else n) c'"
      using d sc reserveScript_frame [OF keys_apart [of "tm_ID t" p TPM, symmetric] ttl_seconds_pos [OF f(2)]]
      unfolding c' r' at_desk_def by simp
    then show ?thesis
      using b True a allowed tracker.Reserve_fits [OF tr, of "tm_ID t" ?r a, unfolded f(3,5), OF f(4) True a]
        tracker.Reserve_exceeds(1) [OF tr, of "tm_ID t" ?r a Delivered, unfolded f(3,5), OF f(4) True a]
      by (cases "n + a \<le> ?cap") auto
  next
    case False
    then have "rsv = None" "r' = ?r" using b cap_pos by (simp_all add: BudgetReserve_def)
    then show ?thesis using desk_fates [OF d] allowed by (auto simp: c')
  qed
qed

lemma desk_reconcile:
  assumes "desk n c" "0 \<le> v" "in_i64 v" "0 \<le> a" "in_i64 a" "in_i64 (n + (a - v))"
  shows "desk (n + (a - v)) (budget_reconcile (hd_gw h) (Some (slip v)) a c)"
proof -
  have "i64 (a - v) = a - v" using assms by (intro i64_id) (auto simp: in_i64_def)
  moreover have "in_i64 (a - v)" using assms by (auto simp: in_i64_def)
  moreover have "co_fates c = []" using assms(1) by (simp add: at_desk_def)
  ultimately show ?thesis
    using assms incr_desk [OF assms(1), of "a - v"] desk_fates [OF assms(1)]
    by (auto simp: budget_reconcile_def at_server_def on_server_def BudgetReconcile_def Let_def rcall_def split_beta
        split: option.split)
qed

lemma desk_tpm:
  assumes "desk n c" "token_slip (tm_ID t) rsv"
  shows "desk n (tpm_reconcile (hd_gw h) rsv a c)"
proof -
  have "co_fates c = []" using assms(1) by (simp add: at_desk_def)
  then show ?thesis using settle_desk [OF assms]
    by (simp add: tpm_reconcile_def at_server_def on_server_def Let_def split_beta)
qed

lemma desk_tokens:
  assumes "desk n c" "reserveTokens (hd_gw h) (Some t) req c = (x, c')"
  shows "desk n c' \<and> (\<forall>rsv. x = Inr rsv \<longrightarrow> token_slip (tm_ID t) rsv)"
proof -
  have f: "co_fates c = []" using assms(1) by (simp add: at_desk_def)
  have c1: "desk n c1 \<and> token_slip (tm_ID t) rsv"
    if "at_server (on_server (\<lambda>d r. case Reserve (gw_redis (hd_gw h)) d (tm_ID t) TPM lim a bucketTTL r of
          (rsv, res, r') \<Rightarrow> ((rsv, res), r'))) c = ((rsv, res), c1)" for lim a rsv res c1
    using that Consume_desk [OF assms(1), of lim a]
    by (auto simp: f at_server_def on_server_def Let_def Reserve_def token_slip_def split: prod.splits sum.splits if_splits)
  show ?thesis using assms unfolding reserveTokens_def
    by (auto simp: Let_def token_slip_def [of _ None] dest!: c1 intro: desk_tpm
        split: option.splits prod.splits sum.splits if_splits)
qed

text \<open>Reservations the request may still hold: the base amount and the top-ups of its budget.\<close>

definition holding :: "int \<Rightarrow> int \<Rightarrow> chainBudget option \<Rightarrow> ('r, 'x) gcore \<Rightarrow> bool" where
  "holding n est cb c \<longleftrightarrow>
     (\<exists>b vs. cb = Some b \<and> cb_team b = t \<and> cb_extra b = map slip vs \<and> (\<forall>v \<in> set vs. 0 \<le> v \<and> in_i64 v) \<and>
        n + est + sum_list vs \<le> tm_MonthlyBudgetMicros t \<and> desk (n + est + sum_list vs) c)"

lemma holding_still:
  assumes "holding n est cb c" "\<And>m. desk m c \<Longrightarrow> desk m c'"
  shows "holding n est cb c'"
  using assms unfolding holding_def by blast

lemma holding_admit:
  assumes "holding n est cb c" "admit (hd_gw h) model cb c = (x, cb', c')"
  shows "holding n est cb' c'"
proof -
  obtain b vs where b: "cb = Some b" "cb_team b = t" "cb_extra b = map slip vs" "\<forall>v \<in> set vs. 0 \<le> v \<and> in_i64 v"
    "n + est + sum_list vs \<le> tm_MonthlyBudgetMicros t" "desk (n + est + sum_list vs) c"
    using assms(1) unfolding holding_def by blast
  have keep: "holding n est cb c1" if "desk (n + est + sum_list vs) c1" for c1 using b that unfolding holding_def by blast
  have add: "holding n est (Some (b\<lparr>cb_extra := cb_extra b @ [slip d]\<rparr>)) c1"
    if "0 \<le> d" "in_i64 d" "n + est + sum_list vs + d \<le> tm_MonthlyBudgetMicros t" "desk (n + est + sum_list vs + d) c1" for d c1
    unfolding holding_def
    by (rule exI, rule exI [of _ "vs @ [d]"]) (use b that in \<open>auto simp: algebra_simps\<close>)
  have i: "in_i64 (i64 y)" for y using i64_lower [of y] i64_upper [of y] by (simp add: in_i64_def)
  show ?thesis using assms(2) keep [OF b(6)] unfolding admit_def b(1)
    by (auto simp: Let_def b(1,2) i dest!: desk_reserve [OF b(6), rotated] intro: keep [unfolded b(1)] add
        split: option.splits if_splits prod.splits sum.splits)
qed

lemma holding_chain:
  assumes "runChain (hd_gw h) (outside_of h call) chain cb (c, []) = (res, cb', c', sps)" "holding n est cb c"
    and "\<And>prov cand c m. desk m c \<Longrightarrow> desk m (snd (call prov cand c))"
  shows "holding n est cb' c'"
proof -
  have "holding n est cb (fst (c, []))" using assms(2) by simp
  with assms(1) [unfolded runChain_def] show ?thesis
  proof (rule walk_inv [where I = "holding n est", OF attempts, rotated 6])
    fix cand ok prov d u cb and c :: "('r, 'x) gcore"
    assume "holding n est cb c"
    then show "holding n est cb (snd (breaker_check (hd_gw h) cand c))" "holding n est cb (breaker_report (hd_gw h) cand ok c)"
      "holding n est cb (snd (os_call (outside_of h call) prov cand c))"
      "holding n est cb (snd (os_sleep (outside_of h call) d c))" "holding n est cb (snd (os_rand (outside_of h call) u c))"
      using assms(3) still.still_check [OF world] still.still_report [OF world] still.still_sleep [OF world] still.still_rand [OF world]
      by (auto simp: outside_of_def elim: holding_still)
  qed (rule holding_admit)
qed

lemma holding_complete:
  assumes "completeChat h hq req rq chain cb k rs on hdrs m c = (sr, c')" "holding n est (Some cb) c"
  shows "holding n est (sr_budget sr) c'"
proof -
  have start: "holding n est (Some cb) (start_calls c)"
    using assms(2) by (rule holding_still) (simp add: start_calls_def still.still_env [OF world])
  obtain res cb' c1 sps where run: "runChain (hd_gw h) (outside_of h (complete_call h req)) chain (Some cb) (start_calls c, []) =
      (res, cb', c1, sps)" by (metis prod.exhaust)
  have c1: "holding n est cb' c1"
    using run start still.still_complete_call [OF world] by (rule holding_chain)
  have after: "holding n est cb' (considerQuality h i req sm sp resp rs m1 (if on then storeInCache h hq k rs rsp c1 else c1))"
    for i sm sp resp m1 rsp
    using c1 by (rule holding_still) (simp add: still.still_quality [OF world] still.still_storeInCache [OF world])
  show ?thesis using assms(1) c1 after unfolding completeChat_def run
    by (auto simp: Let_def failed_chain_def panicked_request_def split: chain_result.splits option.splits)
qed

lemma holding_stream:
  assumes "streamChatCompletions h hq req rq chain cb k rs on hdrs m c = Some (sr, c')" "holding n est (Some cb) c"
  shows "holding n est (sr_budget sr) c'"
proof -
  have start: "holding n est (Some cb) (start_calls c)"
    using assms(2) by (rule holding_still) (simp add: start_calls_def still.still_env [OF world])
  obtain res cb' c1 sps where run: "runChain (hd_gw h) (outside_of h (stream_call h req)) chain (Some cb) (start_calls c, []) =
      (res, cb', c1, sps)" by (metis prod.exhaust)
  have c1: "holding n est cb' c1"
    using run start still.still_stream_call [OF world] by (rule holding_chain)
  have after: "holding n est cb' (hd_Close h s' c3)"
    if "relay h event (st0, s, c1) = Some (ending, st, s', c2)"
      "finish_stream h hq req served k rs on hdrs ending st m1 c2 = (hnd, c3)"
    for event st0 s ending st s' c2 served m1 hnd c3
    using c1 by (rule holding_still)
      (metis still.still_relay [OF world that(1)] still.still_finish [OF world _ that(2)] still.still_Close [OF world])
  show ?thesis using assms c1 after unfolding streamChatCompletions_def run
    by (auto simp: Let_def failed_chain_def panicked_request_def split: chain_result.splits option.splits if_splits prod.splits)
qed

lemma desk_extras:
  assumes "desk (m + sum_list vs) c" "\<forall>v \<in> set vs. 0 \<le> v \<and> in_i64 v" "in_i64 m" "in_i64 (m + sum_list vs)"
  shows "desk m (fold (\<lambda>v. budget_reconcile (hd_gw h) (Some v) 0) (map slip vs) c)"
  using assms
proof (induction vs arbitrary: c)
  case (Cons v vs)
  have nn: "0 \<le> sum_list vs" "0 \<le> v" "in_i64 v" using Cons.prems by (auto intro: sum_list_nonneg)
  have i: "in_i64 (m + sum_list vs)" using Cons.prems(3,4) nn by (auto simp: in_i64_def)
  have "desk (m + sum_list vs) (budget_reconcile (hd_gw h) (Some (slip v)) 0 c)"
    using desk_reconcile [OF Cons.prems(1) nn(2,3), of 0] i by (simp add: in_i64_def algebra_simps)
  then show ?case using Cons i by simp
qed simp

lemma desk_settle:
  assumes "holding n est (sr_budget sr) c" "token_slip (tm_ID t) tokens" "0 \<le> est" "in_i64 est" "in_i64 n"
    and cost: "cost = mt_costMicros (hn_metrics (sr_handled sr))" "0 \<le> cost" "in_i64 (tm_MonthlyBudgetMicros t + cost)"
  shows "desk (n + cost) (settle (hd_gw h) tokens (Some (slip est)) sr c)"
proof -
  obtain b vs where b: "sr_budget sr = Some b" "cb_extra b = map slip vs" "\<forall>v \<in> set vs. 0 \<le> v \<and> in_i64 v"
    "n + est + sum_list vs \<le> tm_MonthlyBudgetMicros t" "desk (n + est + sum_list vs) c"
    using assms(1) unfolding holding_def by blast
  have nn: "0 \<le> sum_list vs" using b(3) by (auto intro: sum_list_nonneg)
  have i: "in_i64 (n + cost + sum_list vs)" "in_i64 (n + cost)" "in_i64 cost"
    using assms(3,5) cost(2,3) nn b(4) cap_pos by (auto simp: in_i64_def)
  have "desk (n + cost + sum_list vs) (budget_reconcile (hd_gw h) (Some (slip est)) cost c)"
    using desk_reconcile [OF b(5) assms(3,4) cost(2) i(3)] i(1) by (simp add: algebra_simps)
  from desk_extras [OF this b(3) i(2,1)] show ?thesis
    using desk_tpm [OF _ assms(2)] by (simp add: settle_def Let_def b(1,2) reconcileExtras_def cost(1))
qed

lemma desk_budget:
  assumes "desk n c" "reserveBudget (hd_gw h) (Some t) req c = (x, c')"
  shows "(\<exists>est hdrs. x = Inr (Some (slip est), est, hdrs) \<and> 0 \<le> est \<and> in_i64 est \<and>
      n + est \<le> tm_MonthlyBudgetMicros t \<and> desk (n + est) c') \<or> (\<exists>r. x = Inl r) \<and> desk n c'"
proof -
  have i: "in_i64 est \<and> (rsv = Some (slip est) \<and> (\<exists>x. res = Inr x \<and> bud_Allowed x) \<and> 0 \<le> est \<and>
      n + est \<le> tm_MonthlyBudgetMicros t \<and> desk (n + est) c1 \<or>
    rsv = None \<and> desk n c1 \<and> (\<forall>x. res = Inr x \<longrightarrow> \<not> bud_Allowed x))"
    if "store_Cost (gw_store (hd_gw h)) model a b = Inr est" "budget_reserve (hd_gw h) t est c = ((rsv, res), c1)"
    for model a b est rsv res c1
    using store_Cost_i64 [OF that(1)] desk_reserve [OF assms(1) _ that(2)] by simp
  show ?thesis using assms unfolding reserveBudget_def
    by (auto dest!: i split: option.splits sum.splits prod.splits if_splits)
qed

lemma desk_serve:
  assumes "reserveAndServe h (Some t) hq req rq chain k rs on m c = Some (hnd, sps, c')" "desk n c" "in_i64 n" "mt_costMicros m = 0"
    and cost: "cost = mt_costMicros (hn_metrics hnd)" "0 \<le> cost" "in_i64 (tm_MonthlyBudgetMicros t + cost)"
  shows "desk (n + cost) c'"
proof -
  obtain x1 c1 where tok: "reserveTokens (hd_gw h) (Some t) req c = (x1, c1)" by (rule prod.exhaust)
  note d1 = desk_tokens [OF assms(2) tok]
  show ?thesis
  proof (cases x1)
    case (Inl r)
    then show ?thesis using assms(1,4) cost(1) d1 by (auto simp: reserveAndServe_def tok refuse_def)
  next
    case (Inr tokens)
    obtain x2 c2 where bud: "reserveBudget (hd_gw h) (Some t) req c1 = (x2, c2)" by (rule prod.exhaust)
    from desk_budget [OF conjunct1 [OF d1] bud] show ?thesis
    proof (elim disjE exE conjE)
      fix r assume "x2 = Inl r" "desk n c2"
      then show ?thesis using assms(1,4) cost(1) d1 Inr desk_tpm by (auto simp: reserveAndServe_def tok bud)
    next
      fix est hdrs
      assume b: "x2 = Inr (Some (slip est), est, hdrs)" "0 \<le> est" "in_i64 est" "n + est \<le> tm_MonthlyBudgetMicros t" "desk (n + est) c2"
      let ?cb = "\<lparr>cb_team = t, cb_req = req, cb_baseMicros = est, cb_extra = []\<rparr>"
      have hold: "holding n est (Some ?cb) c2" using b by (auto simp: holding_def intro!: exI [of _ "[]"])
      obtain sr c3 where sr: "(if cr_Stream req then streamChatCompletions h hq req rq chain ?cb k rs on hdrs m c2
          else Some (completeChat h hq req rq chain ?cb k rs on hdrs m c2)) = Some (sr, c3)"
        and out: "hnd = sr_handled sr" "c' = settle (hd_gw h) tokens (Some (slip est)) sr c3"
        using assms(1) by (auto simp: reserveAndServe_def tok bud b(1) Inr Let_def split: option.splits prod.splits)
      have "holding n est (sr_budget sr) c3"
        using sr hold holding_stream holding_complete by (auto split: if_splits)
      then show ?thesis unfolding out(2)
        using d1 Inr b(2,3) assms(3) cost by (intro desk_settle) (simp_all add: out(1))
    qed
  qed
qed

lemma desk_request:
  assumes run: "ChatCompletions h (Some t) hq m c = Some (hnd, sps, c')" and d: "desk n c" "in_i64 n" and m: "mt_costMicros m = 0"
    and cost: "cost = mt_costMicros (hn_metrics hnd)" "0 \<le> cost" "in_i64 (tm_MonthlyBudgetMicros t + cost)"
  shows "desk (n + cost) c'"
proof (cases "decode (hd_fmt32 h) hq")
  case (Inl r)
  then show ?thesis using run d m cost(1) by (auto simp: ChatCompletions_def refuse_def)
next
  case (Inr req0)
  let ?m1 = "m\<lparr>mt_requestedModel := cr_Model req0, mt_stream := cr_Stream req0\<rparr>"
  obtain x c1 where r: "route (hd_gw h) (Some t) req0 c = (x, c1)" by (rule prod.exhaust)
  have c1: "desk n c1" using still.still_route [OF world d(1), of "Some t" req0] r by simp
  have m2: "mt_costMicros (note_route nt ?m1) = 0" for nt using m by (simp add: note_route_def split: option.split)
  have hit: "desk (n + cost) c'" if "serveHit h hq req e rs m3 c2 = Some (hnd, sps, c')" "desk n c2" "mt_costMicros m3 = 0" for req e rs m3 c2
    using that cost(1) still.still_quality [OF world that(2)] by (auto simp: serveHit_def Let_def split: if_splits)
  have consult: "desk n c2 \<and> mt_costMicros m3 = 0"
    if "consultCache h (Some t) req (note_route nt ?m1) c1 = (f, m3, c2)" for req nt f m3 c2
    using still.still_consult [OF world c1 that] that m2 by (auto simp: consultCache_def Let_def split: option.splits prod.splits)
  show ?thesis
    using run c1 m m2 unfolding cost(1) ChatCompletions_def Inr r sum.case prod.case
    by (auto simp: Let_def refuse_def dest!: consult intro: hit [unfolded cost(1)] desk_serve [OF _ _ d(2) _ refl cost(2,3) [unfolded cost(1)]]
        split: sum.splits prod.splits option.splits if_splits)
qed

end

section \<open>The property\<close>


text \<open>
  C33. A non-streamed answer is priced by the model name the provider reports, not by the model
  the gateway called. When the price list does not have that name the request is answered with
  200 and billed nothing, whatever tokens it used and although the called model has a price.
\<close>

theorem unpriced_name_is_free:
  assumes "runChain (hd_gw h) (outside_of h (complete_call h req)) chain (Some cb) (start_calls c, []) =
      (ChainServed (Some resp) served fs, cb', c1, sps)"
    and "store_Cost (gw_store (hd_gw h)) (cn_Model served) (us_InputTokens (rs_Usage resp)) (us_OutputTokens (rs_Usage resp)) = Inr price"
    and "\<forall>i out. store_Cost (gw_store (hd_gw h)) (rs_Model resp) i out = Inl (NoPricing (rs_Model resp))"
    and "completeChat h hq req rq chain cb k rs on hdrs m c = (sr, c')"
  shows "\<exists>r. hn_reply (sr_handled sr) = Some r \<and> rp_Status r = 200 \<and>
    mt_costMicros (hn_metrics (sr_handled sr)) = mt_costMicros m"
  using assms by (auto simp: completeChat_def Let_def recordCost_def writeSuccess_def)

text \<open>The small gateway keeps the books of its team.\<close>

interpretation demo: still demo_handler "at_desk mem_redis ''acme'' p n" for p n
  by unfold_locales (auto simp: demo_handler_def demo_gateway_def at_desk_def split: list.split)

lemma demo_gw: "gw_redis (hd_gw demo_handler) = mem_redis" "MaxAttempts (gw_retry (hd_gw demo_handler)) = 3"
  by (simp_all add: demo_handler_def demo_gateway_def)

interpretation demo: till demo_handler demo_team "currentPeriod may_noon"
  unfolding till_def till_axioms_def demo_gw
  using demo.still_axioms mem.redis_server_axioms by (simp add: demo_fields in_i64_def)

lemma demo_opening: "at_desk mem_redis ''acme'' (currentPeriod may_noon) 0 demo_gcore"
  by (simp add: at_desk_def demo_gcore_def may_noon_wf empty_counter) (simp add: empty_mem_def mem_defs)


text \<open>The same provider, answering under a dated name.\<close>

definition dated_handler :: "(mem, unit, Chunk list) handler" where
  "dated_handler = demo_handler\<lparr>hd_Complete := (\<lambda>prov rq c.
     (Inr \<lparr>rs_Content = ascii ''ok'', rs_FinishReason = FinishStop, rs_Usage = \<lparr>us_InputTokens = 900000, us_OutputTokens = 200000\<rparr>,
           rs_Model = ''llama-0101'', rs_Provider = ''groq'', rs_Latency = 0\<rparr>, c))\<rparr>"

theorem unpriced_name_is_free_witness:
  "\<exists>sr c' r. completeChat dated_handler demo_http (demo_request ''llama'') demo_cand [demo_cand] demo_cb no_key no_result False []
      (fresh_metrics 0) demo_gcore = (sr, c') \<and> hn_reply (sr_handled sr) = Some r \<and> rp_Status r = 200 \<and>
     mt_costMicros (hn_metrics (sr_handled sr)) = 0"
proof -
  let ?resp = "\<lparr>rs_Content = ascii ''ok'', rs_FinishReason = FinishStop, rs_Usage = \<lparr>us_InputTokens = 900000, us_OutputTokens = 200000\<rparr>,
    rs_Model = ''llama-0101'', rs_Provider = ''groq'', rs_Latency = 0\<rparr>"
  obtain prov where p: "store_ForModel (gw_store demo_gateway) ''llama'' = Some prov" using demo_store(4) by blast
  have gw: "hd_gw dated_handler = demo_gateway" by (simp add: dated_handler_def demo_handler_def)
  have "\<exists>cb' c1 sps. runChain demo_gateway (outside_of dated_handler (complete_call dated_handler (demo_request ''llama''))) [demo_cand]
      (Some demo_cb) (start_calls demo_gcore, []) = (ChainServed (Some ?resp) demo_cand [], cb', c1, sps)"
    by (simp add: runChain_def try_candidate_def breaker_check_def on_breaker_def breakerFor_def demo_gcore_def start_calls_def
        admit_def demo_fields p Do_def attempt_env_def outside_of_def complete_call_def Let_def Chaos_Apply_def Chaos_Available_def
        dated_handler_def demo_handler_def do_from.simps record_health_def note_time_def) (simp add: demo_gateway_def do_from.simps)
  then obtain cb' c1 sps where run: "runChain (hd_gw dated_handler) (outside_of dated_handler (complete_call dated_handler (demo_request ''llama'')))
      [demo_cand] (Some demo_cb) (start_calls demo_gcore, []) = (ChainServed (Some ?resp) demo_cand [], cb', c1, sps)"
    unfolding gw by blast
  obtain sr c' where cc: "completeChat dated_handler demo_http (demo_request ''llama'') demo_cand [demo_cand] demo_cb no_key no_result False []
      (fresh_metrics 0) demo_gcore = (sr, c')" by (rule prod.exhaust)
  have "store_Cost (gw_store demo_gateway) ''llama-0101'' i out = Inl (NoPricing ''llama-0101'')" for i out
    by (simp add: demo_gateway_def newConfigStore_def store_Cost_def Cost_def demo_live_def demo_eval Let_def)
  then show ?thesis
    using unpriced_name_is_free [OF run _ _ cc] cc by (auto simp: gw demo_store fresh_metrics_def)
qed

end
