(* ===== verification/Upstream.thy ===== *)
theory Upstream
  imports Gateway
begin

text \<open>
  The handler of \<open>Gateway\<close> over the adapters of \<open>Adapters\<close>: the provider calls are HTTP calls,
  the streams are the bodies they answer with. \<open>wait\<close> is what happens elsewhere while a receive
  waits for its bytes.
\<close>

definition upstream_handler ::
  "(payload, ('r, 'x) gcore) network \<Rightarrow> json_codec \<Rightarrow> (('r, 'x) gcore \<Rightarrow> ('r, 'x) gcore) \<Rightarrow>
   ('r, 'x, adapter_stream) handler \<Rightarrow> ('r, 'x, adapter_stream) handler" where
  "upstream_handler net cd wait h =
     h\<lparr>hd_Complete := adapter_Complete net cd, hd_Stream := adapter_Stream net cd,
       hd_Recv := (\<lambda>s c. case adapter_Recv cd s of (got, s') \<Rightarrow> (got, s', wait c)), hd_Close := (\<lambda>s c. c)\<rparr>"

lemma upstream_Recv: "hd_Recv (upstream_handler net cd wait h) s c = (fst (adapter_Recv cd s), snd (adapter_Recv cd s), wait c)"
  by (simp add: upstream_handler_def split: prod.split)

text \<open>Every body ends, so every stream does.\<close>

lemma upstream_delivers: "\<exists>chunks e. delivers (upstream_handler net cd wait h) s chunks e"
proof (induction "length (bd_text (as_body s))" arbitrary: s rule: less_induct)
  case less
  obtain got s' where r: "adapter_Recv cd s = (got, s')" by (rule prod.exhaust)
  show ?case
  proof (cases got)
    case (RecvChunk ch)
    have "length (bd_text (as_body s')) < length (bd_text (as_body s))" using adapter_Recv_shrinks r RecvChunk by blast
    from less [OF this] obtain chunks e where "delivers (upstream_handler net cd wait h) s' chunks e" by blast
    then have "delivers (upstream_handler net cd wait h) s (ch # chunks) e" by (simp add: upstream_Recv r RecvChunk)
    then show ?thesis by blast
  next
    case RecvEOF
    then have "delivers (upstream_handler net cd wait h) s [] RecvEOF" by (simp add: upstream_Recv r)
    then show ?thesis by blast
  next
    case (RecvErr e)
    then have "delivers (upstream_handler net cd wait h) s [] (RecvErr e)" by (simp add: upstream_Recv r)
    then show ?thesis by blast
  qed
qed

text \<open>A stream of server-sent events.\<close>

definition sse_adapter :: "Adapter \<Rightarrow> bool" where
  "sse_adapter p \<longleftrightarrow> (\<forall>cfg. p \<noteq> Ollama cfg)"

lemma adapter_Recv_sse:
  assumes "sse_adapter (as_adapter s)"
  shows "adapter_Recv cd s =
    (case sse_recv (adapter_decode cd (as_adapter s) (as_model s)) (as_inputTokens s, as_body s) of
       (got, n, b') \<Rightarrow> (got, s\<lparr>as_inputTokens := n, as_body := b'\<rparr>))"
  using assms by (cases "as_adapter s") (simp_all add: adapter_Recv_def sse_adapter_def)

lemma body_end_stops: "body_end e \<noteq> RecvChunk ch"
  by (simp add: body_end_def split: option.split)

lemma upstream_decoded:
  assumes "sse_adapter (as_adapter s)" "\<forall>ev \<in> set evs. writable ev"
    and "as_body s = \<lparr>bd_text = concat (map write_event evs), bd_err = e\<rparr>"
    and "decode_all (adapter_decode cd (as_adapter s) (as_model s)) (body_end e) (as_inputTokens s) evs = (chunks, last_of)"
  shows "delivers (upstream_handler net cd wait h) s chunks last_of"
  using assms
proof (induction "length evs" arbitrary: evs s chunks last_of rule: less_induct)
  case less
  let ?dec = "adapter_decode cd (as_adapter s) (as_model s)"
  obtain got d' evs' where r: "recv_events ?dec (body_end e) (as_inputTokens s) evs = (got, d', evs')" by (rule prod_cases3)
  let ?s' = "s\<lparr>as_inputTokens := d', as_body := \<lparr>bd_text = concat (map write_event evs'), bd_err = e\<rparr>\<rparr>"
  have recv: "adapter_Recv cd s = (got, ?s')"
    using sse_recv_events [OF less.prems(2) r] by (simp add: adapter_Recv_sse [OF less.prems(1)] less.prems(3))
  show ?case
  proof (cases "\<exists>ch. got = RecvChunk ch")
    case True
    then obtain ch where ch: "got = RecvChunk ch" by blast
    note step = recv_events_chunk [OF r [unfolded ch]]
    have "chunks = ch # fst (decode_all ?dec (body_end e) d' evs')" "last_of = snd (decode_all ?dec (body_end e) d' evs')"
      using step less.prems(4) body_end_stops by auto
    moreover have "delivers (upstream_handler net cd wait h) ?s' (fst (decode_all ?dec (body_end e) d' evs')) (snd (decode_all ?dec (body_end e) d' evs'))"
      using step body_end_stops less.prems(1,2) by (intro less.hyps [of evs']) auto
    ultimately show ?thesis by (simp add: upstream_Recv recv ch)
  next
    case False
    then show ?thesis using recv_events_stop [OF r] less.prems(4) by (simp add: upstream_Recv recv)
  qed
qed

text \<open>
  C9. The gateway returns: over the real adapters, with finite bodies, every request in every
  state is answered or panics, however the network, the client, Redis, the cache and the judge
  behave. Nothing in the handler, the walk over the chain, the retries, the readers of streams or
  the relay runs for ever.
\<close>

theorem gateway_returns: "\<exists>x. ChatCompletions (upstream_handler net cd wait h) team hq m c = Some x"
  by (rule handler_returns) (intro allI upstream_delivers)

text \<open>
  C10. The readers of server-sent events decode what the provider wrote: a body that is the
  written form of a list of events is received as exactly the chunks those events decode to, in
  order, and ends the way they or the connection end, however the events were cut into lines
  and whatever the decoder carries from one to the next.
\<close>

theorem sse_stream_decoded:
  assumes "sse_adapter (as_adapter s)" "\<forall>ev \<in> set evs. writable ev"
    and "as_body s = \<lparr>bd_text = concat (map write_event evs), bd_err = e\<rparr>"
    and "decode_all (adapter_decode cd (as_adapter s) (as_model s)) (body_end e) (as_inputTokens s) evs = (chunks, last_of)"
  shows "delivers (upstream_handler net cd wait h) s chunks last_of"
  using assms by (rule upstream_decoded)

text \<open>
  C34. A failure that an OpenAI-compatible upstream reports inside the stream is taken for its
  end. The event that carries it decodes to an empty chunk, since decoding ignores the fields a
  chunk does not have, and the stream then ends cleanly: the caller receives the text so far and
  the end that a complete answer has.
\<close>

theorem error_event_reads_as_end:
  assumes "as_adapter s = OpenAICompatible cfg" "\<forall>ev \<in> set (evs @ [err]). writable ev"
    and "as_body s = \<lparr>bd_text = concat (map write_event (evs @ [err])), bd_err = None\<rparr>"
    and "\<forall>ev \<in> set evs. \<exists>ch. openai_decodeStreamEvent (cd_openaiChunk cd) cfg ev \<in> {NoChunk, OneChunk ch}"
    and "TrimSpace (ev_Data err) \<noteq> []" "TrimSpace (ev_Data err) \<noteq> ascii ''[DONE]''"
    and "cd_openaiChunk cd (TrimSpace (ev_Data err)) = Some \<lparr>ok_Choices = [], ok_Usage = None\<rparr>"
  shows "\<exists>chunks none. decode_all (adapter_decode cd (as_adapter s) (as_model s)) RecvEOF (as_inputTokens s) evs = (chunks, RecvEOF) \<and>
    empty_chunk none \<and> delivers (upstream_handler net cd wait h) s (chunks @ [none]) RecvEOF"
proof -
  let ?dec = "adapter_decode cd (as_adapter s) (as_model s)"
  let ?none = "\<lparr>ck_Content = [], ck_FinishReason = FinishNone, ck_Usage = None\<rparr>"
  have dec: "?dec n ev = (openai_decodeStreamEvent (cd_openaiChunk cd) cfg ev, n)" for n ev
    by (simp add: adapter_decode_def assms(1))
  have "?dec n err = (OneChunk ?none, n)" for n
    using assms(5-7) by (simp add: dec openai_decodeStreamEvent_def Let_def)
  then have "\<exists>chunks. decode_all ?dec RecvEOF n evs = (chunks, RecvEOF) \<and> decode_all ?dec RecvEOF n (evs @ [err]) = (chunks @ [?none], RecvEOF)" for n
    using assms(4) by (induction evs) (fastforce simp: dec)+
  then obtain chunks where ch: "decode_all ?dec RecvEOF (as_inputTokens s) evs = (chunks, RecvEOF)"
    "decode_all ?dec RecvEOF (as_inputTokens s) (evs @ [err]) = (chunks @ [?none], RecvEOF)" by blast
  have "delivers (upstream_handler net cd wait h) s (chunks @ [?none]) RecvEOF"
    using assms(1-3) ch(2) by (intro upstream_decoded [of s "evs @ [err]" None]) (simp_all add: sse_adapter_def body_end_def)
  then show ?thesis using ch(1) by (intro exI conjI) (assumption, simp_all add: empty_chunk_def)
qed

section \<open>A short stream\<close>

definition demo_codec :: json_codec where
  "demo_codec =
     (let e = \<lparr>ge_Text = [], ge_DeadlineExceeded = False, ge_NetTimeout = False\<rparr> in
      \<lparr>cd_openai = (\<lambda>_. Inl e),
       cd_openaiChunk = (\<lambda>d. Some \<lparr>ok_Choices = (if d = ascii ''hi'' then [\<lparr>os_Content = d, os_FinishReason = None\<rparr>] else []),
                                  ok_Usage = None\<rparr>),
       cd_openaiError = (\<lambda>_. None), cd_anthropic = (\<lambda>_. Inl e),
       cd_anthropicEvent = \<lparr>ac_start = (\<lambda>_. None), ac_block = (\<lambda>_. None), ac_delta = (\<lambda>_. None), ac_error = (\<lambda>_. None)\<rparr>,
       cd_gemini = (\<lambda>_. Inl e), cd_geminiError = (\<lambda>_. None), cd_ollama = (\<lambda>_. Inl e), cd_ollamaError = (\<lambda>_. None),
       cd_lower = (\<lambda>r. r)\<rparr>)"

definition demo_reading :: "sseEvent list \<Rightarrow> adapter_stream" where
  "demo_reading evs =
     \<lparr>as_adapter = OpenAICompatible groq_cfg, as_model = ''llama'', as_inputTokens = 0,
      as_body = \<lparr>bd_text = concat (map write_event evs), bd_err = None\<rparr>\<rparr>"

abbreviation "demo_event d \<equiv> \<lparr>ev_Event = [], ev_Data = ascii d\<rparr>"

lemma demo_writable: "writable (demo_event ''hi'')" "writable (demo_event ''[DONE]'')" "writable (demo_event ''{error}'')"
  by (simp_all add: writable_def ascii_def TrimSpace_def byte_len_def utf8_len_def maxStreamLineBytes_def)

lemma demo_decodes:
  "adapter_decode demo_codec (OpenAICompatible groq_cfg) m n (demo_event ''hi'') =
     (OneChunk \<lparr>ck_Content = ascii ''hi'', ck_FinishReason = FinishNone, ck_Usage = None\<rparr>, n)"
  "adapter_decode demo_codec (OpenAICompatible groq_cfg) m n (demo_event ''[DONE]'') = (StreamDone, n)"
  "TrimSpace (ascii ''{error}'') = ascii ''{error}''"
  by (simp_all add: adapter_decode_def openai_decodeStreamEvent_def demo_codec_def Let_def ascii_def TrimSpace_def is_space_def)

lemma demo_apart: "ascii ''{error}'' \<noteq> []" "ascii ''{error}'' \<noteq> ascii ''[DONE]''"
  by (simp_all add: ascii_def)

theorem sse_stream_decoded_witness:
  "\<forall>net wait h. delivers (upstream_handler net demo_codec wait h) (demo_reading [demo_event ''hi'', demo_event ''[DONE]''])
     [\<lparr>ck_Content = ascii ''hi'', ck_FinishReason = FinishNone, ck_Usage = None\<rparr>] RecvEOF"
  by (intro allI, rule sse_stream_decoded [where evs = "[demo_event ''hi'', demo_event ''[DONE]'']" and e = None])
    (simp_all add: demo_reading_def sse_adapter_def demo_writable demo_decodes)

theorem error_event_reads_as_end_witness:
  "\<forall>net wait h. \<exists>none. empty_chunk none \<and>
     delivers (upstream_handler net demo_codec wait h) (demo_reading [demo_event ''hi'', demo_event ''{error}''])
       [\<lparr>ck_Content = ascii ''hi'', ck_FinishReason = FinishNone, ck_Usage = None\<rparr>, none] RecvEOF"
proof (intro allI)
  fix net :: "(payload, ('r, 'x) gcore) network" and wait and h :: "('r, 'x, adapter_stream) handler"
  let ?s = "demo_reading [demo_event ''hi'', demo_event ''{error}'']"
  have d: "openai_decodeStreamEvent (cd_openaiChunk demo_codec) groq_cfg (demo_event ''hi'') =
      OneChunk \<lparr>ck_Content = ascii ''hi'', ck_FinishReason = FinishNone, ck_Usage = None\<rparr>"
    using demo_decodes(1) by (simp add: adapter_decode_def)
  have "cd_openaiChunk demo_codec (ascii ''{error}'') = Some \<lparr>ok_Choices = [], ok_Usage = None\<rparr>"
    by (simp add: demo_codec_def Let_def ascii_def)
  then have "\<exists>chunks none. decode_all (adapter_decode demo_codec (as_adapter ?s) (as_model ?s)) RecvEOF (as_inputTokens ?s) [demo_event ''hi''] =
      (chunks, RecvEOF) \<and> empty_chunk none \<and> delivers (upstream_handler net demo_codec wait h) ?s (chunks @ [none]) RecvEOF"
    using d by (intro error_event_reads_as_end [where cfg = groq_cfg and err = "demo_event ''{error}''"])
      (auto simp: demo_reading_def demo_writable demo_decodes demo_apart)
  then show "\<exists>none. empty_chunk none \<and> delivers (upstream_handler net demo_codec wait h) ?s
      [\<lparr>ck_Content = ascii ''hi'', ck_FinishReason = FinishNone, ck_Usage = None\<rparr>, none] RecvEOF"
    by (auto simp: demo_reading_def demo_decodes simp del: delivers.simps)
qed

end
