(* ===== verification/Spec2Isabelle.thy ===== *)
theory Spec2Isabelle
  imports Spend Upstream
begin

text \<open>
  Verification of the switchyard gateway.
\<close>

end
